theory Spec2Isabelle
  imports Complex_Main
begin

section \<open>Values shared by both modules\<close>

text \<open>
  The development embeds \<^verbatim>\<open>baselines/her/rollout.py\<close> (class RolloutWorker) and the
  environment cache and parameter preparation of \<^verbatim>\<open>baselines/her/experiment/config.py\<close>.

  Conventions of the embedding.
  \<^item> A numpy float is an \<open>npfloat\<close>: a real number, an infinity or NaN (the two zeros
    are not told apart). A float64 is taken as the real number it denotes, and float64
    addition as exact. A store into a float32 array (\<^verbatim>\<open>self.g\<close>, \<^verbatim>\<open>self.initial_o\<close>,
    \<^verbatim>\<open>self.initial_ag\<close>, and the local \<^verbatim>\<open>o\<close>, \<^verbatim>\<open>ag\<close> and \<^verbatim>\<open>info_values\<close>) rounds to the
    nearest float32 (function \<open>float32\<close>), as numpy's cast does.
  \<^item> A one-dimensional array is a list (\<open>vec\<close>), a two-dimensional array a list of rows.
  \<^item> Every Python exception that leaves a function is a value \<open>Inl e\<close> of a sum type. In
    \<^verbatim>\<open>rollout.py\<close> the state of the worker at that moment is dropped, because no caller in
    the sources catches such an exception; in \<^verbatim>\<open>config.py\<close> the state of the process is
    kept, to count the calls of a factory.
  \<^item> The environment, the policy and the logger are outside the repository. The
    environment and the policy are parameters (record \<open>ops\<close>) over abstract state types
    \<open>'e\<close> and \<open>'p\<close>; the logger is the list of the warnings it was sent.
  \<^item> Rendering is switched off (\<^verbatim>\<open>self.render\<close> false), so the image buffer and the calls of
    \<^verbatim>\<open>env.render\<close> do not occur.
\<close>

datatype pyerr =
  AttributeError | AssertionError | KeyError | IndexError | ValueError
  | ZeroDivisionError | FactoryError

datatype npfloat = NaN | Fin real | PosInf | NegInf

type_synonym vec = "npfloat list"

text \<open>Addition of floats: NaN absorbs, and so does the sum of the two infinities.\<close>

fun fl_add :: "npfloat \<Rightarrow> npfloat \<Rightarrow> npfloat" where
  "fl_add (Fin a) (Fin b) = Fin (a + b)"
| "fl_add NaN _ = NaN"
| "fl_add _ NaN = NaN"
| "fl_add PosInf NegInf = NaN"
| "fl_add NegInf PosInf = NaN"
| "fl_add PosInf _ = PosInf"
| "fl_add _ PosInf = PosInf"
| "fl_add NegInf _ = NegInf"
| "fl_add _ NegInf = NegInf"

text \<open>Python's truth value of a float (\<^verbatim>\<open>if x:\<close>): every value but zero, NaN included.\<close>

fun truthy :: "npfloat \<Rightarrow> bool" where
  "truthy (Fin r) = (r \<noteq> 0)"
| "truthy _ = True"

text \<open>The comparison \<^verbatim>\<open>x > 0\<close>, false for NaN.\<close>

fun gt_zero :: "npfloat \<Rightarrow> bool" where
  "gt_zero (Fin r) = (0 < r)"
| "gt_zero PosInf = True"
| "gt_zero _ = False"

text \<open>
  The cast to float32 (IEEE binary32, round to nearest, ties to even). \<open>bit_length\<close> is
  Python's \<^verbatim>\<open>int.bit_length\<close>; \<open>exponent2 y\<close> is the binary exponent of a positive \<open>y\<close>, the
  integer \<open>e\<close> with \<open>2^e \<le> y < 2^(e+1)\<close>. A float32 of exponent \<open>e\<close> is a multiple of
  \<open>2^(e-23)\<close>, and no spacing is finer than \<open>2^(-149)\<close>, that of the subnormal numbers. A
  value that rounds to \<open>2^128\<close> or beyond becomes an infinity.
\<close>

function bit_length :: "int \<Rightarrow> int" where
  "bit_length n = (if n \<le> 0 then 0 else 1 + bit_length (n div 2))"
  by auto

termination bit_length
  by (relation "measure nat") auto

declare bit_length.simps [simp del]

definition exponent2 :: "real \<Rightarrow> int" where
  "exponent2 y =
     (if 1 \<le> y then bit_length \<lfloor>y\<rfloor> - 1 else - bit_length (\<lceil>1 / y\<rceil> - 1))"

definition round_half_even :: "real \<Rightarrow> int" where
  "round_half_even x =
     (let f = \<lfloor>x\<rfloor>; d = x - of_int f
      in if d < 1 / 2 then f else if 1 / 2 < d then f + 1 else if even f then f else f + 1)"

definition float32_real :: "real \<Rightarrow> real" where
  "float32_real x =
     (if x = 0 then 0
      else
        (let e = max (exponent2 \<bar>x\<bar>) (- 126);
             q = 2 powi (e - 23)
         in of_int (round_half_even (x / q)) * q))"

fun float32 :: "npfloat \<Rightarrow> npfloat" where
  "float32 (Fin x) =
     (let y = float32_real x
      in if 2 ^ 128 \<le> \<bar>y\<bar> then (if 0 < x then PosInf else NegInf) else Fin y)"
| "float32 v = v"

declare float32.simps(1) [simp del]

text \<open>A Python bool stored into a float array.\<close>

definition of_flag :: "bool \<Rightarrow> npfloat" where
  "of_flag b = (if b then Fin 1 else Fin 0)"

definition np_sum :: "npfloat list \<Rightarrow> npfloat" where
  "np_sum xs = foldl fl_add (Fin 0) xs"

text \<open>\<^verbatim>\<open>np.mean\<close>: NaN on an empty sequence.\<close>

definition np_mean :: "npfloat list \<Rightarrow> npfloat" where
  "np_mean xs =
     (if xs = [] then NaN
      else case np_sum xs of Fin s \<Rightarrow> Fin (s / real (length xs)) | other \<Rightarrow> other)"

definition np_zeros :: "nat \<Rightarrow> npfloat list" where
  "np_zeros n = replicate n (Fin 0)"

definition np_ones :: "nat \<Rightarrow> npfloat list" where
  "np_ones n = replicate n (Fin 1)"

definition zeros_like :: "vec \<Rightarrow> vec" where
  "zeros_like v = map (\<lambda>_. Fin 0) v"

text \<open>
  \<^verbatim>\<open>np.empty((n, d))\<close> leaves its cells uninitialised; the model fixes them to zero.
\<close>

definition np_empty :: "nat \<Rightarrow> nat \<Rightarrow> vec list" where
  "np_empty n d = replicate n (replicate d (Fin 0))"

text \<open>\<^verbatim>\<open>np.isnan(a).any()\<close> on a two-dimensional array.\<close>

definition isnan_any :: "vec list \<Rightarrow> bool" where
  "isnan_any rows = (NaN \<in> set (concat rows))"

text \<open>\<^verbatim>\<open>deque(maxlen=n).append(x)\<close>: the oldest entries leave when the queue is full.\<close>

definition deque_append :: "nat \<Rightarrow> 'a \<Rightarrow> 'a list \<Rightarrow> 'a list" where
  "deque_append maxlen x xs = (let ys = xs @ [x] in drop (length ys - maxlen) ys)"

text \<open>An argument whose default is \<^verbatim>\<open>False\<close> and whose other values are numpy arrays.\<close>

datatype 'a pyarg = PyFalse | NdArray 'a

text \<open>Indexed reads and writes that raise out of range.\<close>

definition get_row :: "'a list \<Rightarrow> nat \<Rightarrow> pyerr + 'a" where
  "get_row xs i = (if i < length xs then Inr (xs ! i) else Inl IndexError)"

definition set_row :: "'a list \<Rightarrow> nat \<Rightarrow> 'a \<Rightarrow> pyerr + 'a list" where
  "set_row xs i v = (if i < length xs then Inr (xs[i := v]) else Inl IndexError)"

text \<open>
  The assignment \<^verbatim>\<open>a[i] = v\<close> of a one-dimensional \<open>v\<close> to row \<open>i\<close> of a two-dimensional
  array: \<open>v\<close> needs the width of the row or the width one (it is then repeated along the
  row), any other width raises \<^verbatim>\<open>ValueError\<close>; the values are converted to the
  \<^verbatim>\<open>dtype\<close> of the array (\<open>cast\<close>).
\<close>

definition broadcast_to :: "nat \<Rightarrow> 'a list \<Rightarrow> pyerr + 'a list" where
  "broadcast_to d v =
     (if length v = d then Inr v
      else if length v = 1 then Inr (replicate d (hd v))
      else Inl ValueError)"

definition store_row ::
  "('a \<Rightarrow> 'a) \<Rightarrow> 'a list list \<Rightarrow> nat \<Rightarrow> 'a list \<Rightarrow> pyerr + 'a list list" where
  "store_row cast xs i v =
     (if i < length xs
      then (case broadcast_to (length (xs ! i)) v of
              Inl e \<Rightarrow> Inl e
            | Inr row \<Rightarrow> Inr (xs[i := map cast row]))
      else Inl IndexError)"

definition then_do :: "'x + 'a \<Rightarrow> ('a \<Rightarrow> 'x + 'b) \<Rightarrow> 'x + 'b" where
  "then_do m f = (case m of Inl e \<Rightarrow> Inl e | Inr a \<Rightarrow> f a)"

definition lookup :: "('k \<times> 'v) list \<Rightarrow> 'k \<Rightarrow> pyerr + 'v" where
  "lookup d k = (case map_of d k of None \<Rightarrow> Inl KeyError | Some v \<Rightarrow> Inr v)"

section \<open>rollout.py: the environment and policy interfaces\<close>

text \<open>
  What \<^verbatim>\<open>env.reset()\<close> and \<^verbatim>\<open>env.step\<close> return as observation: a dict with the keys
  observation, achieved_goal and desired_goal (in this order below), or a plain array.
\<close>

datatype env_obs = DictObs vec vec vec | ArrayObs vec

text \<open>
  The \<^verbatim>\<open>info\<close> dict of a step, seen through the three accesses the loop makes:
  \<^verbatim>\<open>info['is_success']\<close>, \<^verbatim>\<open>info['cur_step']\<close> (both optional) and \<^verbatim>\<open>info[key]\<close> for an
  info channel.
\<close>

record info =
  is_success :: "npfloat option"
  cur_step :: "int option"
  info_item :: "string \<Rightarrow> vec option"

datatype step_result = MujocoException | Stepped env_obs npfloat bool info

text \<open>\<^verbatim>\<open>policy.get_actions\<close> returns a one- or a two-dimensional action array.\<close>

datatype action_batch = Act1 vec | Act2 "vec list"

record policy_args =
  arg_o :: "vec list"
  arg_z :: "vec list"
  arg_ag :: "vec list"
  arg_g :: "vec list"
  arg_compute_Q :: bool
  arg_noise_eps :: real
  arg_random_eps :: real
  arg_use_target_net :: bool
  arg_exploit :: bool

text \<open>
  The operations of the collaborators. \<open>get_actions\<close> always returns a pair; the second
  component is the Q estimate and is read only when \<^verbatim>\<open>compute_Q\<close> is set.
  \<open>env_set_goal\<close> is the assignment \<^verbatim>\<open>self.envs[i].env.goal = ...\<close>. The operations are
  total: of the exceptions a collaborator can raise, only the \<^verbatim>\<open>MujocoException\<close> of a step
  is represented, the one the loop catches.
\<close>

record ('e, 'p) ops =
  env_reset :: "'e \<Rightarrow> env_obs \<times> 'e"
  env_step :: "'e \<Rightarrow> vec \<Rightarrow> step_result \<times> 'e"
  env_set_goal :: "'e \<Rightarrow> vec \<Rightarrow> 'e"
  get_actions :: "'p \<Rightarrow> policy_args \<Rightarrow> (action_batch \<times> vec) \<times> 'p"

section \<open>rollout.py: the worker\<close>

record ('e, 'p) worker =
  envs :: "'e list"
  policy :: 'p
  dims :: "(string \<times> nat) list"
  logger :: "string list"
  T :: int
  rollout_batch_size :: nat
  exploit :: bool
  use_target_net :: bool
  compute_Q :: bool
  noise_eps :: real
  random_eps :: real
  history_len :: nat
  info_keys :: "string list"
  success_history :: "npfloat list"
  Q_history :: "npfloat list"
  episode_length_history :: "npfloat list"
  once_success_history :: "npfloat list"
  return_history :: "npfloat list"
  n_episodes :: int
  g :: "vec list"
  initial_o :: "vec list"
  initial_ag :: "vec list"

text \<open>
  \<^verbatim>\<open>reset_rollout(i, generated_goal)\<close>. The arrays \<^verbatim>\<open>self.g\<close>, \<^verbatim>\<open>self.initial_o\<close> and
  \<^verbatim>\<open>self.initial_ag\<close> are float32 (lines 45 to 47). In the chained assignment of line
  59 the row of \<^verbatim>\<open>self.g\<close> is assigned first, then the goal of the environment, which
  receives the copy of \<^verbatim>\<open>generated_goal[i]\<close> as it is.
\<close>

definition reset_rollout ::
  "('e, 'p) ops \<Rightarrow> nat \<Rightarrow> vec list pyarg \<Rightarrow> ('e, 'p) worker \<Rightarrow> pyerr + ('e, 'p) worker" where
  "reset_rollout ops i generated_goal w =
     then_do (get_row (envs w) i) (\<lambda>env.
       case env_reset ops env of
         (DictObs observation achieved_goal desired_goal, env1) \<Rightarrow>
           then_do (store_row float32 (g w) i desired_goal) (\<lambda>g1.
           then_do
             (case generated_goal of
                NdArray goal_rows \<Rightarrow>
                  then_do (get_row goal_rows i) (\<lambda>goal.
                  then_do (store_row float32 g1 i goal) (\<lambda>g2.
                    Inr (g2, env_set_goal ops env1 goal)))
              | PyFalse \<Rightarrow> Inr (g1, env1))
             (\<lambda>(g2, env2).
           then_do (store_row float32 (initial_o w) i observation) (\<lambda>o1.
           then_do (store_row float32 (initial_ag w) i achieved_goal) (\<lambda>ag1.
             Inr (w\<lparr>envs := (envs w)[i := env2], g := g2,
                     initial_o := o1, initial_ag := ag1\<rparr>)))))
       | (ArrayObs observation, env1) \<Rightarrow>
           then_do (get_row (g w) i) (\<lambda>g_i.
           then_do (set_row (g w) i (zeros_like g_i)) (\<lambda>g1.
           then_do (store_row float32 (initial_o w) i observation) (\<lambda>o1.
           then_do (get_row (initial_ag w) i) (\<lambda>ag_i.
           then_do (set_row (initial_ag w) i (zeros_like ag_i)) (\<lambda>ag1.
             Inr (w\<lparr>envs := (envs w)[i := env1], g := g1,
                     initial_o := o1, initial_ag := ag1\<rparr>)))))))"

text \<open>\<^verbatim>\<open>reset_all_rollouts(generated_goal)\<close>: the loop over \<^verbatim>\<open>range(rollout_batch_size)\<close>.\<close>

fun reset_loop ::
  "('e, 'p) ops \<Rightarrow> vec list pyarg \<Rightarrow> nat list \<Rightarrow> ('e, 'p) worker \<Rightarrow> pyerr + ('e, 'p) worker" where
  "reset_loop ops generated_goal [] w = Inr w"
| "reset_loop ops generated_goal (i # rest) w =
     (case reset_rollout ops i generated_goal w of
        Inl e \<Rightarrow> Inl e
      | Inr w1 \<Rightarrow> reset_loop ops generated_goal rest w1)"

definition reset_all_rollouts ::
  "('e, 'p) ops \<Rightarrow> vec list pyarg \<Rightarrow> ('e, 'p) worker \<Rightarrow> pyerr + ('e, 'p) worker" where
  "reset_all_rollouts ops generated_goal w =
     reset_loop ops generated_goal [0..<rollout_batch_size w] w"

section \<open>rollout.py: the local variables of generate_rollouts\<close>

text \<open>
  The local variables of \<^verbatim>\<open>generate_rollouts\<close>, under their names in the source. The live
  buffers \<^verbatim>\<open>o\<close>, \<^verbatim>\<open>ag\<close> and \<^verbatim>\<open>z\<close> are the fields \<open>o_arr\<close>, \<open>ag_arr\<close> and
  \<open>z_arr\<close>; the action batch \<^verbatim>\<open>u\<close> of a timestep is an argument of the inner loop.
\<close>

record frame =
  o_arr :: "vec list"
  ag_arr :: "vec list"
  z_arr :: "vec list"
  obs :: "vec list list"
  zs :: "vec list list"
  achieved_goals :: "vec list list"
  acts :: "vec list list"
  goals :: "vec list list"
  successes :: "npfloat list list"
  rewards :: "npfloat list list"
  dones :: "npfloat list list"
  valids :: "npfloat list list"
  info_values :: "vec list list list"
  Qs :: "vec list"
  cur_valid :: "npfloat list"
  lengths :: "int list"
  once_successes :: "int list"
  returns :: "npfloat list"
  o_new :: "vec list"
  ag_new :: "vec list"
  success :: "npfloat list"
  cur_reward :: "npfloat list"
  cur_done :: "npfloat list"

text \<open>
  How a loop leaves: it goes on (\<open>Next\<close>), a \<^verbatim>\<open>MujocoException\<close> was caught (\<open>Fault\<close>), a
  NaN was found in \<^verbatim>\<open>o_new\<close> (\<open>NanSeen\<close>), or another exception escapes (\<open>Raised\<close>).
\<close>

datatype 's outcome = Next 's | Fault 's | NanSeen 's | Raised pyerr

text \<open>
  \<^verbatim>\<open>for idx, key in enumerate(self.info_keys): info_values[idx][t, i] = info[key]\<close>
  (the arrays \<^verbatim>\<open>info_values[idx]\<close> are float32)
\<close>

fun store_info ::
  "info \<Rightarrow> nat \<Rightarrow> nat \<Rightarrow> (nat \<times> string) list \<Rightarrow> vec list list list
   \<Rightarrow> pyerr + vec list list list" where
  "store_info nfo t i [] iv = Inr iv"
| "store_info nfo t i ((idx, key) # rest) iv =
     (case info_item nfo key of
        None \<Rightarrow> Inl KeyError
      | Some v \<Rightarrow>
          (case broadcast_to (length (iv ! idx ! t ! i)) v of
             Inl e \<Rightarrow> Inl e
           | Inr row \<Rightarrow>
               store_info nfo t i rest
                 (iv[idx := (iv ! idx)[t := (iv ! idx ! t)[i := map float32 row]]])))"

text \<open>
  The arguments of the call \<^verbatim>\<open>self.policy.get_actions(...)\<close> at a timestep.
\<close>

definition policy_call :: "('e, 'p) worker \<Rightarrow> bool \<Rightarrow> frame \<Rightarrow> policy_args" where
  "policy_call w random_action L =
     \<lparr>arg_o = o_arr L, arg_z = z_arr L, arg_ag = ag_arr L, arg_g = g w,
      arg_compute_Q = compute_Q w,
      arg_noise_eps = (if \<not> exploit w then noise_eps w else 0),
      arg_random_eps =
        (if \<not> random_action then (if \<not> exploit w then random_eps w else 0) else 1),
      arg_use_target_net = use_target_net w,
      arg_exploit = exploit w\<rparr>"

text \<open>
  The body of \<^verbatim>\<open>for i in range(self.rollout_batch_size)\<close> at timestep \<open>t\<close>, in three
  parts. First lines 129 to 141, the bookkeeping after \<^verbatim>\<open>self.envs[i].step(u[i])\<close> has
  returned \<open>(curr_o_new, reward, done, info)\<close>.
\<close>

definition bookkeep ::
  "('e, 'p) worker \<Rightarrow> nat \<Rightarrow> nat \<Rightarrow> npfloat \<Rightarrow> bool \<Rightarrow> info \<Rightarrow> frame \<Rightarrow> frame" where
  "bookkeep w t i reward done nfo L =
     (let L1 = (case is_success nfo of
                  Some s \<Rightarrow> L\<lparr>success := (success L)[i := s]\<rparr>
                | None \<Rightarrow> L);
          L2 = L1\<lparr>cur_reward := (cur_reward L1)[i := reward]\<rparr>;
          L3 = L2\<lparr>cur_done := (cur_done L2)[i := of_flag done]\<rparr>;
          L4 = (if (done \<or> int t = T w - 1) \<and> lengths L3 ! i = - 1
                then (case cur_step nfo of
                        Some c \<Rightarrow> L3\<lparr>lengths := (lengths L3)[i := c]\<rparr>
                      | None \<Rightarrow> L3\<lparr>lengths := (lengths L3)[i := int t + 1]\<rparr>)
                else L3);
          L5 = (if gt_zero (success L4 ! i)
                then L4\<lparr>once_successes := (once_successes L4)[i := 1]\<rparr>
                else L4)
      in if truthy (cur_valid L5 ! i)
         then L5\<lparr>returns := (returns L5)[i := fl_add (returns L5 ! i) reward]\<rparr>
         else L5)"

text \<open>
  Lines 142 to 149: the new observation is stored, with the info channels of a dict. The
  arrays \<^verbatim>\<open>o_new\<close> and \<^verbatim>\<open>ag_new\<close> are float64.
\<close>

definition store_obs ::
  "('e, 'p) worker \<Rightarrow> nat \<Rightarrow> nat \<Rightarrow> env_obs \<Rightarrow> info \<Rightarrow> frame \<Rightarrow> pyerr + frame" where
  "store_obs w t i curr_o_new nfo L =
     (case curr_o_new of
        DictObs observation achieved_goal desired_goal \<Rightarrow>
          then_do (store_row id (o_new L) i observation) (\<lambda>o_new1.
          then_do (store_row id (ag_new L) i achieved_goal) (\<lambda>ag_new1.
          then_do (store_info nfo t i (enumerate 0 (info_keys w)) (info_values L)) (\<lambda>iv.
            Inr (L\<lparr>o_new := o_new1, ag_new := ag_new1, info_values := iv\<rparr>))))
      | ArrayObs observation \<Rightarrow>
          then_do (store_row id (o_new L) i observation) (\<lambda>o_new1.
            Inr (L\<lparr>o_new := o_new1,
                   ag_new := (ag_new L)[i := zeros_like (ag_new L ! i)]\<rparr>)))"

text \<open>
  The whole body: environment \<open>i\<close> is stepped with \<open>u[i]\<close> inside the \<^verbatim>\<open>try\<close> block, and
  a \<^verbatim>\<open>MujocoException\<close> of the step is caught.
\<close>

definition step_env ::
  "('e, 'p) ops \<Rightarrow> nat \<Rightarrow> vec list \<Rightarrow> nat \<Rightarrow> ('e, 'p) worker \<times> frame
   \<Rightarrow> (('e, 'p) worker \<times> frame) outcome" where
  "step_env ops t u i s =
     (case s of (w, L) \<Rightarrow>
      if length (envs w) \<le> i \<or> length u \<le> i then Raised IndexError
      else
       (case env_step ops (envs w ! i) (u ! i) of
          (MujocoException, env1) \<Rightarrow> Fault (w\<lparr>envs := (envs w)[i := env1]\<rparr>, L)
        | (Stepped curr_o_new reward done nfo, env1) \<Rightarrow>
            (case store_obs w t i curr_o_new nfo (bookkeep w t i reward done nfo L) of
               Inl e \<Rightarrow> Raised e
             | Inr L1 \<Rightarrow> Next (w\<lparr>envs := (envs w)[i := env1]\<rparr>, L1))))"

fun env_loop ::
  "('e, 'p) ops \<Rightarrow> nat \<Rightarrow> vec list \<Rightarrow> nat list \<Rightarrow> ('e, 'p) worker \<times> frame
   \<Rightarrow> (('e, 'p) worker \<times> frame) outcome" where
  "env_loop ops t u [] s = Next s"
| "env_loop ops t u (i # rest) s =
     (case step_env ops t u i s of
        Next s1 \<Rightarrow> env_loop ops t u rest s1
      | Fault s1 \<Rightarrow> Fault s1
      | NanSeen s1 \<Rightarrow> NanSeen s1
      | Raised e \<Rightarrow> Raised e)"

text \<open>
  \<^verbatim>\<open>for i in range(len(cur_valid)): if cur_done[i]: cur_valid[i] = 0\<close>
\<close>

fun invalidate :: "npfloat list \<Rightarrow> nat list \<Rightarrow> npfloat list \<Rightarrow> npfloat list" where
  "invalidate cd [] cv = cv"
| "invalidate cd (i # rest) cv =
     invalidate cd rest (if truthy (cd ! i) then cv[i := Fin 0] else cv)"

text \<open>
  The body of \<^verbatim>\<open>for t in range(self.T)\<close>, in three parts. Lines 120 to 124 allocate the
  arrays of the timestep.
\<close>

definition fresh_cells :: "nat \<Rightarrow> nat \<Rightarrow> nat \<Rightarrow> frame \<Rightarrow> frame" where
  "fresh_cells n dim_o dim_g L =
     L\<lparr>o_new := np_empty n dim_o, ag_new := np_empty n dim_g,
       success := np_zeros n, cur_reward := np_zeros n, cur_done := np_zeros n\<rparr>"

text \<open>
  Lines 164 to 178 append copies of the arrays of the timestep, move on to the new
  observation (the float64 arrays \<^verbatim>\<open>o_new\<close> and \<^verbatim>\<open>ag_new\<close> are stored into the float32
  arrays \<^verbatim>\<open>o\<close> and \<^verbatim>\<open>ag\<close>) and clear the validity flag of every environment that
  reported \<^verbatim>\<open>done\<close>.
\<close>

definition end_step :: "vec list \<Rightarrow> vec list \<Rightarrow> frame \<Rightarrow> frame" where
  "end_step u self_g L =
     L\<lparr>obs := obs L @ [o_arr L],
       rewards := rewards L @ [cur_reward L],
       dones := dones L @ [cur_done L],
       valids := valids L @ [cur_valid L],
       zs := zs L @ [z_arr L],
       achieved_goals := achieved_goals L @ [ag_arr L],
       successes := successes L @ [success L],
       acts := acts L @ [u],
       goals := goals L @ [self_g],
       o_arr := map (map float32) (o_new L),
       ag_arr := map (map float32) (ag_new L),
       cur_valid := invalidate (cur_done L) [0..<length (cur_valid L)] (cur_valid L)\<rparr>"

text \<open>
  The whole body: the policy is asked for the actions, every environment is stepped, and
  a NaN in \<^verbatim>\<open>o_new\<close> is logged as a warning.
\<close>

definition rollout_step ::
  "('e, 'p) ops \<Rightarrow> bool \<Rightarrow> nat \<Rightarrow> ('e, 'p) worker \<times> frame
   \<Rightarrow> (('e, 'p) worker \<times> frame) outcome" where
  "rollout_step ops random_action t s =
     (case s of (w, L) \<Rightarrow>
     (case get_actions ops (policy w) (policy_call w random_action L) of
        ((policy_u, policy_Q), p1) \<Rightarrow>
          (let w1 = w\<lparr>policy := p1\<rparr>;
               L1 = (if compute_Q w1 then L\<lparr>Qs := Qs L @ [policy_Q]\<rparr> else L);
               u = (case policy_u of Act1 v \<Rightarrow> [v] | Act2 rows \<Rightarrow> rows)
           in (case lookup (dims w1) ''o'' of
                Inl e \<Rightarrow> Raised e
              | Inr dim_o \<Rightarrow>
           (case lookup (dims w1) ''g'' of
                Inl e \<Rightarrow> Raised e
              | Inr dim_g \<Rightarrow>
             (case env_loop ops t u [0..<rollout_batch_size w1]
                     (w1, fresh_cells (rollout_batch_size w1) dim_o dim_g L1) of
                Next (w2, L2) \<Rightarrow>
                  if isnan_any (o_new L2)
                  then NanSeen
                    (w2\<lparr>logger := logger w2 @
                         [''NaN caught during rollout generation. Trying again...'']\<rparr>, L2)
                  else Next (w2, end_step u (g w2) L2)
              | Fault s1 \<Rightarrow> Fault s1
              | NanSeen s1 \<Rightarrow> NanSeen s1
              | Raised e \<Rightarrow> Raised e))))))"

fun time_loop ::
  "('e, 'p) ops \<Rightarrow> bool \<Rightarrow> nat list \<Rightarrow> ('e, 'p) worker \<times> frame
   \<Rightarrow> (('e, 'p) worker \<times> frame) outcome" where
  "time_loop ops random_action [] s = Next s"
| "time_loop ops random_action (t # rest) s =
     (case rollout_step ops random_action t s of
        Next s1 \<Rightarrow> time_loop ops random_action rest s1
      | Fault s1 \<Rightarrow> Fault s1
      | NanSeen s1 \<Rightarrow> NanSeen s1
      | Raised e \<Rightarrow> Raised e)"

section \<open>rollout.py: generate_rollouts\<close>

text \<open>
  The dict \<^verbatim>\<open>episode\<close>. The fields \<open>ep_o\<close>, \<open>ep_z\<close>, \<open>ep_u\<close>, \<open>ep_g\<close>, \<open>ep_ag\<close>,
  \<open>ep_myr\<close>, \<open>ep_myd\<close>, \<open>ep_myv\<close> are its keys o, z, u, g, ag, myr, myd, myv; \<open>ep_info\<close>
  holds the entries \<^verbatim>\<open>'info_<key>'\<close>.
\<close>

record episode =
  ep_o :: "vec list list"
  ep_z :: "vec list list"
  ep_u :: "vec list list"
  ep_g :: "vec list list"
  ep_ag :: "vec list list"
  ep_myr :: "npfloat list list"
  ep_myd :: "npfloat list list"
  ep_myv :: "npfloat list list"
  ep_info :: "string \<Rightarrow> vec list list option"

text \<open>
  \<^verbatim>\<open>[np.empty((self.T, self.rollout_batch_size, self.dims['info_' + key]), np.float32) for key in self.info_keys]\<close>
\<close>

fun alloc_info ::
  "(string \<times> nat) list \<Rightarrow> nat \<Rightarrow> nat \<Rightarrow> string list \<Rightarrow> pyerr + vec list list list" where
  "alloc_info d horizon n [] = Inr []"
| "alloc_info d horizon n (key # rest) =
     (case lookup d (''info_'' @ key) of
        Inl e \<Rightarrow> Inl e
      | Inr k \<Rightarrow>
          (case alloc_info d horizon n rest of
             Inl e \<Rightarrow> Inl e
           | Inr ivs \<Rightarrow> Inr (replicate horizon (np_empty n k) # ivs)))"

text \<open>
  Lines 80 to 99: the local variables before the loop over the timesteps. The worker is
  the one left by \<^verbatim>\<open>reset_all_rollouts\<close>. \<^verbatim>\<open>o[:] = self.initial_o\<close> copies a float32 array
  into one of the same shape (of the shapes, the number of rows is checked; broadcasting
  is not represented here); \<^verbatim>\<open>z_s_onehot.copy()\<close> needs an array: the default
  \<^verbatim>\<open>False\<close> has no method \<^verbatim>\<open>copy\<close>. The per-timestep arrays are unbound before the
  first timestep and start empty here.
\<close>

definition start_frame :: "('e, 'p) worker \<Rightarrow> vec list pyarg \<Rightarrow> pyerr + frame" where
  "start_frame w z_s_onehot =
     then_do (lookup (dims w) ''o'') (\<lambda>dim_o.
     then_do (lookup (dims w) ''g'') (\<lambda>dim_g.
       if length (initial_o w) \<noteq> rollout_batch_size w
          \<or> length (initial_ag w) \<noteq> rollout_batch_size w
       then Inl ValueError
       else
         (case z_s_onehot of
            PyFalse \<Rightarrow> Inl AttributeError
          | NdArray z_rows \<Rightarrow>
              then_do
                (alloc_info (dims w) (nat (T w)) (rollout_batch_size w) (info_keys w))
                (\<lambda>iv.
                  Inr \<lparr>o_arr = initial_o w, ag_arr = initial_ag w, z_arr = z_rows,
                       obs = [], zs = [], achieved_goals = [], acts = [], goals = [],
                       successes = [], rewards = [], dones = [], valids = [],
                       info_values = iv, Qs = [],
                       cur_valid = np_ones (rollout_batch_size w),
                       lengths = replicate (rollout_batch_size w) (- 1),
                       once_successes = replicate (rollout_batch_size w) 0,
                       returns = np_zeros (rollout_batch_size w),
                       o_new = [], ag_new = [], success = [], cur_reward = [],
                       cur_done = []\<rparr>))))"

text \<open>
  \<^verbatim>\<open>for key, value in zip(self.info_keys, info_values): episode['info_{}'.format(key)] = value\<close>
\<close>

fun add_info ::
  "(string \<times> vec list list) list \<Rightarrow> (string \<Rightarrow> vec list list option)
   \<Rightarrow> (string \<Rightarrow> vec list list option)" where
  "add_info [] m = m"
| "add_info ((key, v) # rest) m = add_info rest (m(''info_'' @ key \<mapsto> v))"

text \<open>
  Lines 182 to 211: the code after the loop, up to the statistics. The episode is still
  time-major here.
\<close>

definition finish ::
  "('e, 'p) worker \<Rightarrow> frame \<Rightarrow> pyerr + (episode \<times> ('e, 'p) worker)" where
  "finish w L =
     (let obs1 = obs L @ [o_arr L];
          achieved_goals1 = achieved_goals L @ [ag_arr L];
          w1 = w\<lparr>initial_o := o_arr L\<rparr>
      in if successes L = [] then Inl IndexError
         else
           (let successful = last (successes L);
                ep = \<lparr>ep_o = obs1, ep_z = zs L, ep_u = acts L, ep_g = goals L,
                      ep_ag = achieved_goals1, ep_myr = rewards L, ep_myd = dones L,
                      ep_myv = valids L,
                      ep_info = add_info (zip (info_keys w1) (info_values L)) Map.empty\<rparr>
            in if length successful \<noteq> rollout_batch_size w1 then Inl AssertionError
               else
                 (let w2 = w1\<lparr>success_history :=
                              deque_append (history_len w1) (np_mean successful)
                                (success_history w1)\<rparr>;
                      w3 = w2\<lparr>once_success_history :=
                              deque_append (history_len w2)
                                (np_mean (map (\<lambda>k. Fin (real_of_int k)) (once_successes L)))
                                (once_success_history w2)\<rparr>;
                      w4 = w3\<lparr>return_history :=
                              deque_append (history_len w3) (np_mean (returns L))
                                (return_history w3)\<rparr>;
                      w5 = w4\<lparr>episode_length_history :=
                              deque_append (history_len w4)
                                (np_mean (map (\<lambda>k. Fin (real_of_int k)) (lengths L)))
                                (episode_length_history w4)\<rparr>;
                      w6 = (if compute_Q w5
                            then w5\<lparr>Q_history :=
                                   deque_append (history_len w5) (np_mean (concat (Qs L)))
                                     (Q_history w5)\<rparr>
                            else w5);
                      w7 = w6\<lparr>n_episodes := n_episodes w6 + int (rollout_batch_size w6)\<rparr>
                  in Inr (ep, w7))))"

text \<open>
  \<^verbatim>\<open>generate_rollouts\<close> up to its last statement: the result is the time-major
  \<^verbatim>\<open>episode\<close> and the worker. Both restarts are the source's
  \<^verbatim>\<open>return self.generate_rollouts()\<close>: the call passes no argument, so the three
  parameters take their defaults \<^verbatim>\<open>False\<close>. The restart returns what the inner call
  returns, which is why the conversion to batch-major can be applied once, outside
  (\<open>generate_rollouts\<close> below).
\<close>

function generate_rollouts_episode ::
  "('e, 'p) ops \<Rightarrow> vec list pyarg \<Rightarrow> vec list pyarg \<Rightarrow> bool \<Rightarrow> ('e, 'p) worker
   \<Rightarrow> pyerr + (episode \<times> ('e, 'p) worker)" where
  "generate_rollouts_episode ops generated_goal z_s_onehot random_action w =
     (case reset_all_rollouts ops generated_goal w of
        Inl e \<Rightarrow> Inl e
      | Inr w1 \<Rightarrow>
          (case start_frame w1 z_s_onehot of
             Inl e \<Rightarrow> Inl e
           | Inr L0 \<Rightarrow>
               (case time_loop ops random_action [0..<nat (T w1)] (w1, L0) of
                  Next (w2, L) \<Rightarrow> finish w2 L
                | Fault (w2, L) \<Rightarrow> generate_rollouts_episode ops PyFalse PyFalse False w2
                | NanSeen (w2, L) \<Rightarrow>
                    (case reset_all_rollouts ops PyFalse w2 of
                       Inl e \<Rightarrow> Inl e
                     | Inr w3 \<Rightarrow> generate_rollouts_episode ops PyFalse PyFalse False w3)
                | Raised e \<Rightarrow> Inl e)))"
  by pat_completeness auto

lemma then_do_Inr:
  "then_do m f = Inr y \<longleftrightarrow> (\<exists>a. m = Inr a \<and> f a = Inr y)"
  by (cases m) (simp_all add: then_do_def)

lemma start_frame_needs_array: "start_frame w z_s_onehot = Inr L \<Longrightarrow> z_s_onehot \<noteq> PyFalse"
  by (auto simp: start_frame_def then_do_Inr split: if_splits)

termination generate_rollouts_episode
proof (relation "measure (\<lambda>(ops, generated_goal, z_s_onehot, random_action, w).
                   if z_s_onehot = PyFalse then 0 else 1)")
qed (auto dest: start_frame_needs_array)

declare generate_rollouts_episode.simps [simp del]

section \<open>The episode assembler\<close>

text \<open>
  Modelled from the spec: \<^verbatim>\<open>convert_episode_to_batch_major\<close> of \<^verbatim>\<open>baselines/her/util.py\<close>,
  which is not among the sources. The spec gives it as a pure reshape that transposes
  every field from shape \<open>[T(+1), batch, ...]\<close> to \<open>[batch, T(+1), ...]\<close>, keeping the
  field names, with \<open>convert(time_major)[b][t] = time_major[t][b]\<close>. The batch dimension
  of a field is read off its first row.
\<close>

definition swapaxes :: "'a list list \<Rightarrow> 'a list list" where
  "swapaxes rows =
     (case rows of
        [] \<Rightarrow> []
      | r # _ \<Rightarrow> map (\<lambda>b. map (\<lambda>row. row ! b) rows) [0..<length r])"

definition convert_episode_to_batch_major :: "episode \<Rightarrow> episode" where
  "convert_episode_to_batch_major ep =
     \<lparr>ep_o = swapaxes (ep_o ep), ep_z = swapaxes (ep_z ep), ep_u = swapaxes (ep_u ep),
      ep_g = swapaxes (ep_g ep), ep_ag = swapaxes (ep_ag ep),
      ep_myr = swapaxes (ep_myr ep), ep_myd = swapaxes (ep_myd ep),
      ep_myv = swapaxes (ep_myv ep),
      ep_info = (\<lambda>key. map_option swapaxes (ep_info ep key))\<rparr>"

text \<open>\<^verbatim>\<open>generate_rollouts\<close>: the value returned is the converted episode.\<close>

definition generate_rollouts ::
  "('e, 'p) ops \<Rightarrow> vec list pyarg \<Rightarrow> vec list pyarg \<Rightarrow> bool \<Rightarrow> ('e, 'p) worker
   \<Rightarrow> pyerr + (episode \<times> ('e, 'p) worker)" where
  "generate_rollouts ops generated_goal z_s_onehot random_action w =
     (case generate_rollouts_episode ops generated_goal z_s_onehot random_action w of
        Inl e \<Rightarrow> Inl e
      | Inr (ep, w1) \<Rightarrow> Inr (convert_episode_to_batch_major ep, w1))"

section \<open>rollout.py: construction, statistics and logs\<close>

definition clear_history :: "('e, 'p) worker \<Rightarrow> ('e, 'p) worker" where
  "clear_history w =
     w\<lparr>success_history := [], Q_history := [], episode_length_history := [],
       once_success_history := [], return_history := []\<rparr>"

definition startswith :: "string \<Rightarrow> string \<Rightarrow> bool" where
  "startswith s pre = (take (length pre) s = pre)"

definition endswith :: "string \<Rightarrow> string \<Rightarrow> bool" where
  "endswith s suf = (length suf \<le> length s \<and> drop (length s - length suf) s = suf)"

text \<open>\<^verbatim>\<open>s.replace(old, '')\<close> for a non-empty \<open>old\<close>: every occurrence goes, left to right.\<close>

function remove_all :: "string \<Rightarrow> string \<Rightarrow> string" where
  "remove_all old s =
     (if s = [] \<or> old = [] then s
      else if take (length old) s = old then remove_all old (drop (length old) s)
      else hd s # remove_all old (tl s))"
  by pat_completeness auto
termination remove_all
  by (relation "measure (\<lambda>(old, s). length s)") auto

declare remove_all.simps [simp del]

text \<open>
  \<^verbatim>\<open>__init__\<close>. The decorator \<^verbatim>\<open>store_args\<close> binds the arguments to fields of the same
  name. \<open>make_env k\<close> is what the \<open>k\<close>-th call of the factory returns.
\<close>

definition rollout_worker_init ::
  "('e, 'p) ops \<Rightarrow> (nat \<Rightarrow> 'e) \<Rightarrow> 'p \<Rightarrow> (string \<times> nat) list \<Rightarrow> string list \<Rightarrow> int \<Rightarrow> nat
   \<Rightarrow> bool \<Rightarrow> bool \<Rightarrow> bool \<Rightarrow> real \<Rightarrow> real \<Rightarrow> nat \<Rightarrow> pyerr + ('e, 'p) worker" where
  "rollout_worker_init ops make_env pol dms lg horizon batch expl target cq noise rnd hist =
     (let made = map make_env [0..<batch]
      in if \<not> 0 < horizon then Inl AssertionError
         else
           (let keys = map (remove_all ''info_'')
                         (filter (\<lambda>key. startswith key ''info_'') (map fst dms))
            in then_do (lookup dms ''g'') (\<lambda>dim_g.
               then_do (lookup dms ''o'') (\<lambda>dim_o.
               then_do
                 (reset_all_rollouts ops PyFalse
                    \<lparr>envs = made, policy = pol, dims = dms, logger = lg, T = horizon,
                     rollout_batch_size = batch, exploit = expl, use_target_net = target,
                     compute_Q = cq, noise_eps = noise, random_eps = rnd,
                     history_len = hist, info_keys = keys,
                     success_history = [], Q_history = [], episode_length_history = [],
                     once_success_history = [], return_history = [], n_episodes = 0,
                     g = np_empty batch dim_g, initial_o = np_empty batch dim_o,
                     initial_ag = np_empty batch dim_g\<rparr>)
                 (\<lambda>w. Inr (clear_history w))))))"

definition current_success_rate :: "('e, 'p) worker \<Rightarrow> npfloat" where
  "current_success_rate w = np_mean (success_history w)"

definition current_mean_Q :: "('e, 'p) worker \<Rightarrow> npfloat" where
  "current_mean_Q w = np_mean (Q_history w)"

datatype logval = IntVal int | FloatVal npfloat

text \<open>
  \<^verbatim>\<open>logs(prefix)\<close>. The test \<^verbatim>\<open>prefix is not ''\<close> compares identities; CPython keeps one
  empty string, so it is the test that \<open>prefix\<close> is not empty.
\<close>

definition logs :: "string \<Rightarrow> ('e, 'p) worker \<Rightarrow> (string \<times> logval) list" where
  "logs prefix w =
     (let logs0 = [(''num_trajs'', IntVal (int (length (success_history w) * rollout_batch_size w)))];
          logs1 = logs0 @ [(''success_rate'', FloatVal (np_mean (success_history w)))];
          logs2 = logs1 @ [(''once_success_rate'', FloatVal (np_mean (once_success_history w)))];
          logs3 = logs2 @ [(''return'', FloatVal (np_mean (return_history w)))];
          logs4 = logs3 @ [(''episode_length'', FloatVal (np_mean (episode_length_history w)))];
          logs5 = (if compute_Q w
                   then logs4 @ [(''mean_Q'', FloatVal (np_mean (Q_history w)))]
                   else logs4);
          logs6 = logs5 @ [(''episode'', IntVal (n_episodes w))]
      in if prefix \<noteq> [] \<and> \<not> endswith prefix ''/''
         then map (\<lambda>(key, val). (prefix @ ''/'' @ key, val)) logs6
         else logs6)"

section \<open>config.py: the environment cache and prepare_params\<close>

text \<open>
  The module keeps the global dict \<^verbatim>\<open>CACHED_ENVS\<close>, keyed by factory function objects
  (type \<open>'f\<close>); its values are environment objects (references, type \<open>'env\<close>). The rest
  of the process state that a factory or an environment can read and change is the
  abstract \<open>heap\<close>. \<open>invoked\<close> is the trace of the factory calls made so far; the source
  has no such variable, it is kept to state how often a factory runs.
\<close>

record ('f, 'env, 'h) process =
  CACHED_ENVS :: "'f \<Rightarrow> 'env option"
  heap :: 'h
  invoked :: "'f list"

text \<open>
  What lies outside the repository: calling a factory (it may raise), reading the
  attribute \<^verbatim>\<open>_max_episode_steps\<close> of an environment (\<open>None\<close> when \<^verbatim>\<open>hasattr\<close> is false), and
  \<^verbatim>\<open>env.reset()\<close>.
\<close>

record ('f, 'env, 'h) config_ops =
  call_factory :: "'f \<Rightarrow> 'h \<Rightarrow> (pyerr + 'env) \<times> 'h"
  max_episode_steps :: "'env \<Rightarrow> 'h \<Rightarrow> int option"
  reset_env :: "'env \<Rightarrow> 'h \<Rightarrow> 'h"

definition cached_make_env ::
  "('f, 'env, 'h) config_ops \<Rightarrow> 'f \<Rightarrow> ('f, 'env, 'h) process
   \<Rightarrow> (pyerr + 'env) \<times> ('f, 'env, 'h) process" where
  "cached_make_env cops make_env pr =
     (if CACHED_ENVS pr make_env = None
      then
        (case call_factory cops make_env (heap pr) of
           (Inl e, h) \<Rightarrow> (Inl e, pr\<lparr>heap := h, invoked := invoked pr @ [make_env]\<rparr>)
         | (Inr env, h) \<Rightarrow>
             (let pr1 = pr\<lparr>heap := h, invoked := invoked pr @ [make_env],
                           CACHED_ENVS := (CACHED_ENVS pr)(make_env \<mapsto> env)\<rparr>
              in case CACHED_ENVS pr1 make_env of
                   None \<Rightarrow> (Inl KeyError, pr1)
                 | Some cached \<Rightarrow> (Inr cached, pr1)))
      else
        (case CACHED_ENVS pr make_env of
           None \<Rightarrow> (Inl KeyError, pr)
         | Some cached \<Rightarrow> (Inr cached, pr)))"

text \<open>
  What a process does to the cache, in the order in which it happens: the calls of
  \<^verbatim>\<open>cached_make_env\<close> (the entry points \<^verbatim>\<open>prepare_params\<close>, \<^verbatim>\<open>configure_her\<close>,
  \<^verbatim>\<open>configure_ddpg\<close> and \<^verbatim>\<open>configure_dims\<close> reach \<^verbatim>\<open>CACHED_ENVS\<close> only through it), and
  everything else (\<^verbatim>\<open>env.reset()\<close>, \<^verbatim>\<open>env.step\<close>, building the agent), which changes the
  heap. A call of \<^verbatim>\<open>cached_make_env\<close> that raises leaves the state it had reached, and
  the process goes on from there, as it does when a caller catches the exception.
\<close>

datatype ('f, 'h) action = CallCached 'f | Other "'h \<Rightarrow> 'h"

fun run ::
  "('f, 'env, 'h) config_ops \<Rightarrow> ('f, 'h) action list \<Rightarrow> ('f, 'env, 'h) process
   \<Rightarrow> ('f, 'env, 'h) process" where
  "run cops [] pr = pr"
| "run cops (CallCached f # rest) pr = run cops rest (snd (cached_make_env cops f pr))"
| "run cops (Other change # rest) pr = run cops rest (pr\<lparr>heap := change (heap pr)\<rparr>)"

text \<open>The values of the parameter dict \<^verbatim>\<open>kwargs\<close>.\<close>

datatype 'f pyval =
  PyInt int | PyFloat real | PyStr string | PyBool bool | PyNone
  | PyList "'f pyval list" | PyArray "'f pyval list" | PyFun 'f
  | PyDict "(string \<times> 'f pyval) list"

text \<open>
  \<^verbatim>\<open>for name in [...]: ddpg_params[name] = kwargs[name]; kwargs['_' + name] = kwargs[name]; del kwargs[name]\<close>
\<close>

fun move_params ::
  "string list \<Rightarrow> (string \<Rightarrow> 'f pyval option) \<Rightarrow> (string \<times> 'f pyval) list
   \<Rightarrow> pyerr + ((string \<Rightarrow> 'f pyval option) \<times> (string \<times> 'f pyval) list)" where
  "move_params [] kwargs ddpg_params = Inr (kwargs, ddpg_params)"
| "move_params (name # rest) kwargs ddpg_params =
     (case kwargs name of
        None \<Rightarrow> Inl KeyError
      | Some v \<Rightarrow>
          move_params rest ((kwargs(''_'' @ name \<mapsto> v))(name := None))
            (ddpg_params @ [(name, v)]))"

definition ddpg_names :: "string list" where
  "ddpg_names =
     [''buffer_size'', ''hidden'', ''layers'',
      ''network_class_actor_critic'', ''network_class_discriminator'',
      ''polyak'',
      ''batch_size'', ''Q_lr'', ''pi_lr'', ''sk_lr'',
      ''norm_eps'', ''norm_clip'', ''max_u'',
      ''action_l2'', ''clip_obs'', ''scope'', ''relative_goals'']"

text \<open>
  \<^verbatim>\<open>prepare_params(kwargs)\<close>. The argument \<open>make_env\<close> is the function object that the
  inner \<^verbatim>\<open>def make_env()\<close> creates; what calling it does is \<open>call_factory\<close>.
\<close>

definition prepare_params ::
  "('f, 'env, 'h) config_ops \<Rightarrow> 'f \<Rightarrow> (string \<Rightarrow> 'f pyval option) \<Rightarrow> ('f, 'env, 'h) process
   \<Rightarrow> (pyerr + (string \<Rightarrow> 'f pyval option)) \<times> ('f, 'env, 'h) process" where
  "prepare_params cops make_env kwargs pr =
     (case kwargs ''env_name'' of
        None \<Rightarrow> (Inl KeyError, pr)
      | Some env_name \<Rightarrow>
          (let kwargs1 = kwargs(''make_env'' \<mapsto> PyFun make_env)
           in case cached_make_env cops make_env pr of
                (Inl e, pr1) \<Rightarrow> (Inl e, pr1)
              | (Inr tmp_env, pr1) \<Rightarrow>
                  (case max_episode_steps cops tmp_env (heap pr1) of
                     None \<Rightarrow> (Inl AssertionError, pr1)
                   | Some steps \<Rightarrow>
                       (let kwargs2 = kwargs1(''T'' \<mapsto> PyInt steps);
                            pr2 = pr1\<lparr>heap := reset_env cops tmp_env (heap pr1)\<rparr>
                        in case kwargs2 ''max_u'' of
                             None \<Rightarrow> (Inl KeyError, pr2)
                           | Some max_u \<Rightarrow>
                               (let kwargs3 = kwargs2(''max_u'' \<mapsto>
                                      (case max_u of PyList xs \<Rightarrow> PyArray xs | _ \<Rightarrow> max_u))
                                in if steps = 0 then (Inl ZeroDivisionError, pr2)
                                   else
                                     (let kwargs4 = kwargs3(''gamma'' \<mapsto>
                                            PyFloat (1 - 1 / real_of_int steps));
                                          kwargs5 =
                                            (case kwargs4 ''lr'' of
                                               Some lr \<Rightarrow>
                                                 (kwargs4(''pi_lr'' \<mapsto> lr, ''Q_lr'' \<mapsto> lr,
                                                    ''sk_lr'' \<mapsto> lr))(''lr'' := None)
                                             | None \<Rightarrow> kwargs4)
                                      in case move_params ddpg_names kwargs5 [] of
                                           Inl e \<Rightarrow> (Inl e, pr2)
                                         | Inr (kwargs6, ddpg_params) \<Rightarrow>
                                             (Inr (kwargs6(''ddpg_params'' \<mapsto> PyDict ddpg_params)),
                                              pr2)))))))"

section \<open>Concrete collaborators for the examples\<close>

text \<open>
  A small goal-conditioned environment. Its state is its number and the steps taken since
  the last reset. Every step gives reward 1 and the step count as observation and achieved
  goal; environment 0 reports \<^verbatim>\<open>done\<close> from its first step on, the others from their
  third. The policy returns one zero action per observation row and the Q estimate 0.5.
\<close>

definition demo_info :: info where
  "demo_info = \<lparr>is_success = Some (Fin 1), cur_step = None, info_item = (\<lambda>key. None)\<rparr>"

definition demo_step :: "nat \<times> nat \<Rightarrow> vec \<Rightarrow> step_result \<times> (nat \<times> nat)" where
  "demo_step e a =
     (case e of (k, steps) \<Rightarrow>
        (Stepped (DictObs [Fin (real (Suc steps))] [Fin (real (Suc steps))] [Fin 5]) (Fin 1)
           (k = 0 \<or> 3 \<le> Suc steps) demo_info,
         (k, Suc steps)))"

definition demo_actions :: "unit \<Rightarrow> policy_args \<Rightarrow> (action_batch \<times> vec) \<times> unit" where
  "demo_actions p a = ((Act2 (map (\<lambda>row. [Fin 0]) (arg_o a)), [Fin (1 / 2)]), p)"

definition demo_ops :: "(nat \<times> nat, unit) ops" where
  "demo_ops =
     \<lparr>env_reset = (\<lambda>e. (DictObs [Fin 0] [Fin 0] [Fin 5], (fst e, 0))),
      env_step = demo_step,
      env_set_goal = (\<lambda>e goal. e),
      get_actions = demo_actions\<rparr>"

text \<open>The same environment, except that number 1 raises a simulator fault at its second step.\<close>

definition faulty_ops :: "(nat \<times> nat, unit) ops" where
  "faulty_ops =
     demo_ops\<lparr>env_step := (\<lambda>e a. if e = (1, 1) then (MujocoException, e) else demo_step e a)\<rparr>"

text \<open>A worker with two environments and horizon 3, as \<^verbatim>\<open>__init__\<close> leaves it.\<close>

definition demo_worker :: "(nat \<times> nat, unit) worker" where
  "demo_worker =
     \<lparr>envs = [(0, 0), (1, 0)], policy = (), dims = [(''o'', 1), (''g'', 1), (''u'', 1)],
      logger = [], T = 3, rollout_batch_size = 2, exploit = False, use_target_net = False,
      compute_Q = True, noise_eps = 1 / 5, random_eps = 3 / 10, history_len = 100,
      info_keys = [], success_history = [], Q_history = [], episode_length_history = [],
      once_success_history = [], return_history = [], n_episodes = 0,
      g = [[Fin 5], [Fin 5]], initial_o = [[Fin 0], [Fin 0]],
      initial_ag = [[Fin 0], [Fin 0]]\<rparr>"

definition demo_goal :: "vec list pyarg" where
  "demo_goal = NdArray [[Fin 7], [Fin 8]]"

definition demo_skill :: "vec list pyarg" where
  "demo_skill = NdArray [[Fin 1, Fin 0], [Fin 0, Fin 1]]"

text \<open>
  What the rollout of the example returns: the time-major episode (environment 0 is
  invalid from the second timestep on) and the worker afterwards.
\<close>

definition demo_episode :: episode where
  "demo_episode =
     \<lparr>ep_o = [[[Fin 0], [Fin 0]], [[Fin 1], [Fin 1]], [[Fin 2], [Fin 2]], [[Fin 3], [Fin 3]]],
      ep_z = [[[Fin 1, Fin 0], [Fin 0, Fin 1]], [[Fin 1, Fin 0], [Fin 0, Fin 1]],
              [[Fin 1, Fin 0], [Fin 0, Fin 1]]],
      ep_u = [[[Fin 0], [Fin 0]], [[Fin 0], [Fin 0]], [[Fin 0], [Fin 0]]],
      ep_g = [[[Fin 7], [Fin 8]], [[Fin 7], [Fin 8]], [[Fin 7], [Fin 8]]],
      ep_ag = [[[Fin 0], [Fin 0]], [[Fin 1], [Fin 1]], [[Fin 2], [Fin 2]], [[Fin 3], [Fin 3]]],
      ep_myr = [[Fin 1, Fin 1], [Fin 1, Fin 1], [Fin 1, Fin 1]],
      ep_myd = [[Fin 1, Fin 0], [Fin 1, Fin 0], [Fin 1, Fin 1]],
      ep_myv = [[Fin 1, Fin 1], [Fin 0, Fin 1], [Fin 0, Fin 1]],
      ep_info = Map.empty\<rparr>"

definition demo_after :: "(nat \<times> nat, unit) worker" where
  "demo_after =
     demo_worker\<lparr>envs := [(0, 3), (1, 3)], success_history := [Fin 1],
       Q_history := [Fin (1 / 2)], episode_length_history := [Fin 2],
       once_success_history := [Fin 1], return_history := [Fin 2], n_episodes := 2,
       g := [[Fin 7], [Fin 8]], initial_o := [[Fin 3], [Fin 3]]\<rparr>"

text \<open>
  The same environment again, except that number 1 returns a NaN observation at its second
  step.
\<close>

definition nan_ops :: "(nat \<times> nat, unit) ops" where
  "nan_ops =
     demo_ops\<lparr>env_step := (\<lambda>e a.
        if e = (1, 1)
        then (Stepped (DictObs [NaN] [Fin 2] [Fin 5]) (Fin 1) False demo_info, (1, 2))
        else demo_step e a)\<rparr>"

text \<open>
  Collaborators for the examples of the configuration module. A factory is a number; calling
  it counts the heap up and returns a new environment, except factory 0, which raises.
  Environment 7 has no \<^verbatim>\<open>_max_episode_steps\<close>; every other one has the value 50.
\<close>

definition demo_config_ops :: "(nat, nat, nat) config_ops" where
  "demo_config_ops =
     \<lparr>call_factory = (\<lambda>f h. if f = 0 then (Inl FactoryError, h) else (Inr (f + h), h + 1)),
      max_episode_steps = (\<lambda>env h. if env = 7 then None else Some 50),
      reset_env = (\<lambda>env h. h)\<rparr>"

definition fresh_process :: "(nat, nat, nat) process" where
  "fresh_process = \<lparr>CACHED_ENVS = Map.empty, heap = 0, invoked = []\<rparr>"

definition demo_kwargs :: "string \<Rightarrow> nat pyval option" where
  "demo_kwargs =
     map_of
       [(''env_name'', PyStr ''FetchReach-v0''), (''max_u'', PyFloat 1),
        (''buffer_size'', PyInt 1000000), (''hidden'', PyInt 256), (''layers'', PyInt 3),
        (''network_class_actor_critic'', PyStr ''baselines.her.actor_critic:ActorCritic''),
        (''network_class_discriminator'', PyStr ''baselines.her.discriminator:Discriminator''),
        (''polyak'', PyFloat (95 / 100)), (''batch_size'', PyInt 256),
        (''Q_lr'', PyFloat (1 / 1000)), (''pi_lr'', PyFloat (1 / 1000)),
        (''sk_lr'', PyFloat (1 / 1000)), (''norm_eps'', PyFloat (1 / 100)),
        (''norm_clip'', PyInt 5), (''action_l2'', PyFloat 1), (''clip_obs'', PyFloat 200),
        (''scope'', PyStr ''ddpg''), (''relative_goals'', PyBool False)]"

text \<open>
  The worker of the example with a recording policy, and the same with \<^verbatim>\<open>exploit\<close> set.
\<close>

definition recording_worker :: "(nat \<times> nat, unit \<times> policy_args list) worker" where
  "recording_worker =
     \<lparr>envs = [(0, 0), (1, 0)], policy = ((), []), dims = [(''o'', 1), (''g'', 1), (''u'', 1)],
      logger = [], T = 3, rollout_batch_size = 2, exploit = False, use_target_net = False,
      compute_Q = True, noise_eps = 1 / 5, random_eps = 3 / 10, history_len = 100,
      info_keys = [], success_history = [], Q_history = [], episode_length_history = [],
      once_success_history = [], return_history = [], n_episodes = 0,
      g = [[Fin 5], [Fin 5]], initial_o = [[Fin 0], [Fin 0]],
      initial_ag = [[Fin 0], [Fin 0]]\<rparr>"

definition exploiting_worker :: "(nat \<times> nat, unit \<times> policy_args list) worker" where
  "exploiting_worker = recording_worker\<lparr>exploit := True\<rparr>"

section \<open>What the loops leave unchanged\<close>

text \<open>
  The statistics of a worker, its configuration, and the local buffers that only the end
  of a timestep writes (not the loop over the environments).
\<close>

definition stats ::
  "('e, 'p) worker
   \<Rightarrow> npfloat list \<times> npfloat list \<times> npfloat list \<times> npfloat list \<times> npfloat list \<times> int" where
  "stats w =
     (success_history w, Q_history w, episode_length_history w, once_success_history w,
      return_history w, n_episodes w)"

definition config ::
  "('e, 'p) worker
   \<Rightarrow> (string \<times> nat) list \<times> int \<times> nat \<times> bool \<times> bool \<times> bool \<times> real \<times> real \<times> nat
      \<times> string list" where
  "config w =
     (dims w, T w, rollout_batch_size w, exploit w, use_target_net w, compute_Q w,
      noise_eps w, random_eps w, history_len w, info_keys w)"

definition bufs ::
  "frame \<Rightarrow> (vec list \<times> vec list \<times> vec list)
     \<times> (vec list list \<times> vec list list \<times> vec list list \<times> vec list list \<times> vec list list)
     \<times> (npfloat list list \<times> npfloat list list \<times> npfloat list list \<times> npfloat list list)
     \<times> npfloat list" where
  "bufs L =
     ((o_arr L, ag_arr L, z_arr L),
      (obs L, zs L, achieved_goals L, acts L, goals L),
      (successes L, rewards L, dones L, valids L),
      cur_valid L)"

text \<open>The arrays of length \<open>n\<close> (one cell per environment) that the inner loop writes.\<close>

definition cells :: "nat \<Rightarrow> frame \<Rightarrow> bool" where
  "cells n L =
     (length (o_new L) = n \<and> length (ag_new L) = n \<and> length (success L) = n
      \<and> length (cur_reward L) = n \<and> length (cur_done L) = n \<and> length (returns L) = n
      \<and> length (lengths L) = n \<and> length (once_successes L) = n)"

text \<open>The info buffers: one array of shape \<open>[horizon, n, ...]\<close> per info key.\<close>

definition info_shape :: "nat \<Rightarrow> nat \<Rightarrow> vec list list list \<Rightarrow> bool" where
  "info_shape horizon n iv =
     list_all (\<lambda>a. length a = horizon \<and> list_all (\<lambda>row. length row = n) a) iv"

text \<open>
  The return of environment \<open>i\<close> as the claim about it reads: the rewards \<open>myr[t][i]\<close>
  of the timesteps \<open>t\<close> whose validity flag \<open>myv[t][i]\<close> is true, added up in the order of
  the timesteps.
\<close>

definition masked_return :: "npfloat list list \<Rightarrow> npfloat list list \<Rightarrow> nat \<Rightarrow> npfloat" where
  "masked_return myr myv i =
     foldl fl_add (Fin 0)
       (map (\<lambda>t. myr ! t ! i) (filter (\<lambda>t. truthy (myv ! t ! i)) [0..<length myr]))"

text \<open>The number of rows of an action batch after \<^verbatim>\<open>u.reshape(1, -1)\<close> of a 1-D batch.\<close>

definition action_rows :: "action_batch \<Rightarrow> vec list" where
  "action_rows policy_u = (case policy_u of Act1 v \<Rightarrow> [v] | Act2 rows \<Rightarrow> rows)"

text \<open>An environment step or reset that yields a dict observation.\<close>

definition is_dict :: "env_obs \<Rightarrow> bool" where
  "is_dict ob = (case ob of DictObs observation achieved_goal desired_goal \<Rightarrow> True | ArrayObs observation \<Rightarrow> False)"

text \<open>All rows of a two-dimensional buffer have length \<open>n\<close>.\<close>

definition rows_of_len :: "nat \<Rightarrow> 'a list list \<Rightarrow> bool" where
  "rows_of_len n rows = list_all (\<lambda>row. length row = n) rows"

text \<open>
  The shape of the local buffers after \<open>k\<close> completed timesteps with \<open>n\<close> environments.
\<close>

definition shaped :: "nat \<Rightarrow> nat \<Rightarrow> frame \<Rightarrow> bool" where
  "shaped n k L =
     (length (o_arr L) = n \<and> length (ag_arr L) = n \<and> length (cur_valid L) = n
      \<and> length (returns L) = n \<and> length (lengths L) = n \<and> length (once_successes L) = n
      \<and> length (obs L) = k \<and> rows_of_len n (obs L)
      \<and> length (achieved_goals L) = k \<and> rows_of_len n (achieved_goals L)
      \<and> length (successes L) = k \<and> rows_of_len n (successes L)
      \<and> length (rewards L) = k \<and> rows_of_len n (rewards L)
      \<and> length (dones L) = k \<and> rows_of_len n (dones L)
      \<and> length (valids L) = k \<and> rows_of_len n (valids L)
      \<and> length (zs L) = k \<and> length (acts L) = k \<and> length (goals L) = k)"

text \<open>
  The validity flags recorded so far (\<open>vs\<close>, one row per timestep) and the live flags
  (\<open>cv\<close>): every flag is 0 or 1, and a flag that is 0 at some timestep is 0 at every
  later one and in the live array.
\<close>

definition mask_ok :: "nat \<Rightarrow> npfloat list list \<Rightarrow> npfloat list \<Rightarrow> bool" where
  "mask_ok n vs cv =
     (\<forall>i<n. (cv ! i = Fin 0 \<or> cv ! i = Fin 1)
        \<and> (\<forall>t<length vs.
              (vs ! t ! i = Fin 0 \<or> vs ! t ! i = Fin 1)
              \<and> (vs ! t ! i = Fin 0 \<longrightarrow> cv ! i = Fin 0)
              \<and> (\<forall>t'. t \<le> t' \<and> t' < length vs \<longrightarrow> vs ! t ! i = Fin 0 \<longrightarrow> vs ! t' ! i = Fin 0)))"

text \<open>
  The invariant of the loop over the timesteps after \<open>k\<close> completed timesteps, for a
  rollout that started from the worker \<open>w0\<close> (as the reset left it) with the skills \<open>z0\<close>
  and info buffers of \<open>horizon\<close> rows.
\<close>

definition loop_inv ::
  "('e, 'p) worker \<Rightarrow> vec list \<Rightarrow> nat \<Rightarrow> nat \<Rightarrow> ('e, 'p) worker \<times> frame \<Rightarrow> bool" where
  "loop_inv w0 z0 horizon k s =
     (case s of (w, L) \<Rightarrow>
        config w = config w0 \<and> stats w = stats w0 \<and> logger w = logger w0 \<and> g w = g w0
        \<and> initial_ag w = initial_ag w0 \<and> length (envs w) = length (envs w0)
        \<and> shaped (rollout_batch_size w0) k L
        \<and> info_shape horizon (rollout_batch_size w0) (info_values L)
        \<and> z_arr L = z0 \<and> zs L = replicate k z0 \<and> goals L = replicate k (g w0)
        \<and> (\<forall>i<rollout_batch_size w0.
              returns L ! i = masked_return (rewards L) (valids L) i)
        \<and> mask_ok (rollout_batch_size w0) (valids L) (cur_valid L))"

text \<open>
  A policy that keeps a record of its calls: beside the state of the policy it wraps, its
  state holds the arguments of every call of \<open>get_actions\<close> so far, oldest first. The
  source has no such record; it is how a statement about the arguments of the calls made
  during a rollout is put.
\<close>

definition recording :: "('e, 'p) ops \<Rightarrow> ('e, 'p \<times> policy_args list) ops" where
  "recording ops =
     \<lparr>env_reset = env_reset ops, env_step = env_step ops, env_set_goal = env_set_goal ops,
      get_actions = (\<lambda>s a. case s of (p, calls) \<Rightarrow>
                       (case get_actions ops p a of (out, p1) \<Rightarrow> (out, (p1, calls @ [a]))))\<rparr>"

text \<open>
  The exploration parameters that lines 104 and 105 pass for a worker \<open>w\<close> and the flag
  \<open>random_action\<close>.
\<close>

definition exploration_ok :: "('e, 'p) worker \<Rightarrow> bool \<Rightarrow> policy_args \<Rightarrow> bool" where
  "exploration_ok w random_action a =
     (arg_noise_eps a = (if exploit w then 0 else noise_eps w)
      \<and> arg_random_eps a = (if random_action then 1 else if exploit w then 0 else random_eps w))"

section \<open>The cast to float32\<close>

text \<open>
  \<open>exponent2\<close> is the binary exponent, so the cast rounds to a multiple of the spacing of
  the float32 numbers around its argument. The cast keeps every integer below \<open>2^24\<close> in
  absolute value, and rounds \<open>2^24 + 1\<close> to \<open>2^24\<close>.
\<close>

lemma bit_length_bounds:
  "0 < n \<Longrightarrow> 0 < bit_length n \<and> 2 ^ nat (bit_length n - 1) \<le> n \<and> n < 2 ^ nat (bit_length n)"
proof (induction n rule: bit_length.induct)
  case (1 n)
  have bl: "bit_length n = 1 + bit_length (n div 2)"
    using 1(2) by (simp add: bit_length.simps [of n])
  show ?case
  proof (cases "n div 2 \<le> 0")
    case True
    with 1(2) have "n = 1" by presburger
    then show ?thesis by (simp add: bit_length.simps [of 1] bit_length.simps [of 0])
  next
    case False
    then have pos: "0 < n div 2" by simp
    from 1(1) [OF _ pos] 1(2)
    have k: "0 < bit_length (n div 2)"
      and lo': "2 ^ nat (bit_length (n div 2) - 1) \<le> n div 2"
      and hi': "n div 2 < 2 ^ nat (bit_length (n div 2))"
      by simp_all
    have "nat (bit_length n - 1) = Suc (nat (bit_length (n div 2) - 1))"
      using k by (simp add: bl) 
    then have "(2::int) ^ nat (bit_length n - 1) = 2 * 2 ^ nat (bit_length (n div 2) - 1)"
      by simp
    also have "\<dots> \<le> 2 * (n div 2)" using lo' by simp
    also have "\<dots> \<le> n" by presburger
    finally have lo: "2 ^ nat (bit_length n - 1) \<le> n" .
    have "nat (bit_length n) = Suc (nat (bit_length (n div 2)))"
      using k by (simp add: bl)
    then have p: "(2::int) ^ nat (bit_length n) = 2 * 2 ^ nat (bit_length (n div 2))"
      by simp
    have "n < 2 * (n div 2) + 2" by presburger
    also have "\<dots> \<le> 2 * 2 ^ nat (bit_length (n div 2))" using hi' by simp
    finally have hi: "n < 2 ^ nat (bit_length n)" by (simp add: p)
    from k lo hi show ?thesis by (simp add: bl)
  qed
qed

lemma exponent2_bounds:
  assumes "0 < y"
  shows "2 powi exponent2 y \<le> y \<and> y < 2 powi (exponent2 y + 1)"
proof (cases "1 \<le> y")
  case True
  define n where "n = \<lfloor>y\<rfloor>"
  have n: "0 < n" "of_int n \<le> y" "y < of_int n + 1"
    using True unfolding n_def by linarith+
  note b = bit_length_bounds [OF n(1)]
  define k where "k = bit_length n"
  have k: "0 < k" using b by (simp add: k_def)
  have e: "exponent2 y = k - 1"
    using True by (simp add: exponent2_def n_def [symmetric] k_def)
  have "of_int (2 ^ nat (k - 1)) \<le> (of_int n :: real)"
    using b unfolding k_def [symmetric] by (simp only: of_int_le_iff)
  then have "(2::real) ^ nat (k - 1) \<le> of_int n" by simp
  with n(2) have "(2::real) ^ nat (k - 1) \<le> y" by linarith
  moreover have "(2::real) powi (k - 1) = 2 ^ nat (k - 1)"
    using k by (simp add: power_int_def)
  ultimately have lo: "2 powi exponent2 y \<le> y" by (simp add: e)
  have "n + 1 \<le> 2 ^ nat k" using b by (simp add: k_def)
  then have "of_int (n + 1) \<le> (of_int (2 ^ nat k) :: real)" by (simp only: of_int_le_iff)
  then have "of_int n + 1 \<le> (2::real) ^ nat k" by simp
  with n(3) have "y < 2 ^ nat k" by linarith
  moreover have "(2::real) powi k = 2 ^ nat k" using k by (simp add: power_int_def)
  ultimately have "y < 2 powi (exponent2 y + 1)" by (simp add: e)
  with lo show ?thesis by simp
next
  case False
  define z where "z = 1 / y"
  have z: "1 < z" using False assms by (simp add: z_def)
  define m where "m = \<lceil>z\<rceil> - 1"
  have c: "2 \<le> \<lceil>z\<rceil>" using z by linarith
  have m: "0 < m" "of_int m < z" "z \<le> of_int m + 1"
    using c unfolding m_def by linarith+
  note b = bit_length_bounds [OF m(1)]
  define k where "k = bit_length m"
  have k: "0 < k" using b by (simp add: k_def)
  have e: "exponent2 y = - k"
    using False by (simp add: exponent2_def m_def z_def k_def)
  have "m + 1 \<le> 2 ^ nat k" using b by (simp add: k_def)
  then have "of_int (m + 1) \<le> (of_int (2 ^ nat k) :: real)" by (simp only: of_int_le_iff)
  then have "of_int m + 1 \<le> (2::real) ^ nat k" by simp
  with m(3) have "z \<le> 2 ^ nat k" by linarith
  then have "1 / 2 ^ nat k \<le> y"
    using assms by (simp add: z_def field_simps)
  moreover have "(2::real) powi (- k) = 1 / 2 ^ nat k"
    using k by (simp add: power_int_def field_simps)
  ultimately have lo: "2 powi exponent2 y \<le> y" by (simp add: e)
  have "of_int (2 ^ nat (k - 1)) \<le> (of_int m :: real)"
    using b unfolding k_def [symmetric] by (simp only: of_int_le_iff)
  then have "(2::real) ^ nat (k - 1) \<le> of_int m" by simp
  with m(2) have "2 ^ nat (k - 1) < z" by linarith
  then have "y < 1 / 2 ^ nat (k - 1)"
    using assms by (simp add: z_def field_simps)
  moreover have "(2::real) powi (- k + 1) = 1 / 2 ^ nat (k - 1)"
  proof (cases "k = 1")
    case True
    then show ?thesis by simp
  next
    case False
    with k have "- k + 1 < 0" "nat (- (- k + 1)) = nat (k - 1)" by simp_all
    then show ?thesis by (simp add: power_int_def field_simps)
  qed
  ultimately have "y < 2 powi (exponent2 y + 1)" by (simp add: e)
  with lo show ?thesis by simp
qed

lemma pow2_less_iff: "(2::real) powi a < 2 powi b \<longleftrightarrow> a < b"
proof -
  have p: "(2::real) powi n = 2 powr of_int n" for n
    by (rule powr_real_of_int' [symmetric]) simp_all
  have "2 powr of_int a < (2::real) powr of_int b \<longleftrightarrow> (of_int a :: real) < of_int b"
    by (rule powr_less_cancel_iff) simp
  then show ?thesis by (simp only: p of_int_less_iff)
qed

lemma exponent2_unique:
  assumes "2 powi e \<le> y" and "y < 2 powi (e + 1)"
  shows "exponent2 y = e"
proof -
  have pos: "0 < y" using assms(1) by (rule less_le_trans [rotated]) simp
  note b = exponent2_bounds [OF pos]
  have "(2::real) powi e < 2 powi (exponent2 y + 1)" using assms(1) b by linarith
  then have 1: "e < exponent2 y + 1" by (simp only: pow2_less_iff)
  have "(2::real) powi exponent2 y < 2 powi (e + 1)" using assms(2) b by linarith
  then have 2: "exponent2 y < e + 1" by (simp only: pow2_less_iff)
  from 1 2 show ?thesis by simp
qed

lemma round_half_even_of_int: "round_half_even (of_int j) = j"
  by (simp add: round_half_even_def)

lemma float32_real_of_int:
  assumes "\<bar>m\<bar> < 2 ^ 24"
  shows "float32_real (of_int m) = of_int m"
proof (cases "m = 0")
  case True
  then show ?thesis by (simp add: float32_real_def)
next
  case False
  let ?x = "of_int m :: real"
  let ?e = "exponent2 \<bar>?x\<bar>"
  from False have one: "1 \<le> \<bar>?x\<bar>" by (simp flip: of_int_abs)
  then have pos: "0 < \<bar>?x\<bar>" by linarith
  note b = exponent2_bounds [OF pos]
  from assms have up: "\<bar>?x\<bar> < 2 ^ 24"
    by (metis of_int_abs of_int_less_numeral_power_cancel_iff)
  have "(2::real) powi 0 < 2 powi (?e + 1)" using one b by simp
  then have "0 < ?e + 1" by (simp only: pow2_less_iff)
  then have e0: "0 \<le> ?e" by simp
  have "(2::real) powi ?e < 2 powi 24" using up b by simp
  then have "?e < 24" by (simp only: pow2_less_iff)
  then have e1: "?e \<le> 23" by simp
  define k where "k = nat (23 - ?e)"
  have q: "2 powi (max ?e (- 126) - 23) = inverse (2 ^ k :: real)"
  proof -
    have "max ?e (- 126) = ?e" using e0 by simp
    moreover have "?e - 23 = - int k" using e1 by (simp add: k_def)
    ultimately show ?thesis by (simp add: power_int_minus)
  qed
  have "?x / inverse (2 ^ k) = of_int (m * 2 ^ k)" by (simp add: field_simps)
  then have "round_half_even (?x / inverse (2 ^ k)) = m * 2 ^ k"
    by (simp only: round_half_even_of_int)
  with False q show ?thesis
    by (simp add: float32_real_def Let_def)
qed

lemma float32_of_int:
  assumes "\<bar>m\<bar> < 2 ^ 24"
  shows "float32 (Fin (of_int m)) = Fin (of_int m)"
proof -
  have "\<bar>of_int m :: real\<bar> < 2 ^ 24"
    using assms by (metis of_int_abs of_int_less_numeral_power_cancel_iff)
  then show ?thesis by (simp add: float32.simps float32_real_of_int [OF assms])
qed

lemma float32_zero [simp]: "float32 (Fin 0) = Fin 0"
  using float32_of_int [of 0] by simp

lemma float32_one [simp]: "float32 (Fin 1) = Fin 1"
  using float32_of_int [of 1] by simp

lemma float32_numeral [simp]:
  "(numeral k :: int) < 16777216 \<Longrightarrow> float32 (Fin (numeral k)) = Fin (numeral k)"
  using float32_of_int [of "numeral k"] by simp

lemma float32_tie: "float32 (Fin 16777217) = Fin 16777216"
proof -
  have e: "exponent2 (16777217 :: real) = 24"
    by (rule exponent2_unique) simp_all
  have r: "round_half_even (16777217 / 2) = 8388608"
  proof -
    have f: "\<lfloor>16777217 / 2 :: real\<rfloor> = 8388608" by (simp add: floor_eq_iff)
    show ?thesis by (simp add: round_half_even_def f Let_def)
  qed
  show ?thesis by (simp add: float32.simps float32_real_def e r Let_def)
qed

section \<open>Frame lemmas for the resets\<close>

lemma get_row_Inr: "get_row xs i = Inr v \<longleftrightarrow> i < length xs \<and> v = xs ! i"
  by (auto simp: get_row_def)

lemma set_row_Inr: "set_row xs i v = Inr ys \<longleftrightarrow> i < length xs \<and> ys = xs[i := v]"
  by (auto simp: set_row_def)

lemma broadcast_to_length: "broadcast_to d v = Inr row \<Longrightarrow> length row = d"
  by (auto simp: broadcast_to_def split: if_splits)

lemma broadcast_to_same: "length v = d \<Longrightarrow> broadcast_to d v = Inr v"
  by (simp add: broadcast_to_def)

lemma store_row_Inr:
  "store_row cast xs i v = Inr ys \<longleftrightarrow>
     i < length xs \<and> (\<exists>row. broadcast_to (length (xs ! i)) v = Inr row \<and> ys = xs[i := map cast row])"
  by (auto simp: store_row_def split: sum.splits)

lemma store_row_shape:
  assumes "store_row cast xs i v = Inr ys"
  shows "i < length xs" "length ys = length xs" "length (ys ! j) = length (xs ! j)"
    "j \<noteq> i \<Longrightarrow> ys ! j = xs ! j"
proof -
  from assms obtain row where i: "i < length xs"
    and row: "broadcast_to (length (xs ! i)) v = Inr row" and ys: "ys = xs[i := map cast row]"
    by (auto simp: store_row_Inr)
  show "i < length xs" by (rule i)
  show "length ys = length xs" by (simp add: ys)
  show "length (ys ! j) = length (xs ! j)"
    using i broadcast_to_length [OF row] by (cases "j = i") (simp_all add: ys)
  show "ys ! j = xs ! j" if "j \<noteq> i" using that by (simp add: ys)
qed

lemma store_row_same:
  assumes "store_row cast xs i v = Inr ys" and "length v = length (xs ! i)"
  shows "ys = xs[i := map cast v]"
  using assms by (auto simp: store_row_Inr broadcast_to_same)

lemma reset_rollout_frame:
  assumes "reset_rollout ops i gg w = Inr w1"
  shows "stats w1 = stats w" "config w1 = config w" "policy w1 = policy w"
    "logger w1 = logger w" "length (envs w1) = length (envs w)"
    "length (g w1) = length (g w)" "length (initial_o w1) = length (initial_o w)"
    "length (initial_ag w1) = length (initial_ag w)"
  using assms
  by (cases gg;
      auto simp: reset_rollout_def then_do_Inr get_row_Inr set_row_Inr store_row_Inr
        stats_def config_def
        split: prod.splits env_obs.splits)+

text \<open>
  A reset with a goal array on a goal-conditioned environment leaves in row \<open>i\<close> of
  \<^verbatim>\<open>self.g\<close> the float32 values of row \<open>i\<close> of the array, when that row has the width of
  the buffer; the other rows stay.
\<close>

lemma reset_rollout_goal:
  assumes "reset_rollout ops i (NdArray rows) w = Inr w1"
    and "is_dict (fst (env_reset ops (envs w ! i)))"
  shows "i < length (g w)"
    and "j \<noteq> i \<Longrightarrow> g w1 ! j = g w ! j"
    and "length (g w1 ! j) = length (g w ! j)"
    and "length (rows ! i) = length (g w ! i) \<Longrightarrow> g w1 ! i = map float32 (rows ! i)"
proof -
  from assms obtain observation achieved_goal desired_goal env1 g1 g2 where
    s1: "store_row float32 (g w) i desired_goal = Inr g1"
    and s2: "store_row float32 g1 i (rows ! i) = Inr g2"
    and w1: "g w1 = g2"
    by (auto simp: reset_rollout_def then_do_Inr get_row_Inr is_dict_def
        split: prod.splits env_obs.splits)
  note a = store_row_shape [OF s1]
  note b = store_row_shape [OF s2]
  show "i < length (g w)" by (rule a(1))
  show "g w1 ! j = g w ! j" if "j \<noteq> i"
    using a(4) [OF that] b(4) [OF that] by (simp add: w1)
  show "length (g w1 ! j) = length (g w ! j)"
    using a(3) [of j] b(3) [of j] by (simp add: w1)
  show "g w1 ! i = map float32 (rows ! i)" if "length (rows ! i) = length (g w ! i)"
  proof -
    from that a(3) [of i] have "length (rows ! i) = length (g1 ! i)" by simp
    from store_row_same [OF s2 this] b(1) show ?thesis by (simp add: w1)
  qed
qed

lemma reset_loop_frame:
  "reset_loop ops gg idxs w = Inr w1 \<Longrightarrow>
     stats w1 = stats w \<and> config w1 = config w \<and> policy w1 = policy w
     \<and> logger w1 = logger w \<and> length (envs w1) = length (envs w)
     \<and> length (g w1) = length (g w) \<and> length (initial_o w1) = length (initial_o w)
     \<and> length (initial_ag w1) = length (initial_ag w)"
proof (induction idxs arbitrary: w)
  case Nil
  then show ?case by simp
next
  case (Cons i idxs)
  from Cons.prems obtain w0 where
    first: "reset_rollout ops i gg w = Inr w0" and rest: "reset_loop ops gg idxs w0 = Inr w1"
    by (auto split: sum.splits)
  from Cons.IH [OF rest] reset_rollout_frame [OF first] show ?case by simp
qed

lemma reset_loop_goal:
  assumes "reset_loop ops (NdArray rows) idxs w = Inr w1"
    and "\<And>e. is_dict (fst (env_reset ops e))"
    and "length (rows ! j) = length (g w ! j)"
  shows "g w1 ! j = (if j \<in> set idxs then map float32 (rows ! j) else g w ! j)"
  using assms(1,3)
proof (induction idxs arbitrary: w)
  case Nil
  then show ?case by simp
next
  case (Cons i idxs)
  from Cons.prems obtain w0 where
    first: "reset_rollout ops i (NdArray rows) w = Inr w0"
    and rest: "reset_loop ops (NdArray rows) idxs w0 = Inr w1"
    by (auto split: sum.splits)
  note r = reset_rollout_goal [OF first assms(2)]
  have wd: "length (rows ! j) = length (g w0 ! j)"
    using r(3) [of j] Cons.prems(2) by simp
  note ih = Cons.IH [OF rest wd]
  show ?case
  proof (cases "j = i")
    case True
    with r(4) Cons.prems(2) have "g w0 ! j = map float32 (rows ! j)" by simp
    with ih True show ?thesis by simp
  next
    case False
    with r(2) [of j] have "g w0 ! j = g w ! j" by simp
    with ih False show ?thesis by simp
  qed
qed

lemma reset_all_frame:
  "reset_all_rollouts ops gg w = Inr w1 \<Longrightarrow>
     stats w1 = stats w \<and> config w1 = config w \<and> policy w1 = policy w
     \<and> logger w1 = logger w \<and> length (envs w1) = length (envs w)
     \<and> length (g w1) = length (g w) \<and> length (initial_o w1) = length (initial_o w)
     \<and> length (initial_ag w1) = length (initial_ag w)"
  unfolding reset_all_rollouts_def by (rule reset_loop_frame)

section \<open>Frame lemmas for the loop over the environments\<close>

lemma list_all_update:
  assumes "list_all P xs" and "k < length xs \<Longrightarrow> P y"
  shows "list_all P (xs[k := y])"
proof -
  have "P (xs[k := y] ! m)" if "m < length xs" for m
  proof (cases "m = k")
    case True
    with that assms(2) show ?thesis by simp
  next
    case False
    with that assms(1) show ?thesis by (simp add: list_all_length)
  qed
  then show ?thesis by (simp add: list_all_length)
qed

lemma store_info_shape:
  "store_info nfo t i ks iv = Inr iv1 \<Longrightarrow> info_shape horizon n iv \<Longrightarrow> info_shape horizon n iv1"
proof (induction ks arbitrary: iv)
  case Nil
  then show ?case by simp
next
  case (Cons k ks)
  obtain idx key where k: "k = (idx, key)" by (cases k)
  from Cons.prems(1) k obtain v where
    rest: "store_info nfo t i ks (iv[idx := (iv ! idx)[t := (iv ! idx ! t)[i := v]]]) = Inr iv1"
    by (auto split: option.splits sum.splits)
  have "info_shape horizon n (iv[idx := (iv ! idx)[t := (iv ! idx ! t)[i := v]]])"
    unfolding info_shape_def
  proof (rule list_all_update)
    show "list_all (\<lambda>a. length a = horizon \<and> list_all (\<lambda>row. length row = n) a) iv"
      using Cons.prems(2) by (simp add: info_shape_def)
  next
    assume idx: "idx < length iv"
    with Cons.prems(2) have a: "length (iv ! idx) = horizon"
      and rows: "list_all (\<lambda>row. length row = n) (iv ! idx)"
      by (simp_all add: info_shape_def list_all_length)
    have "list_all (\<lambda>row. length row = n) ((iv ! idx)[t := (iv ! idx ! t)[i := v]])"
      by (rule list_all_update [OF rows]) (use rows in \<open>simp add: list_all_length\<close>)
    with a show "length ((iv ! idx)[t := (iv ! idx ! t)[i := v]]) = horizon
      \<and> list_all (\<lambda>row. length row = n) ((iv ! idx)[t := (iv ! idx ! t)[i := v]])"
      by simp
  qed
  from Cons.IH [OF rest this] show ?case .
qed

lemma bookkeep_bufs: "bufs (bookkeep w t i reward dn nfo L) = bufs L"
  by (simp add: bookkeep_def Let_def bufs_def split: option.split)

lemma bookkeep_Qs: "Qs (bookkeep w t i reward dn nfo L) = Qs L"
  by (simp add: bookkeep_def Let_def split: option.split)

lemma bookkeep_cells: "cells n L \<Longrightarrow> cells n (bookkeep w t i reward dn nfo L)"
  by (simp add: bookkeep_def Let_def cells_def split: option.split)

lemma bookkeep_info: "info_values (bookkeep w t i reward dn nfo L) = info_values L"
  by (simp add: bookkeep_def Let_def split: option.split)

lemma bookkeep_reward:
  "cur_reward (bookkeep w t i reward dn nfo L) = (cur_reward L)[i := reward]"
  by (simp add: bookkeep_def Let_def split: option.split)

lemma bookkeep_returns:
  "returns (bookkeep w t i reward dn nfo L) =
     (if truthy (cur_valid L ! i) then (returns L)[i := fl_add (returns L ! i) reward]
      else returns L)"
  by (simp add: bookkeep_def Let_def split: option.split)

lemma store_obs_frame:
  assumes "store_obs w t i curr_o_new nfo L = Inr L1"
  shows "bufs L1 = bufs L" "Qs L1 = Qs L" "cur_reward L1 = cur_reward L"
    "returns L1 = returns L"
    "cells n L \<Longrightarrow> cells n L1"
    "info_shape horizon n (info_values L) \<Longrightarrow> info_shape horizon n (info_values L1)"
  using assms
  by (auto simp: store_obs_def then_do_Inr store_row_Inr bufs_def cells_def
      split: env_obs.splits dest: store_info_shape)

text \<open>What a completed call of the body of the inner loop does.\<close>

lemma step_env_Next:
  assumes "step_env ops t u i (w, L) = Next (w1, L1)"
  obtains env1 curr_o_new reward dn nfo where
    "w1 = w\<lparr>envs := (envs w)[i := env1]\<rparr>"
    and "store_obs w t i curr_o_new nfo (bookkeep w t i reward dn nfo L) = Inr L1"
  using assms
  by (auto simp: step_env_def split: if_splits prod.splits step_result.splits sum.splits)

lemma step_env_frame:
  assumes "step_env ops t u i (w, L) = Next (w1, L1)"
  shows "stats w1 = stats w \<and> config w1 = config w \<and> policy w1 = policy w
    \<and> logger w1 = logger w \<and> g w1 = g w \<and> initial_o w1 = initial_o w
    \<and> initial_ag w1 = initial_ag w \<and> length (envs w1) = length (envs w)"
    and "bufs L1 = bufs L" and "Qs L1 = Qs L"
    and "cells n L \<Longrightarrow> cells n L1"
    and "info_shape horizon n (info_values L) \<Longrightarrow> info_shape horizon n (info_values L1)"
proof -
  from assms obtain env1 curr_o_new reward dn nfo where
    w1: "w1 = w\<lparr>envs := (envs w)[i := env1]\<rparr>"
    and st: "store_obs w t i curr_o_new nfo (bookkeep w t i reward dn nfo L) = Inr L1"
    by (rule step_env_Next)
  from w1 show "stats w1 = stats w \<and> config w1 = config w \<and> policy w1 = policy w
    \<and> logger w1 = logger w \<and> g w1 = g w \<and> initial_o w1 = initial_o w
    \<and> initial_ag w1 = initial_ag w \<and> length (envs w1) = length (envs w)"
    by (simp add: stats_def config_def)
  from store_obs_frame(1) [OF st] show "bufs L1 = bufs L" by (simp add: bookkeep_bufs)
  from store_obs_frame(2) [OF st] show "Qs L1 = Qs L" by (simp add: bookkeep_Qs)
  show "cells n L1" if "cells n L"
    using store_obs_frame(5) [OF st] that by (simp add: bookkeep_cells)
  show "info_shape horizon n (info_values L1)" if "info_shape horizon n (info_values L)"
    using store_obs_frame(6) [OF st] that by (simp add: bookkeep_info)
qed

lemma step_env_returns:
  assumes "step_env ops t u i (w, L) = Next (w1, L1)"
  shows "\<exists>r. cur_reward L1 = (cur_reward L)[i := r]
    \<and> returns L1 = (if truthy (cur_valid L ! i)
                    then (returns L)[i := fl_add (returns L ! i) r] else returns L)"
proof -
  from assms obtain env1 curr_o_new reward dn nfo where
    st: "store_obs w t i curr_o_new nfo (bookkeep w t i reward dn nfo L) = Inr L1"
    by (rule step_env_Next)
  from store_obs_frame(3,4) [OF st]
  have "cur_reward L1 = (cur_reward L)[i := reward]
    \<and> returns L1 = (if truthy (cur_valid L ! i)
                    then (returns L)[i := fl_add (returns L ! i) reward] else returns L)"
    by (simp add: bookkeep_reward bookkeep_returns)
  then show ?thesis by blast
qed

lemma env_loop_frame:
  "env_loop ops t u idxs (w, L) = Next (w1, L1) \<Longrightarrow>
     (stats w1 = stats w \<and> config w1 = config w \<and> policy w1 = policy w
      \<and> logger w1 = logger w \<and> g w1 = g w \<and> initial_o w1 = initial_o w
      \<and> initial_ag w1 = initial_ag w \<and> length (envs w1) = length (envs w))
     \<and> bufs L1 = bufs L \<and> Qs L1 = Qs L
     \<and> (cells n L \<longrightarrow> cells n L1)
     \<and> (info_shape horizon n (info_values L) \<longrightarrow> info_shape horizon n (info_values L1))"
proof (induction idxs arbitrary: w L)
  case Nil
  then show ?case by simp
next
  case (Cons i idxs)
  from Cons.prems obtain w0 L0 where
    first: "step_env ops t u i (w, L) = Next (w0, L0)"
    and rest: "env_loop ops t u idxs (w0, L0) = Next (w1, L1)"
    by (auto split: outcome.splits)
  note f = step_env_frame [OF first]
  from Cons.IH [OF rest] f(1,2,3) f(4) [of n] f(5) [of horizon n] show ?case by simp
qed

text \<open>
  The loop over the environments adds the reward of the timestep to the return of every
  environment whose validity flag is set, and to no other.
\<close>

lemma env_loop_returns:
  "env_loop ops t u idxs (w, L) = Next (w1, L1) \<Longrightarrow> distinct idxs \<Longrightarrow> cells n L \<Longrightarrow>
   j < n \<Longrightarrow>
     returns L1 ! j =
       (if j \<in> set idxs \<and> truthy (cur_valid L ! j)
        then fl_add (returns L ! j) (cur_reward L1 ! j) else returns L ! j)
     \<and> (j \<notin> set idxs \<longrightarrow> cur_reward L1 ! j = cur_reward L ! j)"
proof (induction idxs arbitrary: w L)
  case Nil
  then show ?case by simp
next
  case (Cons i idxs)
  from Cons.prems(1) obtain w0 L0 where
    first: "step_env ops t u i (w, L) = Next (w0, L0)"
    and rest: "env_loop ops t u idxs (w0, L0) = Next (w1, L1)"
    by (auto split: outcome.splits)
  from step_env_returns [OF first] obtain r where
    r: "cur_reward L0 = (cur_reward L)[i := r]"
    and ret: "returns L0 = (if truthy (cur_valid L ! i)
                    then (returns L)[i := fl_add (returns L ! i) r] else returns L)"
    by blast
  have cv: "cur_valid L0 = cur_valid L"
    using step_env_frame(2) [OF first] by (simp add: bufs_def)
  have cells0: "cells n L0" using step_env_frame(4) [OF first Cons.prems(3)] .
  from Cons.prems(2) have d: "distinct idxs" and i: "i \<notin> set idxs" by simp_all
  note ih = Cons.IH [OF rest d cells0 Cons.prems(4)]
  have lens: "length (returns L) = n" "length (cur_reward L) = n"
    using Cons.prems(3) by (simp_all add: cells_def)
  show ?case
  proof (cases "j = i")
    case True
    with ih i r ret lens Cons.prems(4) cv show ?thesis by simp
  next
    case False
    with ih r ret cv show ?thesis by simp
  qed
qed

section \<open>Lemmas for the loop over the timesteps\<close>

lemma invalidate_length: "length (invalidate cd idxs cv) = length cv"
  by (induction idxs arbitrary: cv) simp_all

lemma invalidate_nth:
  "i < length cv \<Longrightarrow>
     invalidate cd idxs cv ! i = (if i \<in> set idxs \<and> truthy (cd ! i) then Fin 0 else cv ! i)"
proof (induction idxs arbitrary: cv)
  case Nil
  then show ?case by simp
next
  case (Cons k idxs)
  show ?case
  proof (cases "truthy (cd ! k)")
    case True
    with Cons.IH [of "cv[k := Fin 0]"] Cons.prems show ?thesis
      by (cases "i = k") (auto simp: nth_list_update)
  next
    case False
    with Cons.IH [of cv] Cons.prems show ?thesis by auto
  qed
qed

lemma fresh_cells_frame:
  "bufs (fresh_cells n dim_o dim_g L) = bufs L"
  "Qs (fresh_cells n dim_o dim_g L) = Qs L"
  "returns (fresh_cells n dim_o dim_g L) = returns L"
  "info_values (fresh_cells n dim_o dim_g L) = info_values L"
  by (simp_all add: fresh_cells_def bufs_def)

lemma fresh_cells_cells:
  "length (returns L) = n \<Longrightarrow> length (lengths L) = n \<Longrightarrow> length (once_successes L) = n \<Longrightarrow>
     cells n (fresh_cells n dim_o dim_g L)"
  by (simp add: fresh_cells_def cells_def np_empty_def np_zeros_def)

text \<open>What a completed timestep does, in terms of the frame \<open>L2\<close> before its appends.\<close>

lemma rollout_step_Next:
  assumes "rollout_step ops random_action t (w, L) = Next (w1, L1)"
  obtains policy_u policy_Q p1 dim_o dim_g L2 where
    "get_actions ops (policy w) (policy_call w random_action L) = ((policy_u, policy_Q), p1)"
    and "env_loop ops t (action_rows policy_u) [0..<rollout_batch_size w]
           (w\<lparr>policy := p1\<rparr>,
            fresh_cells (rollout_batch_size w) dim_o dim_g
              (if compute_Q w then L\<lparr>Qs := Qs L @ [policy_Q]\<rparr> else L)) = Next (w1, L2)"
    and "\<not> isnan_any (o_new L2)"
    and "L1 = end_step (action_rows policy_u) (g w1) L2"
  using assms
  by (auto simp: rollout_step_def Let_def action_rows_def
      split: prod.splits sum.splits outcome.splits if_splits)

lemma rollout_step_effect:
  assumes step: "rollout_step ops random_action t (w, L) = Next (w1, L1)"
    and lens: "length (returns L) = rollout_batch_size w"
      "length (lengths L) = rollout_batch_size w"
      "length (once_successes L) = rollout_batch_size w"
  obtains policy_u policy_Q L2 where
    "fst (get_actions ops (policy w) (policy_call w random_action L)) = (policy_u, policy_Q)"
    and "L1 = end_step (action_rows policy_u) (g w) L2"
    and "bufs L2 = bufs L"
    and "Qs L2 = (if compute_Q w then Qs L @ [policy_Q] else Qs L)"
    and "cells (rollout_batch_size w) L2"
    and "\<forall>j<rollout_batch_size w. returns L2 ! j =
           (if truthy (cur_valid L ! j) then fl_add (returns L ! j) (cur_reward L2 ! j)
            else returns L ! j)"
    and "\<forall>horizon. info_shape horizon (rollout_batch_size w) (info_values L)
           \<longrightarrow> info_shape horizon (rollout_batch_size w) (info_values L2)"
    and "\<not> isnan_any (o_new L2)"
    and "stats w1 = stats w" and "config w1 = config w" and "logger w1 = logger w"
    and "g w1 = g w" and "initial_o w1 = initial_o w" and "initial_ag w1 = initial_ag w"
    and "length (envs w1) = length (envs w)"
    and "policy w1 = snd (get_actions ops (policy w) (policy_call w random_action L))"
proof -
  let ?n = "rollout_batch_size w"
  from step obtain policy_u policy_Q p1 dim_o dim_g L2 where
    act: "get_actions ops (policy w) (policy_call w random_action L) = ((policy_u, policy_Q), p1)"
    and loop: "env_loop ops t (action_rows policy_u) [0..<?n]
           (w\<lparr>policy := p1\<rparr>,
            fresh_cells ?n dim_o dim_g
              (if compute_Q w then L\<lparr>Qs := Qs L @ [policy_Q]\<rparr> else L)) = Next (w1, L2)"
    and nan: "\<not> isnan_any (o_new L2)"
    and L1: "L1 = end_step (action_rows policy_u) (g w1) L2"
    by (rule rollout_step_Next)
  let ?L0 = "if compute_Q w then L\<lparr>Qs := Qs L @ [policy_Q]\<rparr> else L"
  let ?F = "fresh_cells ?n dim_o dim_g ?L0"
  have L0: "bufs ?L0 = bufs L" "returns ?L0 = returns L" "lengths ?L0 = lengths L"
    "once_successes ?L0 = once_successes L" "info_values ?L0 = info_values L"
    "cur_valid ?L0 = cur_valid L"
    by (simp_all add: bufs_def)
  have cF: "cells ?n ?F"
    by (rule fresh_cells_cells) (simp_all add: L0 lens)
  note fr = env_loop_frame [OF loop, of ?n]
  have w: "stats w1 = stats w" "config w1 = config w" "logger w1 = logger w"
    "g w1 = g w" "initial_o w1 = initial_o w" "initial_ag w1 = initial_ag w"
    "length (envs w1) = length (envs w)" "policy w1 = p1"
    using fr by (simp_all add: stats_def config_def)
  have b: "bufs L2 = bufs L" using fr by (simp add: fresh_cells_frame L0)
  have q: "Qs L2 = (if compute_Q w then Qs L @ [policy_Q] else Qs L)"
    using fr by (simp add: fresh_cells_frame)
  have c: "cells ?n L2" using fr cF by simp
  have r: "\<forall>j<?n. returns L2 ! j =
           (if truthy (cur_valid L ! j) then fl_add (returns L ! j) (cur_reward L2 ! j)
            else returns L ! j)"
  proof (intro allI impI)
    fix j assume j: "j < ?n"
    have cv: "cur_valid ?F = cur_valid L"
      using fresh_cells_frame(1) [of ?n dim_o dim_g ?L0] L0(1) by (simp add: bufs_def)
    from env_loop_returns [OF loop _ cF j] j cv
    show "returns L2 ! j =
           (if truthy (cur_valid L ! j) then fl_add (returns L ! j) (cur_reward L2 ! j)
            else returns L ! j)"
      by (simp add: fresh_cells_frame L0)
  qed
  have i: "\<forall>horizon. info_shape horizon ?n (info_values L)
           \<longrightarrow> info_shape horizon ?n (info_values L2)"
  proof (intro allI impI)
    fix horizon assume "info_shape horizon ?n (info_values L)"
    with env_loop_frame [OF loop, of ?n horizon]
    show "info_shape horizon ?n (info_values L2)" by (simp add: fresh_cells_frame L0)
  qed
  show thesis
  proof (rule that [of policy_u policy_Q L2])
    show "fst (get_actions ops (policy w) (policy_call w random_action L)) = (policy_u, policy_Q)"
      by (simp add: act)
    show "L1 = end_step (action_rows policy_u) (g w) L2" using L1 w by simp
    show "policy w1 = snd (get_actions ops (policy w) (policy_call w random_action L))"
      using w act by simp
  qed (use b q c r i nan w in \<open>simp_all\<close>)
qed

lemma time_loop_counted:
  assumes "time_loop ops random_action ts s = Next s1"
    and "P k s"
    and "\<And>t k s s'. P k s \<Longrightarrow> rollout_step ops random_action t s = Next s' \<Longrightarrow> P (Suc k) s'"
  shows "P (k + length ts) s1"
  using assms(1,2)
proof (induction ts arbitrary: s k)
  case Nil
  then show ?case by simp
next
  case (Cons t ts)
  from Cons.prems(1) obtain s0 where
    first: "rollout_step ops random_action t s = Next s0"
    and rest: "time_loop ops random_action ts s0 = Next s1"
    by (auto split: outcome.splits)
  from assms(3) [OF Cons.prems(2) first] have "P (Suc k) s0" .
  from Cons.IH [OF rest this] show ?case by simp
qed

section \<open>The invariant of the loop over the timesteps\<close>

lemma masked_return_snoc:
  assumes "length vs = length rs"
  shows "masked_return (rs @ [r]) (vs @ [v]) i =
     (if truthy (v ! i) then fl_add (masked_return rs vs i) (r ! i)
      else masked_return rs vs i)"
proof -
  have f: "filter (\<lambda>t. truthy ((vs @ [v]) ! t ! i)) [0..<length rs] =
           filter (\<lambda>t. truthy (vs ! t ! i)) [0..<length rs]"
    by (rule filter_cong) (simp_all add: nth_append assms)
  have m: "map (\<lambda>t. (rs @ [r]) ! t ! i) (filter (\<lambda>t. truthy (vs ! t ! i)) [0..<length rs]) =
           map (\<lambda>t. rs ! t ! i) (filter (\<lambda>t. truthy (vs ! t ! i)) [0..<length rs])"
    by (rule map_cong) (simp_all add: nth_append)
  have v: "(vs @ [v]) ! length rs = v" by (simp add: assms [symmetric])
  have r: "(rs @ [r]) ! length rs = r" by simp
  show ?thesis
    by (simp add: masked_return_def f m v r)
qed

lemma rows_of_len_snoc:
  "rows_of_len n (rows @ [row]) \<longleftrightarrow> rows_of_len n rows \<and> length row = n"
  by (auto simp: rows_of_len_def)

lemma shaped_end_step:
  assumes "shaped n k L" and "bufs L2 = bufs L" and "cells n L2"
  shows "shaped n (Suc k) (end_step u self_g L2)"
proof -
  from assms(2) have b:
    "o_arr L2 = o_arr L" "ag_arr L2 = ag_arr L" "cur_valid L2 = cur_valid L"
    "obs L2 = obs L" "achieved_goals L2 = achieved_goals L" "successes L2 = successes L"
    "rewards L2 = rewards L" "dones L2 = dones L" "valids L2 = valids L"
    "zs L2 = zs L" "acts L2 = acts L" "goals L2 = goals L"
    by (simp_all add: bufs_def)
  from assms(3) have c:
    "length (o_new L2) = n" "length (ag_new L2) = n" "length (success L2) = n"
    "length (cur_reward L2) = n" "length (cur_done L2) = n" "length (returns L2) = n"
    "length (lengths L2) = n" "length (once_successes L2) = n"
    by (simp_all add: cells_def)
  from assms(1) show ?thesis
    by (simp add: shaped_def end_step_def b c rows_of_len_snoc invalidate_length)
qed

lemma mask_ok_step:
  assumes ok: "mask_ok n vs cv" and len: "length cv = n"
  shows "mask_ok n (vs @ [cv]) (invalidate cd [0..<length cv] cv)"
  unfolding mask_ok_def
proof (intro allI impI)
  fix i assume i: "i < n"
  let ?cv' = "invalidate cd [0..<length cv] cv"
  have new: "?cv' ! i = (if truthy (cd ! i) then Fin 0 else cv ! i)"
    using i len by (simp add: invalidate_nth)
  from ok i have cv: "cv ! i = Fin 0 \<or> cv ! i = Fin 1"
    and old: "\<And>t. t < length vs \<Longrightarrow>
              (vs ! t ! i = Fin 0 \<or> vs ! t ! i = Fin 1)
              \<and> (vs ! t ! i = Fin 0 \<longrightarrow> cv ! i = Fin 0)
              \<and> (\<forall>t'. t \<le> t' \<and> t' < length vs \<longrightarrow> vs ! t ! i = Fin 0 \<longrightarrow> vs ! t' ! i = Fin 0)"
    by (simp_all add: mask_ok_def)
  have keep: "cv ! i = Fin 0 \<Longrightarrow> ?cv' ! i = Fin 0" using new by simp
  have rows: "\<forall>t<length (vs @ [cv]).
              ((vs @ [cv]) ! t ! i = Fin 0 \<or> (vs @ [cv]) ! t ! i = Fin 1)
              \<and> ((vs @ [cv]) ! t ! i = Fin 0 \<longrightarrow> ?cv' ! i = Fin 0)
              \<and> (\<forall>t'. t \<le> t' \<and> t' < length (vs @ [cv]) \<longrightarrow> (vs @ [cv]) ! t ! i = Fin 0
                    \<longrightarrow> (vs @ [cv]) ! t' ! i = Fin 0)"
  proof (intro allI impI)
    fix t assume t: "t < length (vs @ [cv])"
    show "((vs @ [cv]) ! t ! i = Fin 0 \<or> (vs @ [cv]) ! t ! i = Fin 1)
              \<and> ((vs @ [cv]) ! t ! i = Fin 0 \<longrightarrow> ?cv' ! i = Fin 0)
              \<and> (\<forall>t'. t \<le> t' \<and> t' < length (vs @ [cv]) \<longrightarrow> (vs @ [cv]) ! t ! i = Fin 0
                    \<longrightarrow> (vs @ [cv]) ! t' ! i = Fin 0)"
    proof (cases "t < length vs")
      case True
      note o = old [OF True]
      have later: "(vs @ [cv]) ! t' ! i = Fin 0"
        if "t \<le> t'" "t' < length (vs @ [cv])" "vs ! t ! i = Fin 0" for t'
      proof (cases "t' < length vs")
        case True
        with o that show ?thesis by (simp add: nth_append)
      next
        case False
        with that have "t' = length vs" by simp
        with o that show ?thesis by (simp add: nth_append)
      qed
      from True o keep later show ?thesis by (auto simp: nth_append)
    next
      case False
      with t have "t = length vs" by simp
      with cv keep show ?thesis by (auto simp: nth_append)
    qed
  qed
  from cv new rows show "(?cv' ! i = Fin 0 \<or> ?cv' ! i = Fin 1)
     \<and> (\<forall>t<length (vs @ [cv]).
              ((vs @ [cv]) ! t ! i = Fin 0 \<or> (vs @ [cv]) ! t ! i = Fin 1)
              \<and> ((vs @ [cv]) ! t ! i = Fin 0 \<longrightarrow> ?cv' ! i = Fin 0)
              \<and> (\<forall>t'. t \<le> t' \<and> t' < length (vs @ [cv]) \<longrightarrow> (vs @ [cv]) ! t ! i = Fin 0
                    \<longrightarrow> (vs @ [cv]) ! t' ! i = Fin 0))"
    by auto
qed

lemma loop_inv_step:
  assumes inv: "loop_inv w0 z0 horizon k s"
    and step: "rollout_step ops random_action t s = Next s'"
  shows "loop_inv w0 z0 horizon (Suc k) s'"
proof -
  obtain w L where s: "s = (w, L)" by (cases s)
  obtain w1 L1 where s': "s' = (w1, L1)" by (cases s')
  let ?n = "rollout_batch_size w0"
  from inv s have w: "config w = config w0" "stats w = stats w0" "logger w = logger w0"
    "g w = g w0" "initial_ag w = initial_ag w0" "length (envs w) = length (envs w0)"
    and sh: "shaped ?n k L" and inf: "info_shape horizon ?n (info_values L)"
    and z: "z_arr L = z0" "zs L = replicate k z0" "goals L = replicate k (g w0)"
    and ret: "\<forall>i<?n. returns L ! i = masked_return (rewards L) (valids L) i"
    and mask: "mask_ok ?n (valids L) (cur_valid L)"
    by (simp_all add: loop_inv_def)
  from w(1) have n: "rollout_batch_size w = ?n" by (simp add: config_def)
  from sh have lens: "length (returns L) = rollout_batch_size w"
    "length (lengths L) = rollout_batch_size w"
    "length (once_successes L) = rollout_batch_size w"
    and cvlen: "length (cur_valid L) = ?n"
    and rvlen: "length (valids L) = length (rewards L)"
    by (simp_all add: shaped_def n)
  from step s s' have step': "rollout_step ops random_action t (w, L) = Next (w1, L1)" by simp
  from step' lens obtain policy_u policy_Q L2 where
    L1: "L1 = end_step (action_rows policy_u) (g w) L2"
    and b: "bufs L2 = bufs L"
    and c: "cells (rollout_batch_size w) L2"
    and r: "\<forall>j<rollout_batch_size w. returns L2 ! j =
           (if truthy (cur_valid L ! j) then fl_add (returns L ! j) (cur_reward L2 ! j)
            else returns L ! j)"
    and i: "\<forall>horizon. info_shape horizon (rollout_batch_size w) (info_values L)
           \<longrightarrow> info_shape horizon (rollout_batch_size w) (info_values L2)"
    and w1: "stats w1 = stats w" "config w1 = config w" "logger w1 = logger w"
      "g w1 = g w" "initial_ag w1 = initial_ag w" "length (envs w1) = length (envs w)"
    by (rule rollout_step_effect)
  from b have bb: "z_arr L2 = z_arr L" "zs L2 = zs L" "goals L2 = goals L"
    "rewards L2 = rewards L" "valids L2 = valids L" "cur_valid L2 = cur_valid L"
    by (simp_all add: bufs_def)
  have e: "z_arr L1 = z_arr L2" "zs L1 = zs L2 @ [z_arr L2]" "goals L1 = goals L2 @ [g w]"
    "rewards L1 = rewards L2 @ [cur_reward L2]" "valids L1 = valids L2 @ [cur_valid L2]"
    "returns L1 = returns L2" "info_values L1 = info_values L2"
    "cur_valid L1 = invalidate (cur_done L2) [0..<length (cur_valid L2)] (cur_valid L2)"
    by (simp_all add: L1 end_step_def)
  have sh1: "shaped ?n (Suc k) L1"
    unfolding L1 using sh b c [unfolded n] by (rule shaped_end_step)
  have inf1: "info_shape horizon ?n (info_values L1)"
    using i inf by (simp add: e n)
  have z1: "z_arr L1 = z0" "zs L1 = replicate (Suc k) z0" "goals L1 = replicate (Suc k) (g w0)"
    using z w(4) by (simp_all add: e bb replicate_append_same)
  have ret1: "\<forall>i<?n. returns L1 ! i = masked_return (rewards L1) (valids L1) i"
  proof (intro allI impI)
    fix j assume j: "j < ?n"
    with r ret n show "returns L1 ! j = masked_return (rewards L1) (valids L1) j"
      by (simp add: e bb masked_return_snoc [OF rvlen])
  qed
  have mask1: "mask_ok ?n (valids L1) (cur_valid L1)"
    unfolding e bb using mask cvlen by (rule mask_ok_step)
  from w w1 sh1 inf1 z1 ret1 mask1 show ?thesis
    by (simp add: loop_inv_def s')
qed

lemma time_loop_inv:
  assumes "time_loop ops random_action ts s = Next s1" and "loop_inv w0 z0 horizon 0 s"
  shows "loop_inv w0 z0 horizon (length ts) s1"
  using time_loop_counted [where P = "loop_inv w0 z0 horizon" and k = 0, OF assms]
    loop_inv_step by fastforce

section \<open>Lemmas for the start and the end of a rollout\<close>

lemma alloc_info_shape:
  "alloc_info d horizon n keys = Inr iv \<Longrightarrow> info_shape horizon n iv \<and> length iv = length keys"
proof (induction keys arbitrary: iv)
  case Nil
  then show ?case by (simp add: info_shape_def)
next
  case (Cons key keys)
  from Cons.prems obtain k ivs where
    rest: "alloc_info d horizon n keys = Inr ivs"
    and iv: "iv = replicate horizon (np_empty n k) # ivs"
    by (auto split: sum.splits)
  from Cons.IH [OF rest] iv show ?case
    by (simp add: info_shape_def np_empty_def list_all_iff)
qed

lemma masked_return_Nil: "masked_return [] [] i = Fin 0"
  by (simp add: masked_return_def)

lemma start_frame_inv:
  assumes "start_frame w z_s_onehot = Inr L"
  obtains z_rows where "z_s_onehot = NdArray z_rows"
    and "loop_inv w z_rows (nat (T w)) 0 (w, L)"
    and "acts L = []" and "Qs L = []"
    and "length (info_values L) = length (info_keys w)"
proof -
  from assms obtain z_rows iv where
    z: "z_s_onehot = NdArray z_rows"
    and lens: "length (initial_o w) = rollout_batch_size w"
      "length (initial_ag w) = rollout_batch_size w"
    and iv: "alloc_info (dims w) (nat (T w)) (rollout_batch_size w) (info_keys w) = Inr iv"
    and L: "L = \<lparr>o_arr = initial_o w, ag_arr = initial_ag w, z_arr = z_rows,
                 obs = [], zs = [], achieved_goals = [], acts = [], goals = [],
                 successes = [], rewards = [], dones = [], valids = [],
                 info_values = iv, Qs = [],
                 cur_valid = np_ones (rollout_batch_size w),
                 lengths = replicate (rollout_batch_size w) (- 1),
                 once_successes = replicate (rollout_batch_size w) 0,
                 returns = np_zeros (rollout_batch_size w),
                 o_new = [], ag_new = [], success = [], cur_reward = [],
                 cur_done = []\<rparr>"
    by (auto simp: start_frame_def then_do_Inr split: if_splits pyarg.splits)
  have sh: "shaped (rollout_batch_size w) 0 L"
    by (simp add: L shaped_def lens np_ones_def np_zeros_def rows_of_len_def)
  have m: "mask_ok (rollout_batch_size w) (valids L) (cur_valid L)"
    by (simp add: L mask_ok_def np_ones_def)
  have r: "\<forall>i<rollout_batch_size w. returns L ! i = masked_return (rewards L) (valids L) i"
    by (simp add: L masked_return_Nil np_zeros_def)
  from alloc_info_shape [OF iv]
  have i: "info_shape (nat (T w)) (rollout_batch_size w) (info_values L)"
    and il: "length (info_values L) = length (info_keys w)"
    by (simp_all add: L)
  have inv: "loop_inv w z_rows (nat (T w)) 0 (w, L)"
    using sh m r i by (simp add: loop_inv_def) (simp add: L)
  show thesis by (rule that [OF z inv _ _ il]) (simp_all add: L)
qed

lemma finish_Inr:
  assumes "finish w L = Inr (ep, w1)"
  shows "ep = \<lparr>ep_o = obs L @ [o_arr L], ep_z = zs L, ep_u = acts L, ep_g = goals L,
               ep_ag = achieved_goals L @ [ag_arr L], ep_myr = rewards L, ep_myd = dones L,
               ep_myv = valids L,
               ep_info = add_info (zip (info_keys w) (info_values L)) Map.empty\<rparr>"
    and "successes L \<noteq> []"
    and "config w1 = config w" and "logger w1 = logger w"
    and "success_history w1 =
           deque_append (history_len w) (np_mean (last (successes L))) (success_history w)"
    and "once_success_history w1 =
           deque_append (history_len w)
             (np_mean (map (\<lambda>k. Fin (real_of_int k)) (once_successes L)))
             (once_success_history w)"
    and "return_history w1 =
           deque_append (history_len w) (np_mean (returns L)) (return_history w)"
    and "episode_length_history w1 =
           deque_append (history_len w)
             (np_mean (map (\<lambda>k. Fin (real_of_int k)) (lengths L)))
             (episode_length_history w)"
    and "Q_history w1 =
           (if compute_Q w
            then deque_append (history_len w) (np_mean (concat (Qs L))) (Q_history w)
            else Q_history w)"
    and "n_episodes w1 = n_episodes w + int (rollout_batch_size w)"
  using assms
  by (auto simp: finish_def Let_def config_def split: if_splits)

text \<open>
  A call with \<^verbatim>\<open>z_s_onehot=False\<close>, as both restarts make it, raises before the first
  timestep.
\<close>

lemma restart_raises:
  "\<exists>e. generate_rollouts_episode ops generated_goal PyFalse random_action w = Inl e"
proof (cases "reset_all_rollouts ops generated_goal w")
  case (Inl e)
  then show ?thesis by (simp add: generate_rollouts_episode.simps)
next
  case (Inr w1)
  obtain e where "start_frame w1 PyFalse = Inl e"
    using start_frame_needs_array [of w1 PyFalse] by (cases "start_frame w1 PyFalse") auto
  with Inr show ?thesis by (simp add: generate_rollouts_episode.simps)
qed

text \<open>A call that returns an episode ran without a restart.\<close>

lemma generate_rollouts_episode_Inr:
  assumes "generate_rollouts_episode ops generated_goal z_s_onehot random_action w = Inr (ep, w')"
  obtains w1 L0 w2 L where
    "reset_all_rollouts ops generated_goal w = Inr w1"
    and "start_frame w1 z_s_onehot = Inr L0"
    and "time_loop ops random_action [0..<nat (T w1)] (w1, L0) = Next (w2, L)"
    and "finish w2 L = Inr (ep, w')"
proof -
  have no: "generate_rollouts_episode ops PyFalse PyFalse False v \<noteq> Inr (ep, w')" for v
    using restart_raises [of ops PyFalse False v] by auto
  from assms that no show thesis
    by (subst (asm) generate_rollouts_episode.simps)
      (auto split: sum.splits outcome.splits prod.splits)
qed

text \<open>The state at the end of the loop of a call that returns an episode.\<close>

lemma completed_run:
  assumes "generate_rollouts_episode ops generated_goal z_s_onehot random_action w = Inr (ep, w')"
  obtains w1 z_rows w2 L where
    "reset_all_rollouts ops generated_goal w = Inr w1"
    and "z_s_onehot = NdArray z_rows"
    and "loop_inv w1 z_rows (nat (T w)) (nat (T w)) (w2, L)"
    and "finish w2 L = Inr (ep, w')"
    and "config w1 = config w" and "stats w1 = stats w" and "logger w1 = logger w"
    and "length (g w1) = length (g w)"
proof -
  from assms obtain w1 L0 w2 L where
    reset: "reset_all_rollouts ops generated_goal w = Inr w1"
    and start: "start_frame w1 z_s_onehot = Inr L0"
    and loop: "time_loop ops random_action [0..<nat (T w1)] (w1, L0) = Next (w2, L)"
    and fin: "finish w2 L = Inr (ep, w')"
    by (rule generate_rollouts_episode_Inr)
  from start obtain z_rows where z: "z_s_onehot = NdArray z_rows"
    and inv0: "loop_inv w1 z_rows (nat (T w1)) 0 (w1, L0)"
    by (rule start_frame_inv)
  note fr = reset_all_frame [OF reset]
  from fr have Tw: "T w1 = T w" by (simp add: config_def)
  from time_loop_inv [OF loop inv0]
  have inv: "loop_inv w1 z_rows (nat (T w)) (nat (T w)) (w2, L)" by (simp add: Tw)
  from fr show thesis by (intro that [OF reset z inv fin]) simp_all
qed

section \<open>The example rollout\<close>

lemma upt_2: "[0..<2] = [0, 1]"
  by (simp add: upt_rec numeral_2_eq_2)

lemma upt_3: "[0..<3] = [0, 1, 2]"
  by (simp add: upt_rec numeral_3_eq_3)

lemmas run_defs =
  reset_all_rollouts_def reset_rollout_def then_do_def get_row_def set_row_def store_row_def
  broadcast_to_def lookup_def
  start_frame_def rollout_step_def step_env_def bookkeep_def store_obs_def fresh_cells_def
  end_step_def policy_call_def finish_def
  np_empty_def np_zeros_def np_ones_def np_mean_def np_sum_def of_flag_def isnan_any_def
  deque_append_def zeros_like_def

lemma demo_run:
  "generate_rollouts_episode demo_ops demo_goal demo_skill False demo_worker
     = Inr (demo_episode, demo_after)"
  by (simp add: generate_rollouts_episode.simps run_defs demo_ops_def demo_worker_def
      demo_goal_def demo_skill_def demo_step_def demo_actions_def demo_info_def
      demo_episode_def demo_after_def upt_2 upt_3 Let_def numeral_2_eq_2 numeral_3_eq_3)

lemma demo_dict: "is_dict (fst (env_reset demo_ops e))"
  by (simp add: demo_ops_def is_dict_def)

section \<open>The validity mask (claim C3)\<close>

text \<open>
  Claim C3. In the episode that a call of \<^verbatim>\<open>generate_rollouts\<close> records (the dict
  \<^verbatim>\<open>episode\<close>, indexed \<open>myv[t][i]\<close>), the validity mask of every environment \<open>i\<close> has one
  entry per timestep, every entry is 0 or 1, and an entry that is 0 at timestep \<open>t\<close> is 0
  at every later timestep up to the horizon.
\<close>

theorem validity_mask_nonincreasing:
  assumes "generate_rollouts_episode ops generated_goal z_s_onehot random_action w = Inr (ep, w')"
    and "i < rollout_batch_size w"
  shows "length (ep_myv ep) = nat (T w)
    \<and> (\<forall>t<nat (T w). ep_myv ep ! t ! i = Fin 0 \<or> ep_myv ep ! t ! i = Fin 1)
    \<and> (\<forall>t t'. t \<le> t' \<and> t' < nat (T w) \<and> ep_myv ep ! t ! i = Fin 0
          \<longrightarrow> ep_myv ep ! t' ! i = Fin 0)"
proof -
  from assms(1) obtain w1 z_rows w2 L where
    inv: "loop_inv w1 z_rows (nat (T w)) (nat (T w)) (w2, L)"
    and fin: "finish w2 L = Inr (ep, w')"
    and cfg: "config w1 = config w"
    by (rule completed_run)
  from cfg have n: "rollout_batch_size w1 = rollout_batch_size w" by (simp add: config_def)
  from finish_Inr(1) [OF fin] have myv: "ep_myv ep = valids L" by simp
  from inv have len: "length (valids L) = nat (T w)"
    and mask: "mask_ok (rollout_batch_size w) (valids L) (cur_valid L)"
    by (simp_all add: loop_inv_def shaped_def n)
  from mask assms(2) have rows: "\<forall>t<nat (T w).
      (valids L ! t ! i = Fin 0 \<or> valids L ! t ! i = Fin 1)
      \<and> (\<forall>t'. t \<le> t' \<and> t' < nat (T w) \<longrightarrow> valids L ! t ! i = Fin 0
            \<longrightarrow> valids L ! t' ! i = Fin 0)"
    by (simp add: mask_ok_def len)
  have mono: "valids L ! t' ! i = Fin 0"
    if "t \<le> t'" "t' < nat (T w)" "valids L ! t ! i = Fin 0" for t t'
  proof -
    from that have "t < nat (T w)" by simp
    with rows that show ?thesis by blast
  qed
  from rows mono len show ?thesis unfolding myv by blast
qed

theorem validity_mask_nonincreasing_witness:
  "generate_rollouts_episode demo_ops demo_goal demo_skill False demo_worker
     = Inr (demo_episode, demo_after)
   \<and> (0::nat) < rollout_batch_size demo_worker
   \<and> ep_myv demo_episode ! 0 ! 0 = Fin 1
   \<and> ep_myv demo_episode ! 1 ! 0 = Fin 0
   \<and> ep_myv demo_episode ! 2 ! 0 = Fin 0
   \<and> length (ep_myv demo_episode) = 3"
proof -
  have i: "(0::nat) < rollout_batch_size demo_worker" by (simp add: demo_worker_def)
  have h: "nat (T demo_worker) = 3" by (simp add: demo_worker_def)
  have first: "ep_myv demo_episode ! 0 ! 0 = Fin 1" and second: "ep_myv demo_episode ! 1 ! 0 = Fin 0"
    by (simp_all add: demo_episode_def)
  note mono = validity_mask_nonincreasing [OF demo_run i, unfolded h]
  from mono have len: "length (ep_myv demo_episode) = 3" by blast
  from mono have "(1::nat) \<le> 2 \<and> (2::nat) < 3 \<and> ep_myv demo_episode ! 1 ! 0 = Fin 0
      \<longrightarrow> ep_myv demo_episode ! 2 ! 0 = Fin 0" by blast
  with second have third: "ep_myv demo_episode ! 2 ! 0 = Fin 0" by simp
  from demo_run i first second third len show ?thesis by blast
qed

section \<open>The accumulated return (claim C4)\<close>

text \<open>
  Claim C4. The value that a completed call appends to the return history is the mean,
  over the environments, of the accumulated returns; the accumulated return of
  environment \<open>i\<close> is \<open>masked_return\<close>: the rewards \<open>myr[t][i]\<close> of the recorded episode at
  the timesteps \<open>t\<close> whose recorded validity flag \<open>myv[t][i]\<close> is true, added up in the
  order of the timesteps, and nothing else.
\<close>

theorem return_sums_valid_rewards:
  assumes "generate_rollouts_episode ops generated_goal z_s_onehot random_action w = Inr (ep, w')"
  shows "return_history w' =
     deque_append (history_len w)
       (np_mean (map (masked_return (ep_myr ep) (ep_myv ep)) [0..<rollout_batch_size w]))
       (return_history w)"
proof -
  from assms obtain w1 z_rows w2 L where
    inv: "loop_inv w1 z_rows (nat (T w)) (nat (T w)) (w2, L)"
    and fin: "finish w2 L = Inr (ep, w')"
    and cfg: "config w1 = config w" and st: "stats w1 = stats w"
    by (rule completed_run)
  from cfg have n: "rollout_batch_size w1 = rollout_batch_size w"
    and h: "history_len w1 = history_len w" by (simp_all add: config_def)
  from inv have cfg2: "config w2 = config w1" and st2: "stats w2 = stats w1"
    and len: "length (returns L) = rollout_batch_size w"
    and ret: "\<forall>i<rollout_batch_size w. returns L ! i = masked_return (rewards L) (valids L) i"
    by (simp_all add: loop_inv_def shaped_def n)
  from cfg2 h have h2: "history_len w2 = history_len w" by (simp add: config_def)
  from st st2 have rh: "return_history w2 = return_history w" by (simp add: stats_def)
  from finish_Inr(1) [OF fin] have ep: "ep_myr ep = rewards L" "ep_myv ep = valids L"
    by simp_all
  have "returns L = map (masked_return (rewards L) (valids L)) [0..<rollout_batch_size w]"
    using len ret by (intro nth_equalityI) simp_all
  with finish_Inr(7) [OF fin] show ?thesis by (simp add: ep h2 rh)
qed

theorem return_sums_valid_rewards_witness:
  "generate_rollouts_episode demo_ops demo_goal demo_skill False demo_worker
     = Inr (demo_episode, demo_after)
   \<and> map (masked_return (ep_myr demo_episode) (ep_myv demo_episode)) [0..<2] = [Fin 1, Fin 3]
   \<and> return_history demo_after = [Fin 2]"
proof -
  have m: "map (masked_return (ep_myr demo_episode) (ep_myv demo_episode)) [0..<2]
      = [Fin 1, Fin 3]"
    by (simp add: masked_return_def demo_episode_def upt_2 upt_3)
  have n: "rollout_batch_size demo_worker = 2" "history_len demo_worker = 100"
    "return_history demo_worker = []"
    by (simp_all add: demo_worker_def)
  from return_sums_valid_rewards [OF demo_run]
  have "return_history demo_after = [Fin 2]"
    by (simp add: n m np_mean_def np_sum_def deque_append_def)
  with demo_run m show ?thesis by blast
qed

section \<open>Generated goals (claim C6)\<close>

text \<open>
  The claim as stated has the recorded goal equal to the row of \<^verbatim>\<open>generated_goal\<close>. The
  goal buffer \<^verbatim>\<open>self.g\<close> is float32: with the goal \<open>2^24 + 1 = 16777217\<close> for environment
  0, the goal recorded at every timestep is \<open>16777216\<close>.
\<close>

theorem generated_goal_rounded_counterexample:
  "is_dict (fst (env_reset demo_ops (0, 0)))
   \<and> length ([[Fin 16777217], [Fin 8]] ! 0) = length (g demo_worker ! 0)
   \<and> (case generate_rollouts_episode demo_ops (NdArray [[Fin 16777217], [Fin 8]]) demo_skill
             False demo_worker of
         Inr (ep, w') \<Rightarrow>
           ep_g ep = [[[Fin 16777216], [Fin 8]], [[Fin 16777216], [Fin 8]],
                      [[Fin 16777216], [Fin 8]]]
           \<and> ep_g ep ! 0 ! 0 \<noteq> [[Fin 16777217], [Fin 8]] ! 0
       | Inl e \<Rightarrow> False)"
  by (simp add: generate_rollouts_episode.simps run_defs demo_ops_def demo_worker_def
      demo_skill_def demo_step_def demo_actions_def demo_info_def is_dict_def float32_tie
      upt_2 upt_3 Let_def numeral_2_eq_2 numeral_3_eq_3)

text \<open>
  Claim C6, as the code has it. When \<^verbatim>\<open>generate_rollouts\<close> is called with an array \<open>goal_rows\<close> as
  \<^verbatim>\<open>generated_goal\<close>, every reset returns a dict observation, and row \<open>i\<close> of the array
  has the width of the goal buffer, the recorded episode has one goal array per timestep,
  and the goal \<open>g[t][i]\<close> recorded for environment \<open>i\<close> at timestep \<open>t\<close> is row \<open>i\<close> of
  \<open>goal_rows\<close> converted to float32, whatever goal the reset returned.
\<close>

theorem generated_goal_recorded_float32:
  assumes "generate_rollouts_episode ops (NdArray goal_rows) z_s_onehot random_action w
             = Inr (ep, w')"
    and "\<And>e. is_dict (fst (env_reset ops e))"
    and "i < rollout_batch_size w" and "t < nat (T w)"
    and "length (goal_rows ! i) = length (g w ! i)"
  shows "length (ep_g ep) = nat (T w) \<and> ep_g ep ! t ! i = map float32 (goal_rows ! i)"
proof -
  from assms(1) obtain w1 z_rows w2 L where
    reset: "reset_all_rollouts ops (NdArray goal_rows) w = Inr w1"
    and inv: "loop_inv w1 z_rows (nat (T w)) (nat (T w)) (w2, L)"
    and fin: "finish w2 L = Inr (ep, w')"
    by (rule completed_run)
  from finish_Inr(1) [OF fin] have g: "ep_g ep = goals L" by simp
  from inv have goals: "goals L = replicate (nat (T w)) (g w1)"
    by (simp add: loop_inv_def)
  have i: "i \<in> set [0..<rollout_batch_size w]" using assms(3) by simp
  from reset have loop: "reset_loop ops (NdArray goal_rows) [0..<rollout_batch_size w] w = Inr w1"
    by (simp add: reset_all_rollouts_def)
  from reset_loop_goal [OF loop assms(2) assms(5)] i
  have "g w1 ! i = map float32 (goal_rows ! i)" by simp
  with assms(4) show ?thesis by (simp add: g goals)
qed

theorem generated_goal_recorded_float32_witness:
  "generate_rollouts_episode demo_ops (NdArray [[Fin 7], [Fin 8]]) demo_skill False demo_worker
     = Inr (demo_episode, demo_after)
   \<and> is_dict (fst (env_reset demo_ops (0, 0)))
   \<and> (1::nat) < rollout_batch_size demo_worker \<and> (2::nat) < nat (T demo_worker)
   \<and> length ([[Fin 7], [Fin 8]] ! 1) = length (g demo_worker ! 1)
   \<and> ep_g demo_episode ! 2 ! 1 = map float32 ([[Fin 7], [Fin 8]] ! 1)
   \<and> ep_g demo_episode ! 2 ! 1 = [Fin 8]
   \<and> g demo_worker ! 1 = [Fin 5]"
proof -
  have run: "generate_rollouts_episode demo_ops (NdArray [[Fin 7], [Fin 8]]) demo_skill False
      demo_worker = Inr (demo_episode, demo_after)"
    using demo_run by (simp add: demo_goal_def)
  have i: "(1::nat) < rollout_batch_size demo_worker" and t: "(2::nat) < nat (T demo_worker)"
    and old: "g demo_worker ! 1 = [Fin 5]"
    and wd: "length ([[Fin 7], [Fin 8]] ! 1) = length (g demo_worker ! 1)"
    by (simp_all add: demo_worker_def)
  from generated_goal_recorded_float32 [OF run demo_dict i t wd]
  have rec: "ep_g demo_episode ! 2 ! 1 = map float32 ([[Fin 7], [Fin 8]] ! 1)" by simp
  have val: "ep_g demo_episode ! 2 ! 1 = [Fin 8]" by (simp add: demo_episode_def)
  from run demo_dict [of "(0, 0)"] i t wd rec val old show ?thesis by blast
qed

section \<open>Restarts (claim C1)\<close>

text \<open>
  A call whose loop meets a simulator fault or a NaN observation never returns an
  episode: the restart is \<^verbatim>\<open>self.generate_rollouts()\<close> without arguments, and it raises.
\<close>

lemma fault_never_returns:
  assumes "reset_all_rollouts ops generated_goal w = Inr w1"
    and "start_frame w1 z_s_onehot = Inr L0"
    and "time_loop ops random_action [0..<nat (T w1)] (w1, L0) = Fault s
         \<or> time_loop ops random_action [0..<nat (T w1)] (w1, L0) = NanSeen s"
  shows "\<exists>e. generate_rollouts_episode ops generated_goal z_s_onehot random_action w = Inl e"
proof -
  obtain w2 L where s: "s = (w2, L)" by (cases s)
  from assms(3) show ?thesis
  proof
    assume "time_loop ops random_action [0..<nat (T w1)] (w1, L0) = Fault s"
    with assms(1,2) s restart_raises [of ops PyFalse False w2] show ?thesis
      by (subst generate_rollouts_episode.simps) auto
  next
    assume nan: "time_loop ops random_action [0..<nat (T w1)] (w1, L0) = NanSeen s"
    show ?thesis
    proof (cases "reset_all_rollouts ops PyFalse w2")
      case (Inl e)
      with assms(1,2) s nan show ?thesis
        by (subst generate_rollouts_episode.simps) auto
    next
      case (Inr w3)
      with assms(1,2) s nan restart_raises [of ops PyFalse False w3] show ?thesis
        by (subst generate_rollouts_episode.simps) auto
    qed
  qed
qed

text \<open>
  Claim C1 does not hold of the code. In the first run environment 1 raises a
  \<^verbatim>\<open>MujocoException\<close> at its second step, in the second it returns a NaN observation
  there. The call was made with a goal array and a skill array. Neither run restarts the
  rollout with these inputs and returns an episode: the restart is made with the
  defaults, and \<^verbatim>\<open>z_s_onehot.copy()\<close> on \<^verbatim>\<open>False\<close> raises \<^verbatim>\<open>AttributeError\<close>.
\<close>

theorem restart_raises_attribute_error:
  "generate_rollouts faulty_ops demo_goal demo_skill False demo_worker = Inl AttributeError
   \<and> generate_rollouts nan_ops demo_goal demo_skill False demo_worker = Inl AttributeError"
proof -
  have "generate_rollouts_episode faulty_ops demo_goal demo_skill False demo_worker
      = Inl AttributeError"
    by (simp add: generate_rollouts_episode.simps run_defs faulty_ops_def demo_ops_def
        demo_worker_def demo_goal_def demo_skill_def demo_step_def demo_actions_def
        demo_info_def upt_2 upt_3 Let_def numeral_2_eq_2 numeral_3_eq_3)
  moreover have "generate_rollouts_episode nan_ops demo_goal demo_skill False demo_worker
      = Inl AttributeError"
    by (simp add: generate_rollouts_episode.simps run_defs nan_ops_def demo_ops_def
        demo_worker_def demo_goal_def demo_skill_def demo_step_def demo_actions_def
        demo_info_def upt_2 upt_3 Let_def numeral_2_eq_2 numeral_3_eq_3)
  ultimately show ?thesis by (simp add: generate_rollouts_def)
qed

section \<open>Statistics (claim C10)\<close>

lemma generate_rollouts_Inr:
  assumes "generate_rollouts ops generated_goal z_s_onehot random_action w = Inr (ep, w')"
  obtains ep0 where
    "generate_rollouts_episode ops generated_goal z_s_onehot random_action w = Inr (ep0, w')"
    and "ep = convert_episode_to_batch_major ep0"
  using assms by (auto simp: generate_rollouts_def split: sum.splits)

text \<open>
  Claim C10. A call of \<^verbatim>\<open>generate_rollouts\<close> that returns (such a call made no restart)
  appends one scalar to each of the success, once-success, return and episode-length
  histories, appends one to the Q history when \<^verbatim>\<open>compute_Q\<close> is set and leaves that
  history alone otherwise, and adds \<^verbatim>\<open>rollout_batch_size\<close> to \<^verbatim>\<open>n_episodes\<close>. These six
  fields are all the statistics of the worker; its configuration and its log of warnings
  are unchanged.
\<close>

theorem statistics_updated_once:
  assumes "generate_rollouts ops generated_goal z_s_onehot random_action w = Inr (ep, w')"
  shows "(\<exists>x. success_history w' = deque_append (history_len w) x (success_history w))
    \<and> (\<exists>x. once_success_history w' = deque_append (history_len w) x (once_success_history w))
    \<and> (\<exists>x. return_history w' = deque_append (history_len w) x (return_history w))
    \<and> (\<exists>x. episode_length_history w' =
             deque_append (history_len w) x (episode_length_history w))
    \<and> (compute_Q w \<longrightarrow> (\<exists>x. Q_history w' = deque_append (history_len w) x (Q_history w)))
    \<and> (\<not> compute_Q w \<longrightarrow> Q_history w' = Q_history w)
    \<and> n_episodes w' = n_episodes w + int (rollout_batch_size w)
    \<and> config w' = config w \<and> logger w' = logger w"
proof -
  from assms obtain ep0 where
    run: "generate_rollouts_episode ops generated_goal z_s_onehot random_action w = Inr (ep0, w')"
    by (rule generate_rollouts_Inr)
  from run obtain w1 z_rows w2 L where
    inv: "loop_inv w1 z_rows (nat (T w)) (nat (T w)) (w2, L)"
    and fin: "finish w2 L = Inr (ep0, w')"
    and w1: "config w1 = config w" "stats w1 = stats w" "logger w1 = logger w"
    by (rule completed_run)
  from inv have w2: "config w2 = config w1" "stats w2 = stats w1" "logger w2 = logger w1"
    by (simp_all add: loop_inv_def)
  from w1 w2 have c: "config w2 = config w" and s: "stats w2 = stats w"
    and l: "logger w2 = logger w" by simp_all
  from c have h: "history_len w2 = history_len w" "compute_Q w2 = compute_Q w"
    "rollout_batch_size w2 = rollout_batch_size w" by (simp_all add: config_def)
  from s have st: "success_history w2 = success_history w"
    "once_success_history w2 = once_success_history w"
    "return_history w2 = return_history w"
    "episode_length_history w2 = episode_length_history w"
    "Q_history w2 = Q_history w" "n_episodes w2 = n_episodes w"
    by (simp_all add: stats_def)
  note f = finish_Inr [OF fin, unfolded h st]
  have a: "\<exists>x. success_history w' = deque_append (history_len w) x (success_history w)"
    using f(5) by blast
  have b: "\<exists>x. once_success_history w' =
      deque_append (history_len w) x (once_success_history w)"
    using f(6) by blast
  have d: "\<exists>x. return_history w' = deque_append (history_len w) x (return_history w)"
    using f(7) by blast
  have e: "\<exists>x. episode_length_history w' =
      deque_append (history_len w) x (episode_length_history w)"
    using f(8) by blast
  have q1: "compute_Q w \<longrightarrow> (\<exists>x. Q_history w' = deque_append (history_len w) x (Q_history w))"
    using f(9) by auto
  have q2: "\<not> compute_Q w \<longrightarrow> Q_history w' = Q_history w"
    using f(9) by auto
  from a b d e q1 q2 f(10) f(3) f(4) c l show ?thesis by simp
qed

lemma demo_full_run:
  "generate_rollouts demo_ops demo_goal demo_skill False demo_worker
     = Inr (convert_episode_to_batch_major demo_episode, demo_after)"
  by (simp add: generate_rollouts_def demo_run)

theorem statistics_updated_once_witness:
  "generate_rollouts demo_ops demo_goal demo_skill False demo_worker
     = Inr (convert_episode_to_batch_major demo_episode, demo_after)
   \<and> compute_Q demo_worker
   \<and> length (success_history demo_after) = 1 \<and> length (once_success_history demo_after) = 1
   \<and> length (return_history demo_after) = 1 \<and> length (episode_length_history demo_after) = 1
   \<and> length (Q_history demo_after) = 1
   \<and> n_episodes demo_after = 2 \<and> config demo_after = config demo_worker"
proof -
  have d: "compute_Q demo_worker" "history_len demo_worker = 100"
    "success_history demo_worker = []" "once_success_history demo_worker = []"
    "return_history demo_worker = []" "episode_length_history demo_worker = []"
    "Q_history demo_worker = []" "n_episodes demo_worker = 0"
    "rollout_batch_size demo_worker = 2"
    by (simp_all add: demo_worker_def)
  from statistics_updated_once [OF demo_full_run]
  have "length (success_history demo_after) = 1 \<and> length (once_success_history demo_after) = 1
   \<and> length (return_history demo_after) = 1 \<and> length (episode_length_history demo_after) = 1
   \<and> length (Q_history demo_after) = 1
   \<and> n_episodes demo_after = 2 \<and> config demo_after = config demo_worker"
    by (auto simp: d deque_append_def)
  with demo_full_run d(1) show ?thesis by blast
qed

section \<open>Episode shapes (claim C2)\<close>

lemma swapaxes_shape:
  assumes "rows \<noteq> []" and "rows_of_len n rows"
  shows "length (swapaxes rows) = n \<and> rows_of_len (length rows) (swapaxes rows)"
  using assms by (cases rows) (simp_all add: swapaxes_def rows_of_len_def list_all_iff)

text \<open>The entry of timestep \<open>t\<close> and environment \<open>b\<close> is found at \<open>[b][t]\<close> after the conversion.\<close>

lemma swapaxes_nth:
  assumes "rows_of_len n rows" and "b < n" and "t < length rows"
  shows "swapaxes rows ! b ! t = rows ! t ! b"
proof (cases rows)
  case Nil
  with assms(3) show ?thesis by simp
next
  case (Cons r rest)
  with assms(1) have n: "length r = n" by (simp add: rows_of_len_def)
  have "swapaxes rows ! b = map (\<lambda>row. row ! b) rows"
    using assms(2) n Cons by (simp add: swapaxes_def)
  with assms(3) show ?thesis by simp
qed

lemma rows_of_len_replicate: "length row = n \<Longrightarrow> rows_of_len n (replicate k row)"
  by (simp add: rows_of_len_def list_all_iff)

lemma add_info_range:
  "add_info kvs m key = Some v \<Longrightarrow> m key = Some v \<or> v \<in> snd ` set kvs"
proof (induction kvs arbitrary: m)
  case Nil
  then show ?case by simp
next
  case (Cons kv kvs)
  obtain k x where kv: "kv = (k, x)" by (cases kv)
  from Cons.prems kv have "add_info kvs (m(''info_'' @ k \<mapsto> x)) key = Some v" by simp
  from Cons.IH [OF this] kv show ?case by (auto split: if_splits)
qed

text \<open>With a policy that returns one action row per observation row, so do the recorded actions.\<close>

lemma acts_step:
  assumes inv: "loop_inv w0 z0 horizon k s"
    and acts: "rows_of_len (rollout_batch_size w0) (acts (snd s))"
    and step: "rollout_step ops random_action t s = Next s'"
    and pol: "\<And>p a. length (action_rows (fst (fst (get_actions ops p a)))) = length (arg_o a)"
  shows "rows_of_len (rollout_batch_size w0) (acts (snd s'))"
proof -
  obtain w L where s: "s = (w, L)" by (cases s)
  obtain w1 L1 where s': "s' = (w1, L1)" by (cases s')
  let ?n = "rollout_batch_size w0"
  from inv s have cfg: "config w = config w0" and sh: "shaped ?n k L"
    by (simp_all add: loop_inv_def)
  from cfg have n: "rollout_batch_size w = ?n" by (simp add: config_def)
  from sh have lens: "length (returns L) = rollout_batch_size w"
    "length (lengths L) = rollout_batch_size w"
    "length (once_successes L) = rollout_batch_size w"
    and o: "length (o_arr L) = ?n"
    by (simp_all add: shaped_def n)
  from step s s' have step': "rollout_step ops random_action t (w, L) = Next (w1, L1)" by simp
  from step' lens obtain policy_u policy_Q L2 where
    act: "fst (get_actions ops (policy w) (policy_call w random_action L)) = (policy_u, policy_Q)"
    and L1: "L1 = end_step (action_rows policy_u) (g w) L2"
    and b: "bufs L2 = bufs L"
    by (rule rollout_step_effect)
  from pol [of "policy w" "policy_call w random_action L"] act o
  have u: "length (action_rows policy_u) = ?n" by (simp add: policy_call_def)
  from b have "acts L2 = acts L" by (simp add: bufs_def)
  with acts s u show ?thesis
    by (simp add: s' L1 end_step_def rows_of_len_snoc)
qed

lemma time_loop_acts:
  assumes loop: "time_loop ops random_action ts s = Next s1"
    and inv: "loop_inv w0 z0 horizon 0 s"
    and acts: "rows_of_len (rollout_batch_size w0) (acts (snd s))"
    and pol: "\<And>p a. length (action_rows (fst (fst (get_actions ops p a)))) = length (arg_o a)"
  shows "rows_of_len (rollout_batch_size w0) (acts (snd s1))"
proof -
  let ?P = "\<lambda>k s. loop_inv w0 z0 horizon k s \<and> rows_of_len (rollout_batch_size w0) (acts (snd s))"
  have "?P (0 + length ts) s1"
  proof (rule time_loop_counted [where P = ?P, OF loop])
    show "?P 0 s" using inv acts by simp
  next
    fix t k s s'
    assume "?P k s" and "rollout_step ops random_action t s = Next s'"
    then show "?P (Suc k) s'"
      using loop_inv_step acts_step [OF _ _ _ pol] by blast
  qed
  then show ?thesis by simp
qed

text \<open>
  Claim C2. Let a call of \<^verbatim>\<open>generate_rollouts\<close> with horizon \<open>T\<close> return an episode, where
  the skill array has one row per environment, the goal buffer of the worker has one row
  per environment (as \<^verbatim>\<open>__init__\<close> allocates it), and the policy returns one action row
  per observation row. Then in the returned, batch-major episode the fields o and ag hold
  \<open>T + 1\<close> entries per environment; z, u, g, myr, myd, myv and every info channel hold
  \<open>T\<close>; and every field has \<open>rollout_batch_size\<close> rows. The horizon is positive.
\<close>

theorem episode_shapes:
  assumes run: "generate_rollouts ops generated_goal (NdArray z_rows) random_action w
                  = Inr (ep, w')"
    and z: "length z_rows = rollout_batch_size w"
    and g: "length (g w) = rollout_batch_size w"
    and pol: "\<And>p a. length (action_rows (fst (fst (get_actions ops p a)))) = length (arg_o a)"
  shows "0 < T w
    \<and> length (ep_o ep) = rollout_batch_size w \<and> rows_of_len (Suc (nat (T w))) (ep_o ep)
    \<and> length (ep_ag ep) = rollout_batch_size w \<and> rows_of_len (Suc (nat (T w))) (ep_ag ep)
    \<and> length (ep_z ep) = rollout_batch_size w \<and> rows_of_len (nat (T w)) (ep_z ep)
    \<and> length (ep_u ep) = rollout_batch_size w \<and> rows_of_len (nat (T w)) (ep_u ep)
    \<and> length (ep_g ep) = rollout_batch_size w \<and> rows_of_len (nat (T w)) (ep_g ep)
    \<and> length (ep_myr ep) = rollout_batch_size w \<and> rows_of_len (nat (T w)) (ep_myr ep)
    \<and> length (ep_myd ep) = rollout_batch_size w \<and> rows_of_len (nat (T w)) (ep_myd ep)
    \<and> length (ep_myv ep) = rollout_batch_size w \<and> rows_of_len (nat (T w)) (ep_myv ep)
    \<and> (\<forall>key v. ep_info ep key = Some v
          \<longrightarrow> length v = rollout_batch_size w \<and> rows_of_len (nat (T w)) v)"
proof -
  let ?n = "rollout_batch_size w" and ?h = "nat (T w)"
  from run obtain ep0 where
    run0: "generate_rollouts_episode ops generated_goal (NdArray z_rows) random_action w
             = Inr (ep0, w')"
    and ep: "ep = convert_episode_to_batch_major ep0"
    by (rule generate_rollouts_Inr)
  from run0 obtain w1 L0 w2 L where
    reset: "reset_all_rollouts ops generated_goal w = Inr w1"
    and start: "start_frame w1 (NdArray z_rows) = Inr L0"
    and loop: "time_loop ops random_action [0..<nat (T w1)] (w1, L0) = Next (w2, L)"
    and fin: "finish w2 L = Inr (ep0, w')"
    by (rule generate_rollouts_episode_Inr)
  note fr = reset_all_frame [OF reset]
  from fr have n1: "rollout_batch_size w1 = ?n" and T1: "T w1 = T w"
    and g1: "length (g w1) = ?n"
    by (simp_all add: config_def g)
  from start obtain z_rows' where "NdArray z_rows = NdArray z_rows'"
    and inv0: "loop_inv w1 z_rows' (nat (T w1)) 0 (w1, L0)"
    and acts0: "acts L0 = []"
    by (rule start_frame_inv)
  then have inv0: "loop_inv w1 z_rows ?h 0 (w1, L0)" by (simp add: T1)
  from time_loop_inv [OF loop inv0]
  have inv: "loop_inv w1 z_rows ?h ?h (w2, L)" by (simp add: T1)
  have acts: "rows_of_len ?n (acts L)"
    using time_loop_acts [OF loop inv0 _ pol] acts0 by (simp add: n1 rows_of_len_def)
  from inv have sh: "shaped ?n ?h L" and inf: "info_shape ?h ?n (info_values L)"
    and zs: "zs L = replicate ?h z_rows" and goals: "goals L = replicate ?h (g w1)"
    and k2: "info_keys w2 = info_keys w1"
    by (simp_all add: loop_inv_def n1 config_def)
  note f = finish_Inr [OF fin]
  from sh have "length (successes L) = ?h" by (simp add: shaped_def)
  with f(2) have h: "0 < ?h" by (cases "successes L") auto
  then have T: "0 < T w" by simp
  from sh have l: "length (obs L) = ?h" "length (achieved_goals L) = ?h"
    "length (rewards L) = ?h" "length (dones L) = ?h" "length (valids L) = ?h"
    "length (acts L) = ?h" "length (o_arr L) = ?n" "length (ag_arr L) = ?n"
    and r: "rows_of_len ?n (obs L)" "rows_of_len ?n (achieved_goals L)"
    "rows_of_len ?n (rewards L)" "rows_of_len ?n (dones L)" "rows_of_len ?n (valids L)"
    by (simp_all add: shaped_def)
  from l h have ne: "acts L \<noteq> []" "rewards L \<noteq> []" "dones L \<noteq> []" "valids L \<noteq> []"
    by auto
  have o: "length (ep_o ep) = ?n \<and> rows_of_len (Suc ?h) (ep_o ep)"
    using swapaxes_shape [of "obs L @ [o_arr L]" ?n] l r
    by (simp add: ep convert_episode_to_batch_major_def f(1) rows_of_len_snoc)
  have ag: "length (ep_ag ep) = ?n \<and> rows_of_len (Suc ?h) (ep_ag ep)"
    using swapaxes_shape [of "achieved_goals L @ [ag_arr L]" ?n] l r
    by (simp add: ep convert_episode_to_batch_major_def f(1) rows_of_len_snoc)
  have zz: "length (ep_z ep) = ?n \<and> rows_of_len ?h (ep_z ep)"
    using swapaxes_shape [of "replicate ?h z_rows" ?n] h z
    by (simp add: ep convert_episode_to_batch_major_def f(1) zs rows_of_len_replicate)
  have gg: "length (ep_g ep) = ?n \<and> rows_of_len ?h (ep_g ep)"
    using swapaxes_shape [of "replicate ?h (g w1)" ?n] h g1
    by (simp add: ep convert_episode_to_batch_major_def f(1) goals rows_of_len_replicate)
  have u: "length (ep_u ep) = ?n \<and> rows_of_len ?h (ep_u ep)"
    using swapaxes_shape [OF ne(1) acts] l
    by (simp add: ep convert_episode_to_batch_major_def f(1))
  have myr: "length (ep_myr ep) = ?n \<and> rows_of_len ?h (ep_myr ep)"
    using swapaxes_shape [OF ne(2) r(3)] l
    by (simp add: ep convert_episode_to_batch_major_def f(1))
  have myd: "length (ep_myd ep) = ?n \<and> rows_of_len ?h (ep_myd ep)"
    using swapaxes_shape [OF ne(3) r(4)] l
    by (simp add: ep convert_episode_to_batch_major_def f(1))
  have myv: "length (ep_myv ep) = ?n \<and> rows_of_len ?h (ep_myv ep)"
    using swapaxes_shape [OF ne(4) r(5)] l
    by (simp add: ep convert_episode_to_batch_major_def f(1))
  have info: "\<forall>key v. ep_info ep key = Some v \<longrightarrow> length v = ?n \<and> rows_of_len ?h v"
  proof (intro allI impI)
    fix key v assume "ep_info ep key = Some v"
    then obtain v0 where v0: "ep_info ep0 key = Some v0" and v: "v = swapaxes v0"
      by (auto simp: ep convert_episode_to_batch_major_def)
    from v0 f(1) have "add_info (zip (info_keys w2) (info_values L)) Map.empty key = Some v0"
      by simp
    from add_info_range [OF this] have "v0 \<in> set (info_values L)"
      by (auto dest: set_zip_rightD)
    with inf have lv: "length v0 = ?h" and rv: "rows_of_len ?n v0"
      by (simp_all add: info_shape_def rows_of_len_def list_all_iff)
    from lv h have "v0 \<noteq> []" by auto
    from swapaxes_shape [OF this rv] lv show "length v = ?n \<and> rows_of_len ?h v"
      by (simp add: v)
  qed
  from T o ag zz u gg myr myd myv info show ?thesis by blast
qed

theorem episode_shapes_witness:
  "generate_rollouts demo_ops demo_goal (NdArray [[Fin 1, Fin 0], [Fin 0, Fin 1]]) False
     demo_worker = Inr (convert_episode_to_batch_major demo_episode, demo_after)
   \<and> length [[Fin 1, Fin 0], [Fin 0, Fin 1 :: npfloat]] = rollout_batch_size demo_worker
   \<and> length (g demo_worker) = rollout_batch_size demo_worker
   \<and> rollout_batch_size demo_worker = 2 \<and> nat (T demo_worker) = 3
   \<and> length (ep_o (convert_episode_to_batch_major demo_episode)) = 2
   \<and> rows_of_len 4 (ep_o (convert_episode_to_batch_major demo_episode))
   \<and> length (ep_myv (convert_episode_to_batch_major demo_episode)) = 2
   \<and> rows_of_len 3 (ep_myv (convert_episode_to_batch_major demo_episode))
   \<and> ep_myv (convert_episode_to_batch_major demo_episode)
       = [[Fin 1, Fin 0, Fin 0], [Fin 1, Fin 1, Fin 1]]"
proof -
  have run: "generate_rollouts demo_ops demo_goal (NdArray [[Fin 1, Fin 0], [Fin 0, Fin 1]])
      False demo_worker = Inr (convert_episode_to_batch_major demo_episode, demo_after)"
    using demo_full_run by (simp add: demo_skill_def)
  have z: "length [[Fin 1, Fin 0], [Fin 0, Fin 1 :: npfloat]] = rollout_batch_size demo_worker"
    and g: "length (g demo_worker) = rollout_batch_size demo_worker"
    and n: "rollout_batch_size demo_worker = 2" and h: "nat (T demo_worker) = 3"
    by (simp_all add: demo_worker_def)
  have pol: "length (action_rows (fst (fst (get_actions demo_ops p a)))) = length (arg_o a)"
    for p a
    by (simp add: demo_ops_def demo_actions_def action_rows_def)
  note s = episode_shapes [OF run z g pol, unfolded n h]
  have v: "ep_myv (convert_episode_to_batch_major demo_episode)
       = [[Fin 1, Fin 0, Fin 0], [Fin 1, Fin 1, Fin 1]]"
    by (simp add: convert_episode_to_batch_major_def demo_episode_def swapaxes_def upt_2)
  from s have "length (ep_o (convert_episode_to_batch_major demo_episode)) = 2
   \<and> rows_of_len 4 (ep_o (convert_episode_to_batch_major demo_episode))
   \<and> length (ep_myv (convert_episode_to_batch_major demo_episode)) = 2
   \<and> rows_of_len 3 (ep_myv (convert_episode_to_batch_major demo_episode))"
    by simp
  with run z g n h v show ?thesis by blast
qed

text \<open>
  The hypothesis on the goal buffer is an invariant of the class: \<^verbatim>\<open>__init__\<close> allocates one
  row per environment, and a call of \<^verbatim>\<open>generate_rollouts\<close> that returns keeps the number
  of rows.
\<close>

lemma init_goal_rows:
  assumes "rollout_worker_init ops factory pol dms lg horizon batch expl target cq noise rnd hist
             = Inr w"
  shows "length (g w) = rollout_batch_size w"
proof -
  from assms obtain dim_g dim_o w1 where
    reset: "reset_all_rollouts ops PyFalse
        \<lparr>envs = map factory [0..<batch], policy = pol, dims = dms, logger = lg, T = horizon,
         rollout_batch_size = batch, exploit = expl, use_target_net = target,
         compute_Q = cq, noise_eps = noise, random_eps = rnd, history_len = hist,
         info_keys = map (remove_all ''info_'')
                       (filter (\<lambda>key. startswith key ''info_'') (map fst dms)),
         success_history = [], Q_history = [], episode_length_history = [],
         once_success_history = [], return_history = [], n_episodes = 0,
         g = np_empty batch dim_g, initial_o = np_empty batch dim_o,
         initial_ag = np_empty batch dim_g\<rparr> = Inr w1"
    and w: "w = clear_history w1"
    by (auto simp: rollout_worker_init_def Let_def then_do_Inr split: if_splits)
  from reset_all_frame [OF reset] w show ?thesis
    by (simp add: config_def clear_history_def np_empty_def)
qed

lemma finish_goal: "finish w L = Inr (ep, w1) \<Longrightarrow> g w1 = g w"
  by (auto simp: finish_def Let_def split: if_splits)

lemma generate_rollouts_goal_rows:
  assumes "generate_rollouts ops generated_goal z_s_onehot random_action w = Inr (ep, w')"
    and "length (g w) = rollout_batch_size w"
  shows "length (g w') = rollout_batch_size w'"
proof -
  from assms(1) obtain ep0 where
    run: "generate_rollouts_episode ops generated_goal z_s_onehot random_action w = Inr (ep0, w')"
    by (rule generate_rollouts_Inr)
  from run obtain w1 z_rows w2 L where
    inv: "loop_inv w1 z_rows (nat (T w)) (nat (T w)) (w2, L)"
    and fin: "finish w2 L = Inr (ep0, w')"
    and cfg: "config w1 = config w" and len: "length (g w1) = length (g w)"
    by (rule completed_run)
  from inv have "g w2 = g w1" "config w2 = config w1" by (simp_all add: loop_inv_def)
  with finish_goal [OF fin] finish_Inr(3) [OF fin] cfg len assms(2) show ?thesis
    by (simp add: config_def)
qed

section \<open>The environment cache (claim C9)\<close>

lemma cached_make_env_hit:
  "CACHED_ENVS pr f = Some env \<Longrightarrow> cached_make_env cops f pr = (Inr env, pr)"
  by (simp add: cached_make_env_def)

lemma cached_make_env_Inr:
  assumes "cached_make_env cops f pr = (Inr env, pr1)"
  shows "CACHED_ENVS pr1 f = Some env"
    and "CACHED_ENVS pr f' = Some env' \<Longrightarrow>
           CACHED_ENVS pr1 f' = Some env' \<and> count_list (invoked pr1) f' = count_list (invoked pr) f'"
proof -
  from assms have c: "(CACHED_ENVS pr f = Some env \<and> pr1 = pr)
      \<or> (CACHED_ENVS pr f = None \<and> CACHED_ENVS pr1 = (CACHED_ENVS pr)(f \<mapsto> env)
          \<and> invoked pr1 = invoked pr @ [f])"
    by (auto simp: cached_make_env_def Let_def
        split: if_splits prod.splits sum.splits option.splits)
  from c show "CACHED_ENVS pr1 f = Some env" by auto
  show "CACHED_ENVS pr1 f' = Some env' \<and> count_list (invoked pr1) f' = count_list (invoked pr) f'"
    if "CACHED_ENVS pr f' = Some env'"
    using c that by auto
qed

text \<open>A call that raises was a call of the factory, and it stores nothing in the cache.\<close>

lemma cached_make_env_Inl:
  assumes "cached_make_env cops f pr = (Inl e, pr1)"
  shows "CACHED_ENVS pr1 = CACHED_ENVS pr"
    and "CACHED_ENVS pr f = None" and "invoked pr1 = invoked pr @ [f]"
  using assms
  by (auto simp: cached_make_env_def Let_def split: if_splits prod.splits sum.splits option.splits)

text \<open>A cached factory stays cached and is not called again, whatever follows.\<close>

lemma run_keeps_cached:
  "CACHED_ENVS pr f = Some env \<Longrightarrow>
     CACHED_ENVS (run cops todo pr) f = Some env
     \<and> count_list (invoked (run cops todo pr)) f = count_list (invoked pr) f"
proof (induction cops todo pr rule: run.induct)
  case (1 cops pr)
  then show ?case by simp
next
  case (2 cops k rest pr)
  obtain res pr0 where call: "cached_make_env cops k pr = (res, pr0)"
    by (cases "cached_make_env cops k pr")
  have keep: "CACHED_ENVS pr0 f = Some env
      \<and> count_list (invoked pr0) f = count_list (invoked pr) f"
  proof (cases res)
    case (Inl e)
    with call have c: "cached_make_env cops k pr = (Inl e, pr0)" by simp
    from cached_make_env_Inl [OF c] "2.prems" have "k \<noteq> f" by auto
    with cached_make_env_Inl [OF c] "2.prems" show ?thesis by simp
  next
    case (Inr env0)
    with call have c: "cached_make_env cops k pr = (Inr env0, pr0)" by simp
    from cached_make_env_Inr(2) [OF c "2.prems"] show ?thesis .
  qed
  from keep have "CACHED_ENVS (snd (cached_make_env cops k pr)) f = Some env"
    by (simp add: call)
  from "2.IH" [OF this] keep show ?case by (simp add: call)
next
  case (3 cops change rest pr)
  then show ?case by simp
qed

text \<open>
  A factory that does not raise is called when the cache has no entry for it, and has an
  entry from then on.
\<close>

lemma cached_make_env_once:
  assumes "\<And>h. \<exists>env h'. call_factory cops f h = (Inr env, h')"
    and "count_list (invoked pr) f \<le> (if CACHED_ENVS pr f = None then 0 else 1)"
  shows "count_list (invoked (snd (cached_make_env cops k pr))) f
    \<le> (if CACHED_ENVS (snd (cached_make_env cops k pr)) f = None then 0 else 1)"
proof (cases "CACHED_ENVS pr k")
  case (Some env)
  with assms(2) show ?thesis by (simp add: cached_make_env_def)
next
  case None
  obtain res h where cf: "call_factory cops k (heap pr) = (res, h)"
    by (cases "call_factory cops k (heap pr)")
  show ?thesis
  proof (cases res)
    case (Inl e)
    with cf assms(1) [of "heap pr"] have "k \<noteq> f" by auto
    with None cf Inl assms(2) show ?thesis by (simp add: cached_make_env_def)
  next
    case (Inr env)
    with None cf assms(2) show ?thesis
      by (cases "k = f") (simp_all add: cached_make_env_def Let_def)
  qed
qed

lemma run_calls_once:
  "(\<And>h. \<exists>env h'. call_factory cops f h = (Inr env, h')) \<Longrightarrow>
   count_list (invoked pr) f \<le> (if CACHED_ENVS pr f = None then 0 else 1) \<Longrightarrow>
     count_list (invoked (run cops todo pr)) f \<le> 1"
proof (induction cops todo pr rule: run.induct)
  case (1 cops pr)
  from "1.prems"(2) show ?case by (simp split: if_splits)
next
  case (2 cops k rest pr)
  have ok: "\<exists>env h'. call_factory cops f h = (Inr env, h')" for h by (rule "2.prems"(1))
  from "2.IH" [OF ok cached_make_env_once [OF ok "2.prems"(2)]] show ?case by simp
next
  case (3 cops change rest pr)
  have ok: "\<exists>env h'. call_factory cops f h = (Inr env, h')" for h by (rule "3.prems"(1))
  from "3.IH" [OF ok] "3.prems"(2) show ?case by simp
qed

text \<open>
  The claim as stated has no factory called a second time. Factory 0 of the example
  raises: the first call of \<open>cached_make_env\<close> with it raises and caches nothing, and the
  second call invokes the factory again.
\<close>

theorem failed_factory_invoked_again_counterexample:
  "CACHED_ENVS fresh_process = Map.empty \<and> invoked fresh_process = []
   \<and> cached_make_env demo_config_ops 0 fresh_process
       = (Inl FactoryError, \<lparr>CACHED_ENVS = Map.empty, heap = 0, invoked = [0]\<rparr>)
   \<and> cached_make_env demo_config_ops 0 \<lparr>CACHED_ENVS = Map.empty, heap = 0, invoked = [0]\<rparr>
       = (Inl FactoryError, \<lparr>CACHED_ENVS = Map.empty, heap = 0, invoked = [0, 0]\<rparr>)
   \<and> invoked (run demo_config_ops [CallCached 0, CallCached 0] fresh_process) = [0, 0]
   \<and> \<not> count_list (invoked (run demo_config_ops [CallCached 0, CallCached 0] fresh_process)) 0
         \<le> 1"
  by (simp add: cached_make_env_def demo_config_ops_def fresh_process_def)

text \<open>
  Claim C9, as the code has it. Once a call \<open>cached_make_env(f)\<close> has returned an environment, every
  later call with \<open>f\<close> in the process returns that same environment and leaves the process
  as it is, so \<open>f\<close> is not called again, whatever the process did in between. A call in
  which the factory raises is a call of the factory that stores nothing in the cache. In
  a process that starts with the empty cache, a factory that does not raise is called at
  most once, whatever sequence of entry points runs.
\<close>

theorem cached_make_env_memoizes_success:
  "(cached_make_env cops f pr = (Inr env, pr1)
      \<longrightarrow> cached_make_env cops f (run cops todo pr1) = (Inr env, run cops todo pr1)
          \<and> count_list (invoked (run cops todo pr1)) f = count_list (invoked pr1) f)
   \<and> (cached_make_env cops f pr = (Inl e, pr1)
      \<longrightarrow> CACHED_ENVS pr1 = CACHED_ENVS pr \<and> CACHED_ENVS pr1 f = None
          \<and> invoked pr1 = invoked pr @ [f])
   \<and> (CACHED_ENVS pr0 = Map.empty \<and> invoked pr0 = []
        \<and> (\<forall>h. \<exists>env h'. call_factory cops f h = (Inr env, h'))
      \<longrightarrow> count_list (invoked (run cops todo' pr0)) f \<le> 1)"
proof (intro conjI impI)
  assume call: "cached_make_env cops f pr = (Inr env, pr1)"
  note k = run_keeps_cached [OF cached_make_env_Inr(1) [OF call], of cops todo]
  from k have c: "CACHED_ENVS (run cops todo pr1) f = Some env" by simp
  from cached_make_env_hit [OF c]
  show "cached_make_env cops f (run cops todo pr1) = (Inr env, run cops todo pr1)" .
  from k show "count_list (invoked (run cops todo pr1)) f = count_list (invoked pr1) f"
    by simp
next
  assume call: "cached_make_env cops f pr = (Inl e, pr1)"
  note l = cached_make_env_Inl [OF call]
  from l(1) show "CACHED_ENVS pr1 = CACHED_ENVS pr" .
  from l(1,2) show "CACHED_ENVS pr1 f = None" by simp
  from l(3) show "invoked pr1 = invoked pr @ [f]" .
next
  assume a: "CACHED_ENVS pr0 = Map.empty \<and> invoked pr0 = []
      \<and> (\<forall>h. \<exists>env h'. call_factory cops f h = (Inr env, h'))"
  then have ok: "\<exists>env h'. call_factory cops f h = (Inr env, h')" for h by simp
  show "count_list (invoked (run cops todo' pr0)) f \<le> 1"
    by (rule run_calls_once [OF ok]) (use a in simp)
qed

theorem cached_make_env_memoizes_success_witness:
  "cached_make_env demo_config_ops 1 fresh_process
     = (Inr 1, \<lparr>CACHED_ENVS = [1 \<mapsto> 1], heap = 1, invoked = [1]\<rparr>)
   \<and> run demo_config_ops [CallCached 0, CallCached 2, Other (\<lambda>h. h + 1), CallCached 1]
       \<lparr>CACHED_ENVS = [1 \<mapsto> 1], heap = 1, invoked = [1]\<rparr>
     = \<lparr>CACHED_ENVS = [1 \<mapsto> 1, 2 \<mapsto> 3], heap = 3, invoked = [1, 0, 2]\<rparr>
   \<and> cached_make_env demo_config_ops 1
       \<lparr>CACHED_ENVS = [1 \<mapsto> 1, 2 \<mapsto> 3], heap = 3, invoked = [1, 0, 2]\<rparr>
     = (Inr 1, \<lparr>CACHED_ENVS = [1 \<mapsto> 1, 2 \<mapsto> 3], heap = 3, invoked = [1, 0, 2]\<rparr>)
   \<and> cached_make_env demo_config_ops 0 fresh_process
     = (Inl FactoryError, \<lparr>CACHED_ENVS = Map.empty, heap = 0, invoked = [0]\<rparr>)
   \<and> CACHED_ENVS fresh_process = Map.empty \<and> invoked fresh_process = []
   \<and> (\<forall>h. \<exists>env h'. call_factory demo_config_ops 1 h = (Inr env, h'))
   \<and> invoked (run demo_config_ops [CallCached 1, CallCached 0, CallCached 1, CallCached 0,
         CallCached 1] fresh_process) = [1, 0, 0]
   \<and> count_list [1, 0, 0 :: nat] 1 \<le> 1"
proof -
  let ?p1 = "\<lparr>CACHED_ENVS = [1 \<mapsto> 1], heap = 1, invoked = [1]\<rparr> :: (nat, nat, nat) process"
  let ?p2 = "\<lparr>CACHED_ENVS = [1 \<mapsto> 1, 2 \<mapsto> 3], heap = 3, invoked = [1, 0, 2]\<rparr>
      :: (nat, nat, nat) process"
  let ?p3 = "\<lparr>CACHED_ENVS = Map.empty, heap = 0, invoked = [0]\<rparr> :: (nat, nat, nat) process"
  let ?todo = "[CallCached 0, CallCached 2, Other (\<lambda>h. h + 1), CallCached 1]
      :: (nat, nat) action list"
  let ?todo' = "[CallCached 1, CallCached 0, CallCached 1, CallCached 0, CallCached 1]
      :: (nat, nat) action list"
  have first: "cached_make_env demo_config_ops 1 fresh_process = (Inr 1, ?p1)"
    by (simp add: cached_make_env_def demo_config_ops_def fresh_process_def)
  have later: "run demo_config_ops ?todo ?p1 = ?p2"
    by (simp add: cached_make_env_def demo_config_ops_def eval_nat_numeral)
  have failed: "cached_make_env demo_config_ops 0 fresh_process = (Inl FactoryError, ?p3)"
    by (simp add: cached_make_env_def demo_config_ops_def fresh_process_def)
  have fresh: "CACHED_ENVS fresh_process = Map.empty" "invoked fresh_process = []"
    by (simp_all add: fresh_process_def)
  have returns: "\<forall>h. \<exists>env h'. call_factory demo_config_ops 1 h = (Inr env, h')"
    by (simp add: demo_config_ops_def)
  have whole: "invoked (run demo_config_ops ?todo' fresh_process) = [1, 0, 0]"
    by (simp add: cached_make_env_def demo_config_ops_def fresh_process_def)
  note m1 = cached_make_env_memoizes_success [where cops = demo_config_ops and f = 1
      and pr = fresh_process and env = 1 and ?pr1.0 = ?p1 and todo = ?todo,
      THEN conjunct1]
  note m2 = cached_make_env_memoizes_success [where cops = demo_config_ops and f = 0
      and pr = fresh_process and e = FactoryError and ?pr1.0 = ?p3,
      THEN conjunct2, THEN conjunct1]
  note m3 = cached_make_env_memoizes_success [where cops = demo_config_ops and f = 1
      and ?pr0.0 = fresh_process and todo' = ?todo',
      THEN conjunct2, THEN conjunct2]
  from m1 first have "cached_make_env demo_config_ops 1 (run demo_config_ops ?todo ?p1)
      = (Inr 1, run demo_config_ops ?todo ?p1)" by blast
  then have again: "cached_make_env demo_config_ops 1 ?p2 = (Inr 1, ?p2)"
    by (simp only: later)
  from m2 failed have "invoked ?p3 = invoked fresh_process @ [0]" by blast
  from m3 fresh returns
  have "count_list (invoked (run demo_config_ops ?todo' fresh_process)) 1 \<le> 1" by blast
  then have once: "count_list [1, 0, 0 :: nat] 1 \<le> 1" by (simp only: whole)
  from first later again failed fresh returns whole once show ?thesis by blast
qed

section \<open>The horizon (claim C8)\<close>

lemma move_params_keeps:
  "move_params names kwargs ddpg_params = Inr (kwargs1, ddpg_params1) \<Longrightarrow>
   key \<notin> set names \<Longrightarrow> key \<notin> (\<lambda>name. ''_'' @ name) ` set names \<Longrightarrow>
     kwargs1 key = kwargs key"
proof (induction names arbitrary: kwargs ddpg_params)
  case Nil
  then show ?case by simp
next
  case (Cons name names)
  from Cons.prems(1) obtain v where
    rest: "move_params names ((kwargs(''_'' @ name \<mapsto> v))(name := None))
             (ddpg_params @ [(name, v)]) = Inr (kwargs1, ddpg_params1)"
    by (auto split: option.splits)
  from Cons.IH [OF rest] Cons.prems(2,3) show ?case by auto
qed

lemma horizon_key_kept:
  "''T'' \<notin> set ddpg_names" "''T'' \<notin> (\<lambda>name. ''_'' @ name) ` set ddpg_names"
  by (auto simp: ddpg_names_def)

lemma prepare_params_Inr:
  assumes "prepare_params cops make_env kwargs pr = (Inr kwargs1, pr1)"
  obtains tmp_env pr0 steps where
    "cached_make_env cops make_env pr = (Inr tmp_env, pr0)"
    and "max_episode_steps cops tmp_env (heap pr0) = Some steps"
    and "kwargs1 ''T'' = Some (PyInt steps)"
proof -
  from assms obtain env_name tmp_env pr0 steps max_u kwargs6 ddpg_params where
    call: "cached_make_env cops make_env pr = (Inr tmp_env, pr0)"
    and attr: "max_episode_steps cops tmp_env (heap pr0) = Some steps"
    and mv: "move_params ddpg_names
        (case ((kwargs(''make_env'' \<mapsto> PyFun make_env, ''T'' \<mapsto> PyInt steps,
                  ''max_u'' \<mapsto> (case max_u of PyList xs \<Rightarrow> PyArray xs | _ \<Rightarrow> max_u),
                  ''gamma'' \<mapsto> PyFloat (1 - 1 / real_of_int steps))) ''lr'') of
           Some lr \<Rightarrow>
             ((kwargs(''make_env'' \<mapsto> PyFun make_env, ''T'' \<mapsto> PyInt steps,
                  ''max_u'' \<mapsto> (case max_u of PyList xs \<Rightarrow> PyArray xs | _ \<Rightarrow> max_u),
                  ''gamma'' \<mapsto> PyFloat (1 - 1 / real_of_int steps)))
               (''pi_lr'' \<mapsto> lr, ''Q_lr'' \<mapsto> lr, ''sk_lr'' \<mapsto> lr))(''lr'' := None)
         | None \<Rightarrow>
             (kwargs(''make_env'' \<mapsto> PyFun make_env, ''T'' \<mapsto> PyInt steps,
                  ''max_u'' \<mapsto> (case max_u of PyList xs \<Rightarrow> PyArray xs | _ \<Rightarrow> max_u),
                  ''gamma'' \<mapsto> PyFloat (1 - 1 / real_of_int steps)))) []
        = Inr (kwargs6, ddpg_params)"
    and out: "kwargs1 = kwargs6(''ddpg_params'' \<mapsto> PyDict ddpg_params)"
    by (auto simp: prepare_params_def Let_def
        split: option.splits prod.splits sum.splits if_splits)
  from move_params_keeps [OF mv horizon_key_kept]
  have "kwargs6 ''T'' = Some (PyInt steps)" by (simp split: option.splits)
  with out have "kwargs1 ''T'' = Some (PyInt steps)" by simp
  with call attr show thesis by (rule that)
qed

text \<open>
  Claim C8. When the environment that \<^verbatim>\<open>prepare_params\<close> obtains from the cache has no
  attribute \<^verbatim>\<open>_max_episode_steps\<close>, \<^verbatim>\<open>prepare_params\<close> raises \<^verbatim>\<open>AssertionError\<close> at once
  (the process is left as \<^verbatim>\<open>cached_make_env\<close> left it; no rollout has run). When
  \<^verbatim>\<open>prepare_params\<close> returns, the entry \<^verbatim>\<open>T\<close> of the parameters is the value of that
  attribute. The constructor of the worker raises \<^verbatim>\<open>AssertionError\<close> unless \<open>T > 0\<close>,
  and a worker it returns has that \<open>T\<close> as its horizon.
\<close>

theorem horizon_from_environment:
  "(kwargs ''env_name'' = Some env_name
      \<and> cached_make_env cops make_env pr = (Inr tmp_env, pr0)
      \<and> max_episode_steps cops tmp_env (heap pr0) = None
      \<longrightarrow> prepare_params cops make_env kwargs pr = (Inl AssertionError, pr0))
   \<and> (prepare_params cops make_env kwargs pr = (Inr kwargs1, pr1)
      \<longrightarrow> (\<exists>env pr0 steps.
            cached_make_env cops make_env pr = (Inr env, pr0)
            \<and> max_episode_steps cops env (heap pr0) = Some steps
            \<and> kwargs1 ''T'' = Some (PyInt steps)))
   \<and> (\<not> 0 < horizon
      \<longrightarrow> rollout_worker_init ops factory pol dms lg horizon batch expl target cq noise rnd hist
            = Inl AssertionError)
   \<and> (rollout_worker_init ops factory pol dms lg horizon batch expl target cq noise rnd hist
        = Inr w
      \<longrightarrow> 0 < horizon \<and> T w = horizon)"
proof -
  have a: "kwargs ''env_name'' = Some env_name
      \<and> cached_make_env cops make_env pr = (Inr tmp_env, pr0)
      \<and> max_episode_steps cops tmp_env (heap pr0) = None
      \<longrightarrow> prepare_params cops make_env kwargs pr = (Inl AssertionError, pr0)"
    by (simp add: prepare_params_def)
  have b: "prepare_params cops make_env kwargs pr = (Inr kwargs1, pr1)
      \<longrightarrow> (\<exists>env pr0 steps.
            cached_make_env cops make_env pr = (Inr env, pr0)
            \<and> max_episode_steps cops env (heap pr0) = Some steps
            \<and> kwargs1 ''T'' = Some (PyInt steps))"
  proof
    assume "prepare_params cops make_env kwargs pr = (Inr kwargs1, pr1)"
    then show "\<exists>env pr0 steps.
            cached_make_env cops make_env pr = (Inr env, pr0)
            \<and> max_episode_steps cops env (heap pr0) = Some steps
            \<and> kwargs1 ''T'' = Some (PyInt steps)"
      by (rule prepare_params_Inr) blast
  qed
  have c: "\<not> 0 < horizon
      \<longrightarrow> rollout_worker_init ops factory pol dms lg horizon batch expl target cq noise rnd hist
            = Inl AssertionError"
    by (simp add: rollout_worker_init_def)
  have d: "rollout_worker_init ops factory pol dms lg horizon batch expl target cq noise rnd hist
        = Inr w
      \<longrightarrow> 0 < horizon \<and> T w = horizon"
  proof
    assume init: "rollout_worker_init ops factory pol dms lg horizon batch expl target cq noise
        rnd hist = Inr w"
    then have pos: "0 < horizon"
      by (auto simp: rollout_worker_init_def Let_def split: if_splits)
    from init obtain dim_g dim_o w1 where
      reset: "reset_all_rollouts ops PyFalse
          \<lparr>envs = map factory [0..<batch], policy = pol, dims = dms, logger = lg, T = horizon,
           rollout_batch_size = batch, exploit = expl, use_target_net = target,
           compute_Q = cq, noise_eps = noise, random_eps = rnd, history_len = hist,
           info_keys = map (remove_all ''info_'')
                         (filter (\<lambda>key. startswith key ''info_'') (map fst dms)),
           success_history = [], Q_history = [], episode_length_history = [],
           once_success_history = [], return_history = [], n_episodes = 0,
           g = np_empty batch dim_g, initial_o = np_empty batch dim_o,
           initial_ag = np_empty batch dim_g\<rparr> = Inr w1"
      and w: "w = clear_history w1"
      by (auto simp: rollout_worker_init_def Let_def then_do_Inr split: if_splits)
    from reset_all_frame [OF reset] w have "T w = horizon"
      by (simp add: config_def clear_history_def)
    with pos show "0 < horizon \<and> T w = horizon" by simp
  qed
  from a b c d show ?thesis by blast
qed

lemma demo_init:
  "rollout_worker_init demo_ops (\<lambda>k. (k, 0)) () [(''o'', 1), (''g'', 1), (''u'', 1)] [] 3 2
     False False True (1 / 5) (3 / 10) 100 = Inr demo_worker"
  by (simp add: rollout_worker_init_def demo_worker_def demo_ops_def run_defs
      clear_history_def startswith_def upt_2 Let_def numeral_2_eq_2)

theorem horizon_from_environment_witness:
  "demo_kwargs ''env_name'' = Some (PyStr ''FetchReach-v0'')
   \<and> cached_make_env demo_config_ops 7 fresh_process
       = (Inr 7, \<lparr>CACHED_ENVS = [7 \<mapsto> 7], heap = 1, invoked = [7]\<rparr>)
   \<and> max_episode_steps demo_config_ops 7 1 = None
   \<and> prepare_params demo_config_ops 7 demo_kwargs fresh_process
       = (Inl AssertionError, \<lparr>CACHED_ENVS = [7 \<mapsto> 7], heap = 1, invoked = [7]\<rparr>)
   \<and> fst (prepare_params demo_config_ops 3 demo_kwargs fresh_process) \<noteq> Inl AssertionError
   \<and> (case fst (prepare_params demo_config_ops 3 demo_kwargs fresh_process) of
         Inr kwargs1 \<Rightarrow> kwargs1 ''T'' = Some (PyInt 50) | Inl e \<Rightarrow> False)
   \<and> rollout_worker_init demo_ops (\<lambda>k. (k, 0)) () [(''o'', 1), (''g'', 1), (''u'', 1)] [] 0 2
       False False True (1 / 5) (3 / 10) 100 = Inl AssertionError
   \<and> rollout_worker_init demo_ops (\<lambda>k. (k, 0)) () [(''o'', 1), (''g'', 1), (''u'', 1)] [] 3 2
       False False True (1 / 5) (3 / 10) 100 = Inr demo_worker
   \<and> T demo_worker = 3"
proof -
  let ?p = "\<lparr>CACHED_ENVS = [7 \<mapsto> 7], heap = 1, invoked = [7]\<rparr> :: (nat, nat, nat) process"
  have name: "demo_kwargs ''env_name'' = Some (PyStr ''FetchReach-v0'')"
    by (simp add: demo_kwargs_def)
  have call: "cached_make_env demo_config_ops 7 fresh_process = (Inr 7, ?p)"
    by (simp add: cached_make_env_def demo_config_ops_def fresh_process_def)
  have attr: "max_episode_steps demo_config_ops 7 (heap ?p) = None"
    by (simp add: demo_config_ops_def)
  obtain res pr1 where pp: "prepare_params demo_config_ops 3 demo_kwargs fresh_process = (res, pr1)"
    by (cases "prepare_params demo_config_ops 3 demo_kwargs fresh_process")
  have ok: "\<exists>kwargs1. res = Inr kwargs1"
    using pp
    by (auto simp: prepare_params_def cached_make_env_def demo_config_ops_def fresh_process_def
        demo_kwargs_def ddpg_names_def Let_def)
  then obtain kwargs1 where res: "res = Inr kwargs1" by blast
  note h = horizon_from_environment [where kwargs = demo_kwargs
      and env_name = "PyStr ''FetchReach-v0''" and cops = demo_config_ops and make_env = 7
      and pr = fresh_process and tmp_env = 7 and ?pr0.0 = ?p]
  from h [THEN conjunct1] name call attr
  have fails: "prepare_params demo_config_ops 7 demo_kwargs fresh_process = (Inl AssertionError, ?p)"
    by simp
  from horizon_from_environment [where cops = demo_config_ops and make_env = 3
      and pr = fresh_process and kwargs = demo_kwargs and ?kwargs1.0 = kwargs1 and ?pr1.0 = pr1,
      THEN conjunct2, THEN conjunct1] pp res
  have "\<exists>env pr0 steps.
      cached_make_env demo_config_ops 3 fresh_process = (Inr env, pr0)
      \<and> max_episode_steps demo_config_ops env (heap pr0) = Some steps
      \<and> kwargs1 ''T'' = Some (PyInt steps)"
    by simp
  then have T: "kwargs1 ''T'' = Some (PyInt 50)"
    by (auto simp: cached_make_env_def demo_config_ops_def fresh_process_def split: if_splits)
  from horizon_from_environment [where horizon = 0 and ops = demo_ops
      and factory = "\<lambda>k. (k, 0)" and pol = "()" and dms = "[(''o'', 1), (''g'', 1), (''u'', 1)]"
      and lg = "[]" and batch = 2 and expl = False and target = False and cq = True
      and noise = "1 / 5" and rnd = "3 / 10" and hist = 100,
      THEN conjunct2, THEN conjunct2, THEN conjunct1]
  have zero: "rollout_worker_init demo_ops (\<lambda>k. (k, 0)) () [(''o'', 1), (''g'', 1), (''u'', 1)]
      [] 0 2 False False True (1 / 5) (3 / 10) 100 = Inl AssertionError"
    by simp
  have Tw: "T demo_worker = 3" by (simp add: demo_worker_def)
  from name call attr fails pp res T zero demo_init Tw show ?thesis by simp
qed

section \<open>Exploration parameters (claim C5)\<close>

lemma finish_policy: "finish w L = Inr (ep, w1) \<Longrightarrow> policy w1 = policy w"
  by (auto simp: finish_def Let_def split: if_splits)

lemma recording_call:
  "snd (snd (get_actions (recording ops) s a)) = snd s @ [a]"
  by (simp add: recording_def split: prod.splits)

lemma calls_step:
  assumes inv: "loop_inv w0 z0 horizon k s"
    and calls: "snd (policy (fst s)) = old @ calls \<and> length calls = k
                \<and> list_all (exploration_ok w0 random_action) calls"
    and step: "rollout_step (recording ops) random_action t s = Next s'"
  shows "\<exists>calls'. snd (policy (fst s')) = old @ calls' \<and> length calls' = Suc k
                \<and> list_all (exploration_ok w0 random_action) calls'"
proof -
  obtain w L where s: "s = (w, L)" by (cases s)
  obtain w1 L1 where s': "s' = (w1, L1)" by (cases s')
  from inv s have cfg: "config w = config w0" and sh: "shaped (rollout_batch_size w0) k L"
    by (simp_all add: loop_inv_def)
  from cfg have n: "rollout_batch_size w = rollout_batch_size w0"
    and e: "exploit w = exploit w0" "noise_eps w = noise_eps w0" "random_eps w = random_eps w0"
    by (simp_all add: config_def)
  from sh have lens: "length (returns L) = rollout_batch_size w"
    "length (lengths L) = rollout_batch_size w"
    "length (once_successes L) = rollout_batch_size w"
    by (simp_all add: shaped_def n)
  from step s s'
  have step': "rollout_step (recording ops) random_action t (w, L) = Next (w1, L1)" by simp
  from step' lens obtain policy_u policy_Q L2 where
    "policy w1 = snd (get_actions (recording ops) (policy w) (policy_call w random_action L))"
    by (rule rollout_step_effect)
  with recording_call [of ops "policy w" "policy_call w random_action L"]
  have p: "snd (policy w1) = snd (policy w) @ [policy_call w random_action L]" by simp
  have ok: "exploration_ok w0 random_action (policy_call w random_action L)"
    by (simp add: exploration_ok_def policy_call_def e)
  from calls s p ok
  have "snd (policy w1) = old @ (calls @ [policy_call w random_action L])
    \<and> length (calls @ [policy_call w random_action L]) = Suc k
    \<and> list_all (exploration_ok w0 random_action) (calls @ [policy_call w random_action L])"
    by simp
  then show ?thesis unfolding s' fst_conv by (rule exI)
qed

text \<open>
  Claim C5, as the code has it. Wrap any policy so that it records its calls. A call of
  \<^verbatim>\<open>generate_rollouts\<close> that returns has asked the policy once per timestep, and at every one
  of these calls \<^verbatim>\<open>noise_eps\<close> was 0 if \<^verbatim>\<open>exploit\<close> is set and the configured value
  otherwise, and \<^verbatim>\<open>random_eps\<close> was 1 if \<^verbatim>\<open>random_action\<close> is set, else 0 if \<^verbatim>\<open>exploit\<close>
  is set, else the configured value.
\<close>

theorem exploration_parameters:
  assumes "generate_rollouts_episode (recording ops) generated_goal z_s_onehot random_action w
             = Inr (ep, w')"
  shows "\<exists>calls. snd (policy w') = snd (policy w) @ calls \<and> length calls = nat (T w)
    \<and> list_all (\<lambda>a.
          arg_noise_eps a = (if exploit w then 0 else noise_eps w)
          \<and> arg_random_eps a =
              (if random_action then 1 else if exploit w then 0 else random_eps w)) calls"
proof -
  from assms obtain w1 L0 w2 L where
    reset: "reset_all_rollouts (recording ops) generated_goal w = Inr w1"
    and start: "start_frame w1 z_s_onehot = Inr L0"
    and loop: "time_loop (recording ops) random_action [0..<nat (T w1)] (w1, L0) = Next (w2, L)"
    and fin: "finish w2 L = Inr (ep, w')"
    by (rule generate_rollouts_episode_Inr)
  note fr = reset_all_frame [OF reset]
  from fr have T1: "T w1 = T w" and p1: "policy w1 = policy w"
    and e: "exploit w1 = exploit w" "noise_eps w1 = noise_eps w" "random_eps w1 = random_eps w"
    by (simp_all add: config_def)
  from start obtain z_rows where inv0: "loop_inv w1 z_rows (nat (T w1)) 0 (w1, L0)"
    by (rule start_frame_inv)
  let ?P = "\<lambda>k s. loop_inv w1 z_rows (nat (T w1)) k s
      \<and> (\<exists>calls. snd (policy (fst s)) = snd (policy w) @ calls \<and> length calls = k
            \<and> list_all (exploration_ok w1 random_action) calls)"
  have "?P (0 + length [0..<nat (T w1)]) (w2, L)"
  proof (rule time_loop_counted [where P = ?P, OF loop])
    show "?P 0 (w1, L0)" using inv0 p1 by simp
  next
    fix t k s s'
    assume a: "?P k s" and st: "rollout_step (recording ops) random_action t s = Next s'"
    from a have i: "loop_inv w1 z_rows (nat (T w1)) k s" by simp
    from a obtain calls where
      cl: "snd (policy (fst s)) = snd (policy w) @ calls \<and> length calls = k
           \<and> list_all (exploration_ok w1 random_action) calls"
      by blast
    from loop_inv_step [OF i st] calls_step [OF i cl st] show "?P (Suc k) s'" by simp
  qed
  then obtain calls where c: "snd (policy w2) = snd (policy w) @ calls"
    "length calls = nat (T w)" "list_all (exploration_ok w1 random_action) calls"
    by (auto simp: T1)
  from c(3) have "list_all (\<lambda>a.
          arg_noise_eps a = (if exploit w then 0 else noise_eps w)
          \<and> arg_random_eps a =
              (if random_action then 1 else if exploit w then 0 else random_eps w)) calls"
    by (simp add: list_all_iff exploration_ok_def e)
  with c(1,2) finish_policy [OF fin] show ?thesis by auto
qed

lemmas recording_defs =
  generate_rollouts_episode.simps run_defs recording_def demo_ops_def
  demo_goal_def demo_skill_def demo_step_def demo_actions_def demo_info_def
  upt_2 upt_3 Let_def numeral_2_eq_2 numeral_3_eq_3

lemma map_constant:
  "list_all (\<lambda>a. f a = c \<and> h a = d) xs \<Longrightarrow> map f xs = replicate (length xs) c
     \<and> map h xs = replicate (length xs) d"
  by (induction xs) simp_all

theorem exploration_parameters_witness:
  "\<exists>ep w'. generate_rollouts_episode (recording demo_ops) demo_goal demo_skill False
             recording_worker = Inr (ep, w')
     \<and> map arg_noise_eps (snd (policy w')) = [1 / 5, 1 / 5, 1 / 5]
     \<and> map arg_random_eps (snd (policy w')) = [3 / 10, 3 / 10, 3 / 10]"
proof -
  have "\<exists>ep w'. generate_rollouts_episode (recording demo_ops) demo_goal demo_skill False
             recording_worker = Inr (ep, w')"
    by (simp add: recording_defs recording_worker_def)
  then obtain ep w' where run: "generate_rollouts_episode (recording demo_ops) demo_goal
      demo_skill False recording_worker = Inr (ep, w')" by blast
  have w: "snd (policy recording_worker) = []" "nat (T recording_worker) = 3"
    "\<not> exploit recording_worker" "noise_eps recording_worker = 1 / 5"
    "random_eps recording_worker = 3 / 10"
    by (simp_all add: recording_worker_def)
  from exploration_parameters [OF run] obtain calls where
    c: "snd (policy w') = calls" "length calls = 3"
    "list_all (\<lambda>a. arg_noise_eps a = 1 / 5 \<and> arg_random_eps a = 3 / 10) calls"
    by (auto simp: w)
  from map_constant [OF c(3)] c(1,2)
  have m: "map arg_noise_eps (snd (policy w')) = [1 / 5, 1 / 5, 1 / 5]"
    "map arg_random_eps (snd (policy w')) = [3 / 10, 3 / 10, 3 / 10]"
    by (simp_all add: numeral_3_eq_3)
  show ?thesis
  proof (intro exI conjI)
    show "generate_rollouts_episode (recording demo_ops) demo_goal demo_skill False
        recording_worker = Inr (ep, w')" by (rule run)
    show "map arg_noise_eps (snd (policy w')) = [1 / 5, 1 / 5, 1 / 5]" by (rule m(1))
    show "map arg_random_eps (snd (policy w')) = [3 / 10, 3 / 10, 3 / 10]" by (rule m(2))
  qed
qed

text \<open>
  The claim as stated has \<^verbatim>\<open>random_eps\<close> zero whenever \<^verbatim>\<open>exploit\<close> is set. With \<^verbatim>\<open>exploit\<close>
  and \<^verbatim>\<open>random_action\<close> both set, every call of the rollout passes \<^verbatim>\<open>random_eps = 1\<close>.
\<close>

theorem exploit_random_action_counterexample:
  "exploit exploiting_worker
   \<and> (case generate_rollouts_episode (recording demo_ops) demo_goal demo_skill True
             exploiting_worker of
         Inr (ep, w') \<Rightarrow> map arg_random_eps (snd (policy w')) = [1, 1, 1]
                          \<and> map arg_noise_eps (snd (policy w')) = [0, 0, 0]
       | Inl e \<Rightarrow> False)"
  by (simp add: recording_defs exploiting_worker_def recording_worker_def)

section \<open>Logs (claim C7)\<close>

lemma startswith_set: "startswith name p \<Longrightarrow> set p \<subseteq> set name"
  unfolding startswith_def by (metis set_take_subset)

lemma logs_names_plain:
  "map fst (logs [] w) =
     [''num_trajs'', ''success_rate'', ''once_success_rate'', ''return'', ''episode_length'']
     @ (if compute_Q w then [''mean_Q''] else []) @ [''episode'']"
  by (simp add: logs_def)

lemma logs_split:
  "logs prefix w =
     (if prefix \<noteq> [] \<and> \<not> endswith prefix ''/''
      then map (\<lambda>(key, val). (prefix @ ''/'' @ key, val)) (logs [] w)
      else logs [] w)"
  by (simp add: logs_def Let_def)

lemma logs_nonempty: "''num_trajs'' \<in> set (map fst (logs [] w))"
  unfolding logs_names_plain by simp

text \<open>
  Claim C7, as the code has it. \<^verbatim>\<open>logs(prefix)\<close> returns the same values in the same order
  for every prefix: num_trajs, success_rate, once_success_rate, return, episode_length,
  mean_Q (only when \<^verbatim>\<open>compute_Q\<close> is set) and episode. Every name starts with
  \<open>prefix/\<close> exactly when the prefix is not empty and does not itself end with a
  slash; otherwise the names are left without any prefix.
\<close>

theorem logs_prefix_rule:
  "map snd (logs prefix w) = map snd (logs [] w)
   \<and> map fst (logs prefix w) =
       (if prefix \<noteq> [] \<and> \<not> endswith prefix ''/''
        then map (\<lambda>key. prefix @ ''/'' @ key) (map fst (logs [] w))
        else map fst (logs [] w))
   \<and> map fst (logs [] w) =
       [''num_trajs'', ''success_rate'', ''once_success_rate'', ''return'', ''episode_length'']
       @ (if compute_Q w then [''mean_Q''] else []) @ [''episode'']
   \<and> (list_all (\<lambda>name. startswith name (prefix @ ''/'')) (map fst (logs prefix w))
        \<longleftrightarrow> prefix \<noteq> [] \<and> \<not> endswith prefix ''/'')"
proof -
  have vals: "map snd (logs prefix w) = map snd (logs [] w)"
    by (subst logs_split) (simp add: o_def split_def)
  have names: "map fst (logs prefix w) =
       (if prefix \<noteq> [] \<and> \<not> endswith prefix ''/''
        then map (\<lambda>key. prefix @ ''/'' @ key) (map fst (logs [] w))
        else map fst (logs [] w))"
    by (subst logs_split) (simp add: o_def split_def)
  have iff: "list_all (\<lambda>name. startswith name (prefix @ ''/'')) (map fst (logs prefix w))
        \<longleftrightarrow> prefix \<noteq> [] \<and> \<not> endswith prefix ''/''"
  proof (cases "prefix \<noteq> [] \<and> \<not> endswith prefix ''/''")
    case True
    then show ?thesis
      unfolding names by (simp add: list_all_iff startswith_def)
  next
    case False
    have "\<not> startswith ''num_trajs'' (prefix @ ''/'')"
    proof
      assume "startswith ''num_trajs'' (prefix @ ''/'')"
      from startswith_set [OF this] show False by auto
    qed
    with False logs_nonempty [of w] show ?thesis
      unfolding names by (auto simp: list_all_iff)
  qed
  from vals names iff logs_names_plain show ?thesis by blast
qed

theorem logs_prefix_rule_witness:
  "map fst (logs ''worker'' demo_worker) =
     [''worker/num_trajs'', ''worker/success_rate'', ''worker/once_success_rate'',
      ''worker/return'', ''worker/episode_length'', ''worker/mean_Q'', ''worker/episode'']
   \<and> map fst (logs [] demo_worker) =
     [''num_trajs'', ''success_rate'', ''once_success_rate'', ''return'', ''episode_length'',
      ''mean_Q'', ''episode'']"
proof -
  have c: "compute_Q demo_worker" by (simp add: demo_worker_def)
  have e: "''worker'' \<noteq> [] \<and> \<not> endswith ''worker'' ''/''" by (simp add: endswith_def)
  note r = logs_prefix_rule [of "''worker''" demo_worker]
  from r c have n0: "map fst (logs [] demo_worker) =
     [''num_trajs'', ''success_rate'', ''once_success_rate'', ''return'', ''episode_length'',
      ''mean_Q'', ''episode'']" by simp
  from r have "map fst (logs ''worker'' demo_worker) =
       (if ''worker'' \<noteq> [] \<and> \<not> endswith ''worker'' ''/''
        then map (\<lambda>key. ''worker'' @ ''/'' @ key) (map fst (logs [] demo_worker))
        else map fst (logs [] demo_worker))" by blast
  with e have "map fst (logs ''worker'' demo_worker) =
       map (\<lambda>key. ''worker'' @ ''/'' @ key) (map fst (logs [] demo_worker))"
    by (simp only: simp_thms if_True)
  with n0 show ?thesis by simp
qed

text \<open>
  The claim as stated (prefixed if and only if the prefix is not empty) fails for a prefix
  that ends with a slash: \<^verbatim>\<open>logs('worker/')\<close> returns the bare names.
\<close>

theorem logs_trailing_slash_counterexample:
  "''worker/'' \<noteq> []
   \<and> \<not> list_all (\<lambda>name. startswith name (''worker/'' @ ''/''))
         (map fst (logs ''worker/'' demo_worker))"
  by (simp add: logs_def endswith_def startswith_def demo_worker_def)

end
